theory Spec2Isabelle
  imports Main
begin

section \<open>The OpenWebUI Docker Compose generator (generate.py)\<close>

text \<open>
  A shallow embedding of \<^verbatim>\<open>generate.py\<close>. Python strings are modelled as
  \<^typ>\<open>string\<close>; one \<^typ>\<open>char\<close> stands for one code point below 256, so
  \<open>length\<close>, \<open>take\<close> and the whitespace test count what Python's \<^verbatim>\<open>str\<close> counts on
  such text. The content of a file is the text that a text-mode \<^verbatim>\<open>open(..., 'r')\<close>
  delivers (after decoding and newline translation). Reading an existing file, writing
  a file and printing are taken to succeed. An assignment to \<^verbatim>\<open>os.environ\<close> raises
  \<^verbatim>\<open>ValueError\<close> for a text with a NUL character and succeeds otherwise. The
  command line is modelled after \<^verbatim>\<open>argparse\<close> has accepted it, and the creation of the
  output directory at import time is not modelled.
\<close>

subsection \<open>String operations of Python used by the program\<close>

definition nl :: string where
  "nl = [CHR 0x0A]"

text \<open>\<^verbatim>\<open>s.startswith(p)\<close>\<close>

fun startswith :: "string \<Rightarrow> string \<Rightarrow> bool" where
  "startswith s [] = True"
| "startswith [] (p # ps) = False"
| "startswith (c # cs) (p # ps) = (c = p \<and> startswith cs ps)"

text \<open>\<^verbatim>\<open>p in s\<close>\<close>

fun contains :: "string \<Rightarrow> string \<Rightarrow> bool" where
  "contains [] p = (p = [])"
| "contains (c # cs) p = (startswith (c # cs) p \<or> contains cs p)"

text \<open>
  \<^verbatim>\<open>s.split(sep)\<close>: the text is cut at the occurrences of \<open>sep\<close> found from left to
  right, an occurrence that has been used is skipped as a whole. Python refuses an empty
  separator; the program only splits on fixed non-empty markers.
\<close>

function py_split :: "string \<Rightarrow> string \<Rightarrow> string list" where
  "py_split [] sep = [[]]"
| "py_split (c # cs) sep =
     (if sep \<noteq> [] \<and> startswith (c # cs) sep
      then [] # py_split (drop (length sep) (c # cs)) sep
      else (case py_split cs sep of
              [] \<Rightarrow> [[c]]
            | p # ps \<Rightarrow> (c # p) # ps))"
  by pat_completeness auto
termination
  by (relation "measure (\<lambda>(s, sep). length s)") auto

text \<open>\<^verbatim>\<open>s.split(c, 1)\<close> for a single character \<open>c\<close>: one piece, or two cut at the first \<open>c\<close>.\<close>

definition split_once :: "string \<Rightarrow> char \<Rightarrow> string list" where
  "split_once s c =
     (if c \<in> set s
      then [takeWhile (\<lambda>x. x \<noteq> c) s, tl (dropWhile (\<lambda>x. x \<noteq> c) s)]
      else [s])"

text \<open>The code points below 256 for which \<^verbatim>\<open>str.isspace\<close> holds.\<close>

definition is_space :: "char \<Rightarrow> bool" where
  "is_space c = ((of_char c :: nat) \<in> {9, 10, 11, 12, 13, 28, 29, 30, 31, 32, 133, 160})"

text \<open>\<^verbatim>\<open>s.strip(chars)\<close> removes, at both ends, every character of the given class.\<close>

definition strip_chars :: "(char \<Rightarrow> bool) \<Rightarrow> string \<Rightarrow> string" where
  "strip_chars P s = rev (dropWhile P (rev (dropWhile P s)))"

definition strip :: "string \<Rightarrow> string" where
  "strip s = strip_chars is_space s"

definition is_quote :: "char \<Rightarrow> bool" where
  "is_quote c = (c = CHR 0x22 \<or> c = CHR 0x27)"

text \<open>\<^verbatim>\<open>s.lower()\<close> on code points below 256.\<close>

definition lower_char :: "char \<Rightarrow> char" where
  "lower_char c =
     (let n = (of_char c :: nat)
      in if (65 \<le> n \<and> n \<le> 90) \<or> (192 \<le> n \<and> n \<le> 222 \<and> n \<noteq> 215)
         then char_of (n + 32) else c)"

definition lower :: "string \<Rightarrow> string" where
  "lower s = map lower_char s"

text \<open>Iterating over a text file yields its lines, each with its newline.\<close>

fun file_lines :: "string \<Rightarrow> string list" where
  "file_lines [] = []"
| "file_lines (c # cs) =
     (if c = CHR 0x0A then [c] # file_lines cs
      else (case file_lines cs of
              [] \<Rightarrow> [[c]]
            | l # ls \<Rightarrow> (c # l) # ls))"

subsection \<open>The world the program runs in\<close>

datatype exn = ValueError | EOFError | KeyboardInterrupt | SystemExit nat

text \<open>What a call of \<^verbatim>\<open>input()\<close> meets: a line, or Ctrl-C. An exhausted list is end of input.\<close>

datatype stdin_event = Line string | Interrupt

datatype role = System | User | Assistant

type_synonym message = "role \<times> string"

text \<open>
  The chat-completion service: given the credential, the transcript and the token limit, it
  answers with text, raises an \<^verbatim>\<open>Exception\<close> carrying a message (network failure,
  malformed response, rejected credential), or the user interrupts the call.
\<close>

datatype llm_result = Reply string | Failure string | Interrupted

type_synonym llm = "string \<Rightarrow> message list \<Rightarrow> nat \<Rightarrow> llm_result"

datatype event =
    Print string
  | Prompt string
  | Stat string
  | Read string
  | Write string string
  | Call string "message list" nat

record world =
  files :: "string \<rightharpoonup> string"
  environ :: "string \<rightharpoonup> string"
  stdin :: "stdin_event list"
  trace :: "event list"

definition emit :: "event \<Rightarrow> world \<Rightarrow> world" where
  "emit e w = w\<lparr>trace := trace w @ [e]\<rparr>"

definition py_print :: "string \<Rightarrow> world \<Rightarrow> world" where
  "py_print s w = emit (Print s) w"

definition py_input :: "string \<Rightarrow> world \<Rightarrow> (exn + string) \<times> world" where
  "py_input p w =
     (case stdin w of
        [] \<Rightarrow> (Inl EOFError, emit (Prompt p) w)
      | Interrupt # rest \<Rightarrow> (Inl KeyboardInterrupt, (emit (Prompt p) w)\<lparr>stdin := rest\<rparr>)
      | Line s # rest \<Rightarrow> (Inr s, (emit (Prompt p) w)\<lparr>stdin := rest\<rparr>))"

definition write_file :: "string \<Rightarrow> string \<Rightarrow> world \<Rightarrow> world" where
  "write_file p c w = (emit (Write p c) w)\<lparr>files := (files w)(p \<mapsto> c)\<rparr>"

text \<open>
  \<^verbatim>\<open>os.environ[key] = value\<close>: Python refuses a NUL character in the name or in the
  value (\<^verbatim>\<open>ValueError: embedded null byte\<close>) and an empty name or one with \<open>=\<close>
  (\<^verbatim>\<open>ValueError: illegal environment variable name\<close>).
\<close>

definition environ_set :: "string \<Rightarrow> string \<Rightarrow> world \<Rightarrow> (exn + unit) \<times> world" where
  "environ_set key val w =
     (if CHR 0x00 \<in> set key \<or> CHR 0x00 \<in> set val \<or> key = [] \<or> CHR ''='' \<in> set key
      then (Inl ValueError, w)
      else (Inr (), w\<lparr>environ := (environ w)(key \<mapsto> val)\<rparr>))"

text \<open>The events a step has added to the trace, and the files written among them.\<close>

definition new_events :: "world \<Rightarrow> world \<Rightarrow> event list" where
  "new_events w w' = drop (length (trace w)) (trace w')"

fun written :: "event list \<Rightarrow> (string \<times> string) list" where
  "written [] = []"
| "written (Write p c # es) = (p, c) # written es"
| "written (e # es) = written es"

fun touched :: "event list \<Rightarrow> string list" where
  "touched [] = []"
| "touched (Stat p # es) = p # touched es"
| "touched (Read p # es) = p # touched es"
| "touched (e # es) = touched es"

fun calls :: "event list \<Rightarrow> (string \<times> message list \<times> nat) list" where
  "calls [] = []"
| "calls (Call k m n # es) = (k, m, n) # calls es"
| "calls (e # es) = calls es"

text \<open>No call recorded in a list of events was answered by an error of the service.\<close>

definition failure_free :: "llm \<Rightarrow> event list \<Rightarrow> bool" where
  "failure_free service es =
     list_all (\<lambda>(k, m, n). case service k m n of Failure e \<Rightarrow> False | _ \<Rightarrow> True) (calls es)"

subsection \<open>Configuration paths\<close>

definition STATIC_REF_DIR :: string where
  "STATIC_REF_DIR = ''static-ref''"

definition REPO_DOCS_DIR :: string where
  "REPO_DOCS_DIR = ''repo-docs/open-webui-docs''"

definition GENERATED_DIR :: string where
  "GENERATED_DIR = ''generated''"

definition env_file :: string where
  "env_file = ''.env''"

definition docker_compose_path :: string where
  "docker_compose_path = GENERATED_DIR @ ''/'' @ ''docker-compose.yaml''"

definition env_path :: string where
  "env_path = GENERATED_DIR @ ''/'' @ ''.env.generated''"

subsection \<open>\<^verbatim>\<open>load_env_vars\<close> and \<^verbatim>\<open>get_openai_key\<close>\<close>

definition OPENAI_API_KEY :: string where
  "OPENAI_API_KEY = ''OPENAI_API_KEY''"

text \<open>
  The test of line 24, \<^verbatim>\<open>line.strip() and not line.startswith('#')\<close>, is
  \<open>considered\<close>. Then the \<^verbatim>\<open>for line in f\<close> loop of \<^verbatim>\<open>load_env_vars\<close>. Unpacking
  \<^verbatim>\<open>key, value = line.strip().split('=', 1)\<close> raises \<^verbatim>\<open>ValueError\<close> when the split
  gives a single piece, and so does the assignment of line 29 when the value is refused.
\<close>

definition considered :: "string \<Rightarrow> bool" where
  "considered line = (strip line \<noteq> [] \<and> \<not> startswith line ''#'')"

fun scan_env :: "string list \<Rightarrow> world \<Rightarrow> (exn + string option) \<times> world" where
  "scan_env [] w = (Inr None, w)"
| "scan_env (line # rest) w =
     (if considered line
      then (case split_once (strip line) (CHR ''='') of
              [key, val] \<Rightarrow>
                if key = OPENAI_API_KEY
                then (let val' = strip_chars is_quote val
                      in case environ_set key val' w of
                           (Inl e, w1) \<Rightarrow> (Inl e, w1)
                         | (Inr u, w1) \<Rightarrow> (Inr (Some val'), w1))
                else scan_env rest w
            | _ \<Rightarrow> (Inl ValueError, w))
      else scan_env rest w)"

text \<open>
  The lines that the loop goes past: blank lines, lines that start with \<open>#\<close>, and
  \<^verbatim>\<open>KEY=VALUE\<close> lines with another key.
\<close>

definition passed_over :: "string \<Rightarrow> bool" where
  "passed_over line =
     (\<not> considered line \<or>
      (CHR ''='' \<in> set line \<and>
       takeWhile (\<lambda>c. c \<noteq> CHR ''='') (strip line) \<noteq> OPENAI_API_KEY))"

definition load_env_vars :: "world \<Rightarrow> (exn + string option) \<times> world" where
  "load_env_vars w =
     (case files w env_file of
        None \<Rightarrow> (Inr None, emit (Stat env_file) w)
      | Some text \<Rightarrow> scan_env (file_lines text) (emit (Read env_file) (emit (Stat env_file) w)))"

text \<open>Lines 38 to 40: the interactive prompt of \<^verbatim>\<open>get_openai_key\<close>.\<close>

definition ask_key :: "world \<Rightarrow> (exn + string) \<times> world" where
  "ask_key w =
     (case py_input ''Please enter your OpenAI API key: ''
             (py_print ''OpenAI API key not found in environment or .env file.'' w) of
        (Inl e, w1) \<Rightarrow> (Inl e, w1)
      | (Inr l, w1) \<Rightarrow>
          (let api_key = strip l
           in case environ_set OPENAI_API_KEY api_key w1 of
                (Inl e, w2) \<Rightarrow> (Inl e, w2)
              | (Inr u, w2) \<Rightarrow> (Inr api_key, w2)))"

definition get_openai_key :: "world \<Rightarrow> (exn + string) \<times> world" where
  "get_openai_key w =
     (case (case environ w OPENAI_API_KEY of
              None \<Rightarrow> load_env_vars w
            | Some v \<Rightarrow> if v \<noteq> [] then (Inr (Some v), w) else load_env_vars w) of
        (Inl e, w1) \<Rightarrow> (Inl e, w1)
      | (Inr None, w1) \<Rightarrow> ask_key w1
      | (Inr (Some api_key), w1) \<Rightarrow> if api_key = [] then ask_key w1 else (Inr api_key, w1))"

subsection \<open>\<^verbatim>\<open>load_documentation\<close>\<close>

definition static_env_vars_path :: string where
  "static_env_vars_path = STATIC_REF_DIR @ ''/'' @ ''env-variables.md''"

definition static_sample_compose_path :: string where
  "static_sample_compose_path = STATIC_REF_DIR @ ''/'' @ ''sample-docker-compose.yaml''"

definition repo_env_vars_path :: string where
  "repo_env_vars_path = REPO_DOCS_DIR @ ''/'' @ ''docs/getting-started/env-configuration.md''"

definition repo_sample_compose_path :: string where
  "repo_sample_compose_path =
     REPO_DOCS_DIR @ ''/'' @ ''docs/getting-started/installation/docker-compose.md''"

text \<open>\<^verbatim>\<open>if path.exists(): with open(path, 'r') as f: content = f.read()\<close>, else the default.\<close>

definition read_if_exists :: "string \<Rightarrow> string \<Rightarrow> world \<Rightarrow> string \<times> world" where
  "read_if_exists p dflt w =
     (case files w p of
        None \<Rightarrow> (dflt, emit (Stat p) w)
      | Some text \<Rightarrow> (text, emit (Read p) (emit (Stat p) w)))"

text \<open>The \<^verbatim>\<open>else\<close> branch of \<^verbatim>\<open>load_documentation\<close> (lines 59 to 69).\<close>

definition load_repo_docs :: "world \<Rightarrow> (string \<times> string) \<times> world" where
  "load_repo_docs w =
     (let (env_vars_content, w1) = read_if_exists repo_env_vars_path [] w;
          (sample_compose_content, w2) = read_if_exists repo_sample_compose_path [] w1
      in ((env_vars_content, sample_compose_content), w2))"

definition load_documentation :: "world \<Rightarrow> (string \<times> string) \<times> world" where
  "load_documentation w =
     (case files w static_env_vars_path of
        None \<Rightarrow> load_repo_docs (emit (Stat static_env_vars_path) w)
      | Some env_vars_content \<Rightarrow>
          (case files w static_sample_compose_path of
             None \<Rightarrow>
               load_repo_docs
                 (emit (Stat static_sample_compose_path) (emit (Stat static_env_vars_path) w))
           | Some sample_compose_content \<Rightarrow>
               ((env_vars_content, sample_compose_content),
                emit (Read static_sample_compose_path)
                  (emit (Read static_env_vars_path)
                    (emit (Stat static_sample_compose_path)
                      (emit (Stat static_env_vars_path) w))))))"

subsection \<open>The prompts\<close>

definition truncation_marker :: string where
  "truncation_marker = ''... [truncated]''"

definition prompt_head :: string where
  "prompt_head =
     ''You are an expert on OpenWebUI configuration and Docker Compose. '' @ nl @
     ''Your task is to help the user generate a customized Docker Compose file for OpenWebUI.'' @ nl @
     ''You should ask the user a series of questions about their preferences for:'' @ nl @
     ''1. Database configuration (SQLite or PostgreSQL)'' @ nl @
     ''2. Vector database for RAG (Chroma, Milvus, Qdrant, OpenSearch, PGVector)'' @ nl @
     ''3. Additional services like Redis'' @ nl @
     ''4. Authentication options'' @ nl @
     ''5. API integrations'' @ nl @
     ''6. Other customizations'' @ nl @
     nl @
     ''Based on their answers, you'll generate a complete Docker Compose file with all necessary services and volumes.'' @ nl @
     ''You'll also generate environment variables, which can be either embedded in the Docker Compose file or in a separate .env.generated file.'' @ nl @
     nl @
     ''Here's reference documentation on OpenWebUI environment variables:'' @ nl"

definition prompt_middle :: string where
  "prompt_middle =
     nl @
     nl @
     ''Here's a sample Docker Compose file for OpenWebUI:'' @ nl"

text \<open>The f-string of lines 81 to 99; \<^verbatim>\<open>text[:n]\<close> is \<open>take n text\<close>.\<close>

definition system_prompt :: "string \<Rightarrow> string \<Rightarrow> string" where
  "system_prompt env_vars_content sample_compose_content =
     prompt_head @ take 4000 env_vars_content @ truncation_marker @
     prompt_middle @ take 2000 sample_compose_content @ truncation_marker @ nl"

definition initial_message :: string where
  "initial_message =
     ''I'll help you generate a customized Docker Compose file for OpenWebUI. '' @ nl @
     ''I'll ask you a series of questions about your preferences, and then generate the appropriate configuration.'' @ nl @
     nl @
     ''First, would you prefer to have environment variables embedded directly in the Docker Compose file, or in a separate .env.generated file?''"

definition final_prompt :: string where
  "final_prompt =
     ''Based on our conversation, please generate:'' @ nl @
     ''1. A complete Docker Compose file for OpenWebUI with all the configurations we discussed'' @ nl @
     ''2. Environment variables (either embedded or in a separate file as requested)'' @ nl @
     nl @
     ''Format your response as follows:'' @ nl @
     ''```docker-compose'' @ nl @
     ''# Docker Compose content here'' @ nl @
     ''```'' @ nl @
     nl @
     ''If environment variables should be in a separate file:'' @ nl @
     ''```env'' @ nl @
     ''# Environment variables content here'' @ nl @
     ''```'' @ nl @
     nl @
     ''Make sure to include all necessary services, volumes, and environment variables based on the user's preferences.''"

definition sentinel :: string where
  "sentinel = ''I'll now generate your Docker Compose file''"

subsection \<open>Extraction of the fenced blocks (lines 163 to 181)\<close>

definition fence :: string where
  "fence = ''```''"

definition docker_compose_marker :: string where
  "docker_compose_marker = ''```docker-compose''"

definition env_marker :: string where
  "env_marker = ''```env''"

definition yaml_marker :: string where
  "yaml_marker = ''```yaml''"

text \<open>\<^verbatim>\<open>parts[1].split("```")[0].strip()\<close>\<close>

definition block_text :: "string list \<Rightarrow> string" where
  "block_text parts = strip (py_split (parts ! 1) fence ! 0)"

text \<open>
  The pattern the source repeats for each marker:
  \<^verbatim>\<open>parts = reply.split(marker); if len(parts) > 1: content = parts[1].split("```")[0].strip()\<close>,
  the content keeping its former value \<open>old\<close> otherwise.
\<close>

definition block_after :: "string \<Rightarrow> string \<Rightarrow> string \<Rightarrow> string" where
  "block_after marker generation_response old =
     (let parts = py_split generation_response marker
      in if length parts > 1 then block_text parts else old)"

definition extract_blocks :: "string \<Rightarrow> string \<times> string" where
  "extract_blocks generation_response =
     (let docker_compose_content = [];
          env_content = [];
          docker_compose_content =
            (if contains generation_response docker_compose_marker
             then block_after docker_compose_marker generation_response docker_compose_content
             else docker_compose_content);
          env_content =
            (if contains generation_response env_marker
             then block_after env_marker generation_response env_content
             else env_content);
          docker_compose_content =
            (if docker_compose_content = [] \<and> contains generation_response yaml_marker
             then block_after yaml_marker generation_response docker_compose_content
             else docker_compose_content)
      in (docker_compose_content, env_content))"

text \<open>
  The first occurrence of a marker in a reply opens a block with a given body: the marker
  does not occur earlier, and the body is closed by the first fence after the marker, a fence
  of exactly three backticks.
\<close>

definition opens_block :: "string \<Rightarrow> string \<Rightarrow> string \<Rightarrow> string \<Rightarrow> string \<Rightarrow> bool" where
  "opens_block marker reply pre body rest =
     (reply = pre @ marker @ body @ fence @ rest \<and>
      \<not> contains (pre @ butlast marker) marker \<and>
      \<not> contains (body @ ''``'') fence \<and>
      \<not> startswith rest ''`'')"

subsection \<open>Persistence and the closing dialogue (lines 183 to 207)\<close>

definition save_outputs :: "string \<Rightarrow> string \<Rightarrow> world \<Rightarrow> world" where
  "save_outputs docker_compose_content env_content w =
     (let w1 = write_file docker_compose_path docker_compose_content w;
          w2 = (if env_content \<noteq> []
                then py_print (nl @ ''Environment variables saved to '' @ env_path)
                       (write_file env_path env_content w1)
                else w1);
          w3 = py_print (nl @ ''Docker Compose file generated at '' @ docker_compose_path) w2;
          w4 = py_print (nl @ ''To start your OpenWebUI stack, run:'') w3
      in py_print (''cd '' @ GENERATED_DIR @ '' && docker-compose up -d'') w4)"

definition show_outputs :: "string \<Rightarrow> string \<Rightarrow> world \<Rightarrow> world" where
  "show_outputs docker_compose_content env_content w =
     (let w1 = py_print (nl @ ''--- Docker Compose File ---'') w;
          w2 = py_print docker_compose_content w1
      in if env_content \<noteq> []
         then py_print env_content (py_print (nl @ ''--- Environment Variables ---'') w2)
         else w2)"

text \<open>
  Everything after the final reply has arrived. The code runs inside the \<^verbatim>\<open>try\<close>, so
  the \<^verbatim>\<open>EOFError\<close> of the last \<^verbatim>\<open>input()\<close> is handled by
  \<^verbatim>\<open>except Exception\<close>, while \<^verbatim>\<open>KeyboardInterrupt\<close> passes through.
\<close>

definition handle_reply :: "string \<Rightarrow> world \<Rightarrow> (exn + unit) \<times> world" where
  "handle_reply generation_response w =
     (let (docker_compose_content, env_content) = extract_blocks generation_response;
          w1 = save_outputs docker_compose_content env_content w
      in case py_input (nl @ ''Would you like to see the generated files? (yes/no): '') w1 of
           (Inl EOFError, w2) \<Rightarrow> (Inr (), py_print ''Error: EOF when reading a line'' w2)
         | (Inl e, w2) \<Rightarrow> (Inl e, w2)
         | (Inr show_files, w2) \<Rightarrow>
             (Inr (),
              if lower show_files \<in> set [''yes'', ''y'']
              then show_outputs docker_compose_content env_content w2
              else w2))"

text \<open>Lines 136 to 209: the finalize request and what follows it.\<close>

definition finalize :: "llm \<Rightarrow> string \<Rightarrow> message list \<Rightarrow> world \<Rightarrow> (exn + unit) \<times> world" where
  "finalize service api_key messages w =
     (let messages' = messages @ [(User, final_prompt)];
          w1 = emit (Call api_key messages' 2000) w
      in case service api_key messages' 2000 of
           Failure e \<Rightarrow> (Inr (), py_print (''Error: '' @ e) w1)
         | Interrupted \<Rightarrow> (Inl KeyboardInterrupt, w1)
         | Reply generation_response \<Rightarrow> handle_reply generation_response w1)"

subsection \<open>The conversation loop (lines 114 to 213)\<close>

function chat_loop :: "llm \<Rightarrow> string \<Rightarrow> message list \<Rightarrow> world \<Rightarrow> (exn + unit) \<times> world" where
  "chat_loop service api_key messages w =
     (case py_input (nl @ ''You: '') w of
        (Inl e, w1) \<Rightarrow> (Inl e, w1)
      | (Inr user_input, w1) \<Rightarrow>
          if lower user_input \<in> set [''exit'', ''quit'', ''q'']
          then (Inr (), py_print ''Exiting generator.'' w1)
          else
            (let messages1 = messages @ [(User, user_input)];
                 w2 = emit (Call api_key messages1 1500) w1
             in case service api_key messages1 1500 of
                  Failure e \<Rightarrow> (Inr (), py_print (''Error: '' @ e) w2)
                | Interrupted \<Rightarrow> (Inl KeyboardInterrupt, w2)
                | Reply ai_response \<Rightarrow>
                    (let messages2 = messages1 @ [(Assistant, ai_response)];
                         w3 = py_print (nl @ ''AI: '' @ ai_response) w2
                     in if contains ai_response sentinel
                        then finalize service api_key messages2 w3
                        else chat_loop service api_key messages2 w3)))"
  by pat_completeness auto
termination
proof (relation "measure (\<lambda>(service, api_key, messages, w). length (stdin w))")
  show "wf (measure (\<lambda>(service, api_key, messages, w). length (stdin w)))"
    by simp
next
  fix service :: llm and api_key messages w x1 w1 user_input messages1 w2 ai_response messages2 w3
  assume "(x1, w1) = py_input (nl @ ''You: '') w" "x1 = Inr user_input"
    "w2 = emit (Call api_key messages1 1500) w1"
    "w3 = py_print (nl @ ''AI: '' @ ai_response) w2"
  then show "((service, api_key, messages2, w3), (service, api_key, messages, w))
             \<in> measure (\<lambda>(service, api_key, messages, w). length (stdin w))"
    by (auto simp: py_input_def py_print_def emit_def split: list.splits stdin_event.splits)
qed

declare chat_loop.simps [simp del]

text \<open>
  The transcript after a sequence of user lines that keep the conversation going: none is
  an exit keyword, and the service answers each of them without the sentinel phrase. The
  result is \<open>None\<close> when one of the lines ends the loop.
\<close>

fun quiet_turns :: "llm \<Rightarrow> string \<Rightarrow> message list \<Rightarrow> string list \<Rightarrow> message list option" where
  "quiet_turns service api_key messages [] = Some messages"
| "quiet_turns service api_key messages (u # us) =
     (if lower u \<in> set [''exit'', ''quit'', ''q''] then None
      else (case service api_key (messages @ [(User, u)]) 1500 of
              Reply a \<Rightarrow>
                if contains a sentinel then None
                else quiet_turns service api_key (messages @ [(User, u), (Assistant, a)]) us
            | Failure e \<Rightarrow> None
            | Interrupted \<Rightarrow> None))"

subsection \<open>\<^verbatim>\<open>generate_docker_compose\<close>, \<^verbatim>\<open>main\<close> and the script\<close>

datatype reference_source = Static | RepoDocs

definition generate_docker_compose ::
  "llm \<Rightarrow> string \<Rightarrow> reference_source \<Rightarrow> bool \<Rightarrow> world \<Rightarrow> (exn + unit) \<times> world" where
  "generate_docker_compose service api_key reference_source env_vars_in_file w =
     (let ((env_vars_content, sample_compose_content), w1) = load_documentation w;
          messages = [(System, system_prompt env_vars_content sample_compose_content)];
          messages = messages @ [(Assistant, initial_message)];
          w2 = py_print (''AI: '' @ initial_message) w1
      in chat_loop service api_key messages w2)"

text \<open>The transcript with which the loop starts in a given world (lines 78 to 110).\<close>

definition start_messages :: "world \<Rightarrow> message list" where
  "start_messages w =
     [(System, system_prompt (fst (fst (load_documentation w))) (snd (fst (load_documentation w)))),
      (Assistant, initial_message)]"

record args =
  reference :: reference_source
  env_in_file :: bool

text \<open>Lines 224 and 225: the two lines printed before the credential is looked up.\<close>

definition banner :: "world \<Rightarrow> world" where
  "banner w =
     py_print ''----------------------------------''
       (py_print ''OpenWebUI Docker Compose Generator'' w)"

definition main :: "llm \<Rightarrow> args \<Rightarrow> world \<Rightarrow> (exn + unit) \<times> world" where
  "main service args w =
     (let w2 = banner w
      in case get_openai_key w2 of
           (Inl e, w3) \<Rightarrow> (Inl e, w3)
         | (Inr api_key, w3) \<Rightarrow>
             if api_key = []
             then (Inl (SystemExit 1), py_print ''Error: OpenAI API key is required.'' w3)
             else generate_docker_compose service api_key (reference args) (env_in_file args) w3)"

text \<open>
  The \<^verbatim>\<open>__main__\<close> block, with the exit status of the process: 0 after a normal return
  and after the handled \<^verbatim>\<open>KeyboardInterrupt\<close>, the argument of \<^verbatim>\<open>sys.exit\<close>, and 1
  when any other exception reaches the top level.
\<close>

definition script :: "llm \<Rightarrow> args \<Rightarrow> world \<Rightarrow> nat \<times> world" where
  "script service args w =
     (case main service args w of
        (Inr u, w1) \<Rightarrow> (0, w1)
      | (Inl KeyboardInterrupt, w1) \<Rightarrow> (0, py_print (nl @ ''Generator interrupted. Exiting.'') w1)
      | (Inl (SystemExit n), w1) \<Rightarrow> (n, w1)
      | (Inl e, w1) \<Rightarrow> (1, w1))"

subsection \<open>Example inputs\<close>

text \<open>A world with no files, no environment variables and no input.\<close>

definition world0 :: world where
  "world0 = \<lparr>files = Map.empty, environ = Map.empty, stdin = [], trace = []\<rparr>"

definition reply_empty_compose_block :: string where
  "reply_empty_compose_block =
     ''```docker-compose'' @ nl @ ''```'' @ nl @ ''```yaml'' @ nl @ ''X'' @ nl @ ''```''"

definition reply_env_block_twice :: string where
  "reply_env_block_twice =
     ''```env'' @ nl @ ''```'' @ nl @
     ''```docker-compose'' @ nl @ ''FOO'' @ nl @ ''```'' @ nl @
     ''```env'' @ nl @ ''BAR'' @ nl @ ''```''"

definition reply_two_blocks :: string where
  "reply_two_blocks =
     ''```docker-compose'' @ nl @ ''FOO'' @ nl @ ''```'' @ nl @
     ''```env'' @ nl @ ''BAR'' @ nl @ ''```''"

definition world_repo_docs_only :: world where
  "world_repo_docs_only =
     world0\<lparr>files := [repo_env_vars_path \<mapsto> ''WEBUI_URL: the url'']\<rparr>"

definition world_both_locations :: world where
  "world_both_locations =
     world0\<lparr>files := [static_env_vars_path \<mapsto> ''static vars'',
                       static_sample_compose_path \<mapsto> ''static sample'',
                       repo_env_vars_path \<mapsto> ''repo vars'',
                       repo_sample_compose_path \<mapsto> ''repo sample'']\<rparr>"

text \<open>
  The quote handling in the words of the specification, for comparison with the code: a
  single layer of matching quote characters around the value is removed.
\<close>

definition spec_strip_one_quote_layer :: "string \<Rightarrow> string" where
  "spec_strip_one_quote_layer v =
     (if 2 \<le> length v \<and> is_quote (hd v) \<and> last v = hd v then butlast (tl v) else v)"

definition world_quoted_key :: world where
  "world_quoted_key =
     world0\<lparr>files := [env_file \<mapsto>
       ''# credentials'' @ nl @ nl @ ''MODEL=gpt-4'' @ nl @
       ''OPENAI_API_KEY='' @ [CHR 0x22] @ ''sk-1'' @ [CHR 0x22] @ nl]\<rparr>"

definition world_doubly_quoted_key :: world where
  "world_doubly_quoted_key =
     world0\<lparr>files := [env_file \<mapsto>
       ''OPENAI_API_KEY='' @ [CHR 0x22, CHR 0x27] @ ''sk-1'' @ [CHR 0x27, CHR 0x22] @ nl]\<rparr>"

definition world_indented_comment :: world where
  "world_indented_comment =
     world0\<lparr>files := [env_file \<mapsto> ''  # my key'' @ nl @ ''OPENAI_API_KEY=sk-1'' @ nl]\<rparr>"

definition world_key_then_bad_line :: world where
  "world_key_then_bad_line =
     world0\<lparr>files := [env_file \<mapsto> ''OPENAI_API_KEY=k1'' @ nl @ ''not a pair'' @ nl]\<rparr>"

definition world_nul_key :: world where
  "world_nul_key =
     world0\<lparr>files := [env_file \<mapsto> ''OPENAI_API_KEY=a'' @ [CHR 0x00] @ ''b'' @ nl]\<rparr>"

definition world_plain_dotenv :: world where
  "world_plain_dotenv =
     world0\<lparr>files := [env_file \<mapsto> ''# my key'' @ nl @ ''MODEL=gpt-4'' @ nl]\<rparr>"

text \<open>A service that is out of reach, and the default command line.\<close>

definition offline_service :: llm where
  "offline_service api_key messages max_tokens = Failure ''Connection error.''"

definition default_args :: args where
  "default_args = \<lparr>reference = Static, env_in_file = False\<rparr>"

text \<open>
  A service that keeps asking, and one that announces the generation at once and then
  delivers both blocks.
\<close>

definition chatty_service :: llm where
  "chatty_service api_key messages max_tokens = Reply ''Which database do you prefer?''"

definition obliging_service :: llm where
  "obliging_service api_key messages max_tokens =
     (if max_tokens = 1500 then Reply (''Thanks. '' @ sentinel @ ''.'')
      else Reply reply_two_blocks)"

text \<open>Replies with an \<^verbatim>\<open>```env\<close> marker that no fence closes, and with two such blocks.\<close>

definition reply_unclosed_env :: string where
  "reply_unclosed_env = ''```env'' @ nl @ ''KEY=1''"

definition reply_env_after_empty_env :: string where
  "reply_env_after_empty_env =
     ''```env'' @ nl @ ''```'' @ nl @ ''```env'' @ nl @ ''KEY=1'' @ nl @ ''```''"

text \<open>A user who says hello, and a service that announces the generation and then fails.\<close>

definition world_hello :: world where
  "world_hello = world0\<lparr>stdin := [Line ''hello'']\<rparr>"

definition quota_service :: llm where
  "quota_service api_key messages max_tokens =
     (if max_tokens = 1500 then Reply (''Thanks. '' @ sentinel @ ''.'')
      else Failure ''Rate limit reached.'')"

text \<open>The credential is in the environment and the input has ended.\<close>

definition world_key_no_input :: world where
  "world_key_no_input = world0\<lparr>environ := [OPENAI_API_KEY \<mapsto> ''sk-1'']\<rparr>"

text \<open>No credential anywhere; the user answers the prompt with blanks.\<close>

definition world_blank_answer :: world where
  "world_blank_answer = world0\<lparr>stdin := [Line ''  '']\<rparr>"

text \<open>The credential is in the environment; the user says hello and declines the listing.\<close>

definition world_key_hello_no :: world where
  "world_key_hello_no =
     world0\<lparr>environ := [OPENAI_API_KEY \<mapsto> ''sk-1''], stdin := [Line ''hello'', Line ''no'']\<rparr>"

text \<open>No credential anywhere; the user types one with a NUL character in it.\<close>

definition world_nul_answer :: world where
  "world_nul_answer = world0\<lparr>stdin := [Line (''sk'' @ [CHR 0x00] @ ''1'')]\<rparr>"

text \<open>The credential is in the environment and the user says hello.\<close>

definition world_key_hello :: world where
  "world_key_hello = world0\<lparr>environ := [OPENAI_API_KEY \<mapsto> ''sk-1''], stdin := [Line ''hello'']\<rparr>"

section \<open>Properties\<close>

subsection \<open>Substring search and splitting\<close>

lemma startswith_iff: "startswith s p \<longleftrightarrow> (\<exists>r. s = p @ r)"
  by (induction s p rule: startswith.induct) auto

lemma contains_iff: "contains s p \<longleftrightarrow> (\<exists>a b. s = a @ p @ b)"
proof (induction s)
  case Nil
  then show ?case by simp
next
  case (Cons c cs)
  show ?case
  proof
    assume "contains (c # cs) p"
    then consider "startswith (c # cs) p" | "contains cs p" by auto
    then show "\<exists>a b. c # cs = a @ p @ b"
    proof cases
      case 1
      then obtain r where "c # cs = p @ r" by (auto simp: startswith_iff)
      then have "c # cs = [] @ p @ r" by simp
      then show ?thesis by blast
    next
      case 2
      then obtain a b where "cs = a @ p @ b" using Cons.IH by auto
      then have "c # cs = (c # a) @ p @ b" by simp
      then show ?thesis by blast
    qed
  next
    assume "\<exists>a b. c # cs = a @ p @ b"
    then obtain a b where ab: "c # cs = a @ p @ b" by auto
    show "contains (c # cs) p"
    proof (cases a)
      case Nil
      then have "startswith (c # cs) p" using ab unfolding startswith_iff by auto
      then show ?thesis by simp
    next
      case (Cons x xs)
      then have "cs = xs @ p @ b" using ab by simp
      then show ?thesis using Cons.IH by auto
    qed
  qed
qed

lemma py_split_nonempty: "py_split s sep \<noteq> []"
  by (induction s sep rule: py_split.induct) (auto split: list.splits)

lemma py_split_absent: "\<not> contains s sep \<Longrightarrow> py_split s sep = [s]"
  by (induction s sep rule: py_split.induct) (auto split: list.splits)

lemma startswith_butlast:
  assumes "startswith ((a # pre) @ sep @ post) sep"
  shows "startswith ((a # pre) @ butlast sep) sep"
proof -
  from assms obtain r where r: "(a # pre) @ sep @ post = sep @ r"
    by (auto simp: startswith_iff)
  have "sep = take (length sep) ((a # pre) @ sep @ post)" using r by simp
  also have "\<dots> = take (length sep) (((a # pre) @ butlast sep) @ (drop (length sep - 1) sep @ post))"
    by (cases sep rule: rev_cases) auto
  also have "\<dots> = take (length sep) ((a # pre) @ butlast sep)"
  proof -
    have "length sep \<le> length ((a # pre) @ butlast sep)" by simp
    then show ?thesis by (simp only: take_append) simp
  qed
  finally have "sep = take (length sep) ((a # pre) @ butlast sep)" .
  then have "(a # pre) @ butlast sep = sep @ drop (length sep) ((a # pre) @ butlast sep)"
    by (metis append_take_drop_id)
  then show ?thesis unfolding startswith_iff by blast
qed

lemma py_split_first:
  assumes "sep \<noteq> []" and "\<not> contains (pre @ butlast sep) sep"
  shows "py_split (pre @ sep @ post) sep = pre # py_split post sep"
  using assms
proof (induction pre)
  case Nil
  then obtain c cs where sep: "sep = c # cs" by (cases sep) auto
  have "startswith (sep @ post) sep" by (auto simp: startswith_iff)
  then show ?case using sep by simp
next
  case (Cons a pre)
  have ns: "\<not> startswith ((a # pre) @ sep @ post) sep"
    using Cons.prems(2) startswith_butlast by fastforce
  have nc: "\<not> contains (pre @ butlast sep) sep"
    using Cons.prems(2) by simp
  show ?case using ns Cons.IH[OF Cons.prems(1) nc] by simp
qed

text \<open>The first piece of a split is the text up to the first occurrence of the separator.\<close>

lemma py_split_head:
  "\<exists>r. s = py_split s sep ! 0 @ r \<and> (r = [] \<or> startswith r sep)"
proof (induction s sep rule: py_split.induct)
  case (1 sep)
  then show ?case by simp
next
  case (2 c cs sep)
  show ?case
  proof (cases "sep \<noteq> [] \<and> startswith (c # cs) sep")
    case True
    then show ?thesis by simp
  next
    case False
    then obtain r where r: "cs = py_split cs sep ! 0 @ r" "r = [] \<or> startswith r sep"
      using 2(2) by blast
    obtain p ps where pp: "py_split cs sep = p # ps"
      using py_split_nonempty by (cases "py_split cs sep") auto
    have "py_split (c # cs) sep ! 0 = c # p" using False pp by simp
    moreover have "c # cs = (c # p) @ r" using r pp by simp
    ultimately show ?thesis using r(2) by metis
  qed
qed

text \<open>The body of a block that is closed by a fence of exactly three backticks.\<close>

lemma fenced_body:
  assumes nf: "\<not> contains (body @ ''``'') fence"
    and nr: "\<not> startswith rest ''`''"
  shows "py_split (py_split (body @ fence @ rest) (fence @ tag) ! 0) fence ! 0 = body"
proof -
  define X where "X = py_split (body @ fence @ rest) (fence @ tag) ! 0"
  have f: "fence \<noteq> []" "butlast fence = ''``''" by (simp_all add: fence_def)
  have direct: "py_split (body @ fence @ t) fence ! 0 = body" for t
    using py_split_first[of fence body t] nf f by simp
  have nb: "\<not> contains body fence"
    using nf unfolding contains_iff by (metis append.assoc)
  obtain r where r: "body @ fence @ rest = X @ r" "r = [] \<or> startswith r (fence @ tag)"
    using py_split_head[of "body @ fence @ rest" "fence @ tag"] unfolding X_def by blast
  show ?thesis unfolding X_def[symmetric]
  proof (cases "r = []")
    case True
    then show "py_split X fence ! 0 = body" using r(1) direct[of rest] by simp
  next
    case False
    then obtain r' where r': "r = fence @ tag @ r'" using r(2) by (auto simp: startswith_iff)
    have eq: "body @ fence @ rest = X @ fence @ tag @ r'" using r(1) r' by simp
    have "\<exists>us. body = X @ us \<and> us @ fence @ rest = fence @ tag @ r' \<or>
               body @ us = X \<and> fence @ rest = us @ fence @ tag @ r'"
      using eq by (simp only: append_eq_append_conv2)
    then consider us where "body = X @ us" "us @ fence @ rest = fence @ tag @ r'"
      | us where "body @ us = X" "fence @ rest = us @ fence @ tag @ r'"
      by blast
    then show "py_split X fence ! 0 = body"
    proof cases
      case 1
      have "us = []"
      proof (rule ccontr)
        assume "us \<noteq> []"
        then obtain a us' where us: "us = a # us'" by (cases us) auto
        have "startswith ((a # us') @ fence @ rest) fence"
          using 1(2) us unfolding startswith_iff by auto
        then have "startswith ((a # us') @ ''``'') fence"
          using startswith_butlast[of a us' fence rest] f by simp
        then obtain t where "us @ ''``'' = fence @ t" using us by (auto simp: startswith_iff)
        then have "body @ ''``'' = X @ fence @ t" using 1(1) by simp
        then show False using nf unfolding contains_iff by blast
      qed
      then have "X = body" using 1(1) by simp
      then show ?thesis using nb by (simp add: py_split_absent)
    next
      case 2
      show ?thesis
      proof (cases "length us \<ge> 3")
        case True
        have "take 3 (fence @ rest) = take 3 (us @ fence @ tag @ r')" using 2(2) by simp
        then have "fence = take 3 us" using True by (simp add: fence_def)
        then have "us = fence @ drop 3 us" by (metis append_take_drop_id)
        then have "X = body @ fence @ drop 3 us" using 2(1) by (metis)
        then show ?thesis using direct by simp
      next
        case False
        then consider "us = []" | a where "us = [a]" | a b where "us = [a, b]"
          by (cases us; cases "tl us"; cases "tl (tl us)") auto
        then show ?thesis
        proof cases
          case 1
          then have "X = body" using 2(1) by simp
          then show ?thesis using nb by (simp add: py_split_absent)
        next
          case 2
          then have False using \<open>fence @ rest = us @ fence @ tag @ r'\<close> nr
            by (cases rest) (auto simp: fence_def)
          then show ?thesis ..
        next
          case 3
          then have False using \<open>fence @ rest = us @ fence @ tag @ r'\<close> nr
            by (cases rest) (auto simp: fence_def)
          then show ?thesis ..
        qed
      qed
    qed
  qed
qed

subsection \<open>Extraction and persistence\<close>

lemma block_after_first:
  assumes "m \<noteq> []" and "\<not> contains (pre @ butlast m) m"
  shows "block_after m (pre @ m @ post) old = strip (py_split (py_split post m ! 0) fence ! 0)"
proof -
  obtain p ps where pp: "py_split post m = p # ps"
    using py_split_nonempty by (cases "py_split post m") auto
  show ?thesis
    using py_split_first[OF assms, of post] pp
    by (simp add: block_after_def block_text_def)
qed

lemma contains_first: "contains (pre @ m @ post) m"
  unfolding contains_iff by blast

lemma block_after_fenced:
  assumes "\<not> contains (pre @ butlast (fence @ tag)) (fence @ tag)"
    and "\<not> contains (body @ ''``'') fence"
    and "\<not> startswith rest ''`''"
  shows "block_after (fence @ tag) (pre @ (fence @ tag) @ body @ fence @ rest) old = strip body"
proof -
  have "fence @ tag \<noteq> []" by (simp add: fence_def)
  then show ?thesis
    using block_after_first[OF _ assms(1), of "body @ fence @ rest" old]
      fenced_body[OF assms(2,3), of tag]
    by simp
qed

lemma marker_forms:
  "docker_compose_marker = fence @ ''docker-compose''"
  "env_marker = fence @ ''env''"
  "yaml_marker = fence @ ''yaml''"
  by (simp_all add: fence_def docker_compose_marker_def env_marker_def yaml_marker_def)

lemma trace_save_outputs:
  "trace (save_outputs dc env w) =
     trace w @ Write docker_compose_path dc #
       (if env \<noteq> []
        then [Write env_path env, Print (nl @ ''Environment variables saved to '' @ env_path)]
        else []) @
       [Print (nl @ ''Docker Compose file generated at '' @ docker_compose_path),
        Print (nl @ ''To start your OpenWebUI stack, run:''),
        Print (''cd '' @ GENERATED_DIR @ '' && docker-compose up -d'')]"
  by (simp add: save_outputs_def write_file_def py_print_def emit_def Let_def)

lemma files_save_outputs:
  "files (save_outputs dc env w) =
     (if env \<noteq> [] then (files w)(docker_compose_path \<mapsto> dc, env_path \<mapsto> env)
      else (files w)(docker_compose_path \<mapsto> dc))"
  by (simp add: save_outputs_def write_file_def py_print_def emit_def Let_def)

lemma stdin_save_outputs: "stdin (save_outputs dc env w) = stdin w"
  by (simp add: save_outputs_def write_file_def py_print_def emit_def Let_def)

lemma written_append: "written (xs @ ys) = written xs @ written ys"
  by (induction xs rule: written.induct) auto

lemma written_show_outputs:
  "\<exists>es. trace (show_outputs dc env w) = trace w @ es \<and> written es = []"
  by (simp add: show_outputs_def py_print_def emit_def Let_def)

lemma files_show_outputs: "files (show_outputs dc env w) = files w"
  by (simp add: show_outputs_def py_print_def emit_def Let_def)

lemma handle_reply_effects:
  assumes "extract_blocks g = (dc, env)"
  shows "written (new_events w (snd (handle_reply g w))) =
           (docker_compose_path, dc) # (if env \<noteq> [] then [(env_path, env)] else [])"
    and "files (snd (handle_reply g w)) = files (save_outputs dc env w)"
proof -
  let ?w1 = "save_outputs dc env w"
  obtain es where es: "trace ?w1 = trace w @ es"
    "written es = (docker_compose_path, dc) # (if env \<noteq> [] then [(env_path, env)] else [])"
    using trace_save_outputs[of dc env w] by simp
  have "\<exists>es'. trace (snd (handle_reply g w)) = trace ?w1 @ es' \<and> written es' = []
        \<and> files (snd (handle_reply g w)) = files ?w1"
  proof (cases "stdin ?w1")
    case Nil
    then show ?thesis
      by (simp add: handle_reply_def assms py_input_def py_print_def emit_def Let_def)
  next
    case (Cons ev rest)
    show ?thesis
    proof (cases ev)
      case (Line s)
      obtain es2 where "trace (show_outputs dc env ((emit (Prompt (nl @ ''Would you like to see the generated files? (yes/no): '')) ?w1)\<lparr>stdin := rest\<rparr>))
          = trace ((emit (Prompt (nl @ ''Would you like to see the generated files? (yes/no): '')) ?w1)\<lparr>stdin := rest\<rparr>) @ es2" "written es2 = []"
        using written_show_outputs by blast
      then show ?thesis using Cons Line
        by (simp add: handle_reply_def assms py_input_def emit_def files_show_outputs Let_def)
    next
      case Interrupt
      then show ?thesis using Cons
        by (simp add: handle_reply_def assms py_input_def py_print_def emit_def Let_def)
    qed
  qed
  then obtain es' where es': "trace (snd (handle_reply g w)) = trace ?w1 @ es'" "written es' = []"
    "files (snd (handle_reply g w)) = files ?w1" by blast
  show "written (new_events w (snd (handle_reply g w))) =
           (docker_compose_path, dc) # (if env \<noteq> [] then [(env_path, env)] else [])"
    using es es' by (simp add: new_events_def written_append)
  show "files (snd (handle_reply g w)) = files (save_outputs dc env w)"
    using es' by simp
qed

lemma paths_differ: "docker_compose_path \<noteq> env_path"
  by (simp add: docker_compose_path_def env_path_def GENERATED_DIR_def)

text \<open>
  Claim C2. When the final reply contains none of the three fence markers, both extracted
  texts are empty; the only file written is \<^verbatim>\<open>generated/docker-compose.yaml\<close>, which
  then exists and is empty, and the environment-variable file is left as it was.
\<close>

theorem no_fence_empty_configuration:
  assumes "\<not> contains g docker_compose_marker"
    and "\<not> contains g yaml_marker"
    and "\<not> contains g env_marker"
  shows "extract_blocks g = ([], []) \<and>
         written (new_events w (snd (handle_reply g w))) = [(docker_compose_path, [])] \<and>
         files (snd (handle_reply g w)) docker_compose_path = Some [] \<and>
         files (snd (handle_reply g w)) env_path = files w env_path"
proof -
  have e: "extract_blocks g = ([], [])"
    using assms by (simp add: extract_blocks_def)
  show ?thesis
    using e handle_reply_effects[OF e, of w] paths_differ
    by (simp add: files_save_outputs)
qed

theorem no_fence_empty_configuration_witness:
  "\<not> contains ''Sorry, no files today.'' docker_compose_marker \<and>
   \<not> contains ''Sorry, no files today.'' yaml_marker \<and>
   \<not> contains ''Sorry, no files today.'' env_marker \<and>
   extract_blocks ''Sorry, no files today.'' = ([], []) \<and>
   written (new_events world0 (snd (handle_reply ''Sorry, no files today.'' world0)))
     = [(docker_compose_path, [])] \<and>
   files (snd (handle_reply ''Sorry, no files today.'' world0)) docker_compose_path = Some [] \<and>
   files (snd (handle_reply ''Sorry, no files today.'' world0)) env_path = None"
proof -
  have a: "\<not> contains ''Sorry, no files today.'' docker_compose_marker"
    by (simp add: docker_compose_marker_def)
  have b: "\<not> contains ''Sorry, no files today.'' yaml_marker"
    by (simp add: yaml_marker_def)
  have c: "\<not> contains ''Sorry, no files today.'' env_marker"
    by (simp add: env_marker_def)
  have d: "files world0 env_path = None" by (simp add: world0_def)
  show ?thesis
    using no_fence_empty_configuration[OF a b c, of world0] a b c d by simp
qed

lemma first_block_text:
  assumes "g = pre @ (fence @ tag) @ post"
    and "\<not> contains (pre @ butlast (fence @ tag)) (fence @ tag)"
  shows "contains g (fence @ tag)"
    and "block_after (fence @ tag) g old = strip (py_split (py_split post (fence @ tag) ! 0) fence ! 0)"
proof -
  have ne: "fence @ tag \<noteq> []" by (simp add: fence_def)
  show "contains g (fence @ tag)"
    using contains_first[of pre "fence @ tag" post] assms(1) by simp
  show "block_after (fence @ tag) g old = strip (py_split (py_split post (fence @ tag) ! 0) fence ! 0)"
    using block_after_first[OF ne assms(2), of post old] assms(1) by simp
qed

lemma opens_block_text:
  assumes "opens_block (fence @ tag) g pre body rest"
  shows "contains g (fence @ tag)" and "block_after (fence @ tag) g old = strip body"
proof -
  have g: "g = pre @ (fence @ tag) @ body @ fence @ rest"
    using assms by (simp add: opens_block_def)
  show "contains g (fence @ tag)"
    using contains_first[of pre "fence @ tag" "body @ fence @ rest"] g by simp
  show "block_after (fence @ tag) g old = strip body"
    using block_after_fenced[of pre tag body rest old] assms g by (simp add: opens_block_def)
qed

lemma compose_text_cases:
  "fst (extract_blocks g) =
     (if contains g docker_compose_marker \<and> block_after docker_compose_marker g [] \<noteq> []
      then block_after docker_compose_marker g []
      else if contains g yaml_marker then block_after yaml_marker g [] else [])"
  by (simp add: extract_blocks_def Let_def)

text \<open>
  Claim C3, as the code has it. When the first \<^verbatim>\<open>```docker-compose\<close> marker opens a
  block whose body is not blank, the configuration text is that body, trimmed, whatever
  \<^verbatim>\<open>```yaml\<close> markers the reply holds. The \<^verbatim>\<open>```yaml\<close> marker is the source when
  the \<^verbatim>\<open>```docker-compose\<close> marker is absent, and also when the body of the first
  \<^verbatim>\<open>```docker-compose\<close> block is blank: then the configuration text is the trimmed
  body of the first \<^verbatim>\<open>```yaml\<close> block, and it is empty when the reply has no
  \<^verbatim>\<open>```yaml\<close> marker. Every block is taken as closed by the first fence after its
  marker, a fence of exactly three backticks.
\<close>

theorem compose_text_source:
  "(opens_block docker_compose_marker g pre body rest \<and> strip body \<noteq> [] \<longrightarrow>
      fst (extract_blocks g) = strip body) \<and>
   (\<not> contains g docker_compose_marker \<or>
    (opens_block docker_compose_marker g pre body rest \<and> strip body = []) \<longrightarrow>
      (opens_block yaml_marker g pre' body' rest' \<longrightarrow> fst (extract_blocks g) = strip body') \<and>
      (\<not> contains g yaml_marker \<longrightarrow> fst (extract_blocks g) = []))"
proof (intro conjI impI)
  assume a: "opens_block docker_compose_marker g pre body rest \<and> strip body \<noteq> []"
  then have "contains g docker_compose_marker"
    and "block_after docker_compose_marker g [] = strip body"
    using opens_block_text(1)[of "''docker-compose''" g pre body rest]
      opens_block_text(2)[of "''docker-compose''" g pre body rest "[]"]
    by (simp_all add: marker_forms)
  then show "fst (extract_blocks g) = strip body" using a by (simp add: compose_text_cases)
next
  assume a: "\<not> contains g docker_compose_marker \<or>
    (opens_block docker_compose_marker g pre body rest \<and> strip body = [])"
  have n: "\<not> (contains g docker_compose_marker \<and> block_after docker_compose_marker g [] \<noteq> [])"
    using a opens_block_text(2)[of "''docker-compose''" g pre body rest "[]"]
    by (auto simp: marker_forms)
  show "fst (extract_blocks g) = strip body'" if "opens_block yaml_marker g pre' body' rest'"
  proof -
    have "contains g yaml_marker" and "block_after yaml_marker g [] = strip body'"
      using that opens_block_text(1)[of "''yaml''" g pre' body' rest']
        opens_block_text(2)[of "''yaml''" g pre' body' rest' "[]"]
      by (simp_all add: marker_forms)
    then show ?thesis using n by (auto simp: compose_text_cases)
  qed
  show "fst (extract_blocks g) = []" if "\<not> contains g yaml_marker"
    using that n by (auto simp: compose_text_cases)
qed

theorem compose_text_source_witness:
  "opens_block docker_compose_marker reply_empty_compose_block
     [] nl (nl @ ''```yaml'' @ nl @ ''X'' @ nl @ ''```'') \<and>
   strip nl = [] \<and>
   opens_block yaml_marker reply_empty_compose_block
     (''```docker-compose'' @ nl @ ''```'' @ nl) (nl @ ''X'' @ nl) [] \<and>
   fst (extract_blocks reply_empty_compose_block) = ''X'' \<and>
   opens_block docker_compose_marker reply_two_blocks
     [] (nl @ ''FOO'' @ nl) (nl @ ''```env'' @ nl @ ''BAR'' @ nl @ ''```'') \<and>
   fst (extract_blocks reply_two_blocks) = ''FOO'' \<and>
   \<not> contains ''plain text'' docker_compose_marker \<and>
   fst (extract_blocks ''plain text'') = []"
proof -
  have a: "opens_block docker_compose_marker reply_empty_compose_block
     [] nl (nl @ ''```yaml'' @ nl @ ''X'' @ nl @ ''```'')"
    by (simp add: opens_block_def reply_empty_compose_block_def docker_compose_marker_def
        fence_def nl_def)
  have s: "strip nl = []" by (simp add: strip_def strip_chars_def is_space_def nl_def)
  have b: "opens_block yaml_marker reply_empty_compose_block
     (''```docker-compose'' @ nl @ ''```'' @ nl) (nl @ ''X'' @ nl) []"
    by (simp add: opens_block_def reply_empty_compose_block_def yaml_marker_def fence_def nl_def)
  have sx: "strip (nl @ ''X'' @ nl) = ''X''"
    by (simp add: strip_def strip_chars_def is_space_def nl_def)
  have t: "opens_block docker_compose_marker reply_two_blocks
     [] (nl @ ''FOO'' @ nl) (nl @ ''```env'' @ nl @ ''BAR'' @ nl @ ''```'')"
    by (simp add: opens_block_def reply_two_blocks_def docker_compose_marker_def fence_def nl_def)
  have sf: "strip (nl @ ''FOO'' @ nl) = ''FOO''"
    by (simp add: strip_def strip_chars_def is_space_def nl_def)
  have c: "\<not> contains ''plain text'' docker_compose_marker"
    by (simp add: docker_compose_marker_def)
  have d: "\<not> contains ''plain text'' yaml_marker"
    by (simp add: yaml_marker_def)
  have e: "fst (extract_blocks reply_empty_compose_block) = ''X''"
    using compose_text_source[where g = reply_empty_compose_block and pre = "[]" and body = nl
        and rest = "nl @ ''```yaml'' @ nl @ ''X'' @ nl @ ''```''"
        and pre' = "''```docker-compose'' @ nl @ ''```'' @ nl" and body' = "nl @ ''X'' @ nl"
        and rest' = "[]", unfolded sx] a s b
    by blast
  have f: "fst (extract_blocks reply_two_blocks) = ''FOO''"
    using compose_text_source[where g = reply_two_blocks and pre = "[]"
        and body = "nl @ ''FOO'' @ nl"
        and rest = "nl @ ''```env'' @ nl @ ''BAR'' @ nl @ ''```''", unfolded sf] t
    by simp
  have p: "fst (extract_blocks ''plain text'') = []"
    using compose_text_source[where g = "''plain text''"] c d by blast
  show ?thesis using a s b e t f c p by blast
qed

text \<open>
  A reply with an empty \<^verbatim>\<open>```docker-compose\<close> block and a \<^verbatim>\<open>```yaml\<close> block: the
  marker is present, yet the configuration text comes from the \<^verbatim>\<open>```yaml\<close> block.
\<close>

theorem yaml_used_despite_compose_marker:
  "contains reply_empty_compose_block docker_compose_marker \<and>
   block_after docker_compose_marker reply_empty_compose_block [] = [] \<and>
   fst (extract_blocks reply_empty_compose_block) = ''X'' \<and>
   fst (extract_blocks reply_empty_compose_block)
     = block_after yaml_marker reply_empty_compose_block []"
  by (simp add: reply_empty_compose_block_def extract_blocks_def block_after_def block_text_def
      docker_compose_marker_def env_marker_def yaml_marker_def fence_def nl_def
      strip_def strip_chars_def is_space_def)

text \<open>
  Claim C1, as the code has it. The reply opens its first \<^verbatim>\<open>```docker-compose\<close> block
  with body \<open>FOO\<close> and its first \<^verbatim>\<open>```env\<close> block with body \<open>BAR\<close>; each body is
  closed by the first fence after the marker, a fence of exactly three backticks. Then the
  extraction yields the trimmed \<open>BAR\<close> as environment text and the trimmed \<open>FOO\<close> as
  configuration text (if it is not empty, or no \<^verbatim>\<open>```yaml\<close> marker is around). The
  configuration text is written to \<^verbatim>\<open>generated/docker-compose.yaml\<close>; the environment
  text is written to \<^verbatim>\<open>generated/.env.generated\<close> only when it is not empty.
\<close>

theorem fenced_blocks_extracted:
  assumes "g = pre @ docker_compose_marker @ FOO @ fence @ rest"
    and "\<not> contains (pre @ butlast docker_compose_marker) docker_compose_marker"
    and "\<not> contains (FOO @ ''``'') fence"
    and "\<not> startswith rest ''`''"
    and "g = pre' @ env_marker @ BAR @ fence @ rest'"
    and "\<not> contains (pre' @ butlast env_marker) env_marker"
    and "\<not> contains (BAR @ ''``'') fence"
    and "\<not> startswith rest' ''`''"
    and "strip FOO \<noteq> [] \<or> \<not> contains g yaml_marker"
  shows "extract_blocks g = (strip FOO, strip BAR) \<and>
         written (new_events w (snd (handle_reply g w))) =
           (docker_compose_path, strip FOO) #
           (if strip BAR \<noteq> [] then [(env_path, strip BAR)] else []) \<and>
         files (snd (handle_reply g w)) docker_compose_path = Some (strip FOO) \<and>
         files (snd (handle_reply g w)) env_path =
           (if strip BAR \<noteq> [] then Some (strip BAR) else files w env_path)"
proof -
  have dc: "block_after docker_compose_marker g [] = strip FOO"
    using block_after_fenced[of pre "''docker-compose''" FOO rest "[]"] assms(1-4)
    by (simp add: marker_forms)
  have cdc: "contains g docker_compose_marker"
    using contains_first[of pre docker_compose_marker "FOO @ fence @ rest"] assms(1) by simp
  have env: "block_after env_marker g [] = strip BAR"
    using block_after_fenced[of pre' "''env''" BAR rest' "[]"] assms(5-8)
    by (simp add: marker_forms)
  have cenv: "contains g env_marker"
    using contains_first[of pre' env_marker "BAR @ fence @ rest'"] assms(5) by simp
  have e: "extract_blocks g = (strip FOO, strip BAR)"
    using dc cdc env cenv assms(9) by (auto simp: extract_blocks_def)
  show ?thesis
    using e handle_reply_effects[OF e, of w] paths_differ
    by (simp add: files_save_outputs)
qed

theorem fenced_blocks_extracted_witness:
  "extract_blocks reply_two_blocks = (''FOO'', ''BAR'') \<and>
   written (new_events world0 (snd (handle_reply reply_two_blocks world0))) =
     [(docker_compose_path, ''FOO''), (env_path, ''BAR'')] \<and>
   files (snd (handle_reply reply_two_blocks world0)) docker_compose_path = Some ''FOO'' \<and>
   files (snd (handle_reply reply_two_blocks world0)) env_path = Some ''BAR''"
proof -
  have a1: "reply_two_blocks = [] @ docker_compose_marker @ (nl @ ''FOO'' @ nl) @ fence @
              (nl @ ''```env'' @ nl @ ''BAR'' @ nl @ ''```'')"
    by (simp add: reply_two_blocks_def docker_compose_marker_def fence_def)
  have a2: "\<not> contains ([] @ butlast docker_compose_marker) docker_compose_marker"
    by (simp add: docker_compose_marker_def)
  have a3: "\<not> contains ((nl @ ''FOO'' @ nl) @ ''``'') fence"
    by (simp add: fence_def nl_def)
  have a4: "\<not> startswith (nl @ ''```env'' @ nl @ ''BAR'' @ nl @ ''```'') ''`''"
    by (simp add: nl_def)
  have a5: "reply_two_blocks = (''```docker-compose'' @ nl @ ''FOO'' @ nl @ ''```'' @ nl) @
              env_marker @ (nl @ ''BAR'' @ nl) @ fence @ []"
    by (simp add: reply_two_blocks_def env_marker_def fence_def)
  have a6: "\<not> contains ((''```docker-compose'' @ nl @ ''FOO'' @ nl @ ''```'' @ nl) @
              butlast env_marker) env_marker"
    by (simp add: env_marker_def nl_def)
  have a7: "\<not> contains ((nl @ ''BAR'' @ nl) @ ''``'') fence"
    by (simp add: fence_def nl_def)
  have a8: "\<not> startswith [] ''`''"
    by simp
  have a9: "strip (nl @ ''FOO'' @ nl) \<noteq> [] \<or> \<not> contains reply_two_blocks yaml_marker"
    by (simp add: strip_def strip_chars_def is_space_def nl_def)
  have s1: "strip (nl @ ''FOO'' @ nl) = ''FOO''"
    by (simp add: strip_def strip_chars_def is_space_def nl_def)
  have s2: "strip (nl @ ''BAR'' @ nl) = ''BAR''"
    by (simp add: strip_def strip_chars_def is_space_def nl_def)
  show ?thesis
    using fenced_blocks_extracted[OF a1 a2 a3 a4 a5 a6 a7 a8 a9, of world0, unfolded s1 s2]
    by simp
qed

text \<open>
  A reply that holds a \<^verbatim>\<open>```docker-compose\<close> block with body \<open>FOO\<close> and a
  \<^verbatim>\<open>```env\<close> block with body \<open>BAR\<close>, after an earlier \<^verbatim>\<open>```env\<close> block that is
  empty: the environment text is taken from the earlier block, it is empty, and no
  environment-variable file is written.
\<close>

theorem empty_env_block_not_written:
  "reply_env_block_twice =
     (''```env'' @ nl @ ''```'' @ nl) @
     docker_compose_marker @ (nl @ ''FOO'' @ nl) @ fence @ (nl @ ''```env'' @ nl @ ''BAR'' @ nl @ ''```'') \<and>
   reply_env_block_twice =
     (''```env'' @ nl @ ''```'' @ nl @ ''```docker-compose'' @ nl @ ''FOO'' @ nl @ ''```'' @ nl) @
     env_marker @ (nl @ ''BAR'' @ nl) @ fence @ [] \<and>
   strip (nl @ ''BAR'' @ nl) = ''BAR'' \<and>
   extract_blocks reply_env_block_twice = (''FOO'', []) \<and>
   written (new_events world0 (snd (handle_reply reply_env_block_twice world0))) =
     [(docker_compose_path, ''FOO'')] \<and>
   files (snd (handle_reply reply_env_block_twice world0)) env_path = None"
proof -
  have e: "extract_blocks reply_env_block_twice = (''FOO'', [])"
    by (simp add: reply_env_block_twice_def extract_blocks_def block_after_def block_text_def
      docker_compose_marker_def env_marker_def yaml_marker_def fence_def nl_def
      strip_def strip_chars_def is_space_def)
  have d: "reply_env_block_twice =
     (''```env'' @ nl @ ''```'' @ nl) @
     docker_compose_marker @ (nl @ ''FOO'' @ nl) @ fence @ (nl @ ''```env'' @ nl @ ''BAR'' @ nl @ ''```'')"
    "reply_env_block_twice =
     (''```env'' @ nl @ ''```'' @ nl @ ''```docker-compose'' @ nl @ ''FOO'' @ nl @ ''```'' @ nl) @
     env_marker @ (nl @ ''BAR'' @ nl) @ fence @ []"
    by (simp_all add: reply_env_block_twice_def docker_compose_marker_def env_marker_def fence_def)
  have s: "strip (nl @ ''BAR'' @ nl) = ''BAR''"
    by (simp add: strip_def strip_chars_def is_space_def nl_def)
  have f: "files world0 env_path = None" by (simp add: world0_def)
  show ?thesis
    using e d s f handle_reply_effects[OF e, of world0] paths_differ
    by (simp add: files_save_outputs)
qed

subsection \<open>The prompt and the reference loader\<close>

text \<open>
  Claim C4. The system prompt is the fixed text around the first 4000 characters of the
  variable documentation and the first 2000 characters of the sample configuration, each
  followed at once by the truncation marker. For a text longer than its budget exactly that
  many characters are embedded, and whatever follows them in the text has no influence on
  the prompt.
\<close>

theorem prompt_truncation:
  "(4000 < length env_vars_content \<longrightarrow>
      system_prompt env_vars_content sample_compose_content =
        prompt_head @ take 4000 env_vars_content @ truncation_marker @
        prompt_middle @ take 2000 sample_compose_content @ truncation_marker @ nl \<and>
      length (take 4000 env_vars_content) = 4000 \<and>
      system_prompt (take 4000 env_vars_content @ further) sample_compose_content =
        system_prompt env_vars_content sample_compose_content) \<and>
   (2000 < length sample_compose_content \<longrightarrow>
      system_prompt env_vars_content sample_compose_content =
        (prompt_head @ take 4000 env_vars_content @ truncation_marker @ prompt_middle) @
        take 2000 sample_compose_content @ truncation_marker @ nl \<and>
      length (take 2000 sample_compose_content) = 2000 \<and>
      system_prompt env_vars_content (take 2000 sample_compose_content @ further) =
        system_prompt env_vars_content sample_compose_content)"
  by (simp add: system_prompt_def)

theorem prompt_truncation_witness:
  "4000 < length (replicate 4001 (CHR ''a'')) \<and>
   2000 < length (replicate 2001 (CHR ''b'')) \<and>
   system_prompt (replicate 4001 (CHR ''a'')) (replicate 2001 (CHR ''b'')) =
     prompt_head @ replicate 4000 (CHR ''a'') @ truncation_marker @
     prompt_middle @ replicate 2000 (CHR ''b'') @ truncation_marker @ nl \<and>
   system_prompt (replicate 4000 (CHR ''a'') @ ''zzz'') (replicate 2001 (CHR ''b'')) =
     system_prompt (replicate 4001 (CHR ''a'')) (replicate 2001 (CHR ''b''))"
proof -
  have a: "4000 < length (replicate 4001 (CHR ''a''))" by simp
  have b: "2000 < length (replicate 2001 (CHR ''b''))" by simp
  show ?thesis
    using prompt_truncation[of "replicate 4001 (CHR ''a'')" "replicate 2001 (CHR ''b'')" "''zzz''"]
      a b
    by simp
qed

lemma files_emit: "files (emit e w) = files w"
  by (simp add: emit_def)

lemma trace_emit: "trace (emit e w) = trace w @ [e]"
  by (simp add: emit_def)

lemma new_events_append: "trace w' = trace w @ es \<Longrightarrow> new_events w w' = es"
  by (simp add: new_events_def)

lemma load_repo_docs_result:
  "fst (load_repo_docs w) =
     (case files w repo_env_vars_path of None \<Rightarrow> [] | Some t \<Rightarrow> t,
      case files w repo_sample_compose_path of None \<Rightarrow> [] | Some t \<Rightarrow> t)"
  by (simp add: load_repo_docs_def read_if_exists_def files_emit split: option.splits)

lemma static_repo_paths_differ:
  "repo_env_vars_path \<noteq> static_env_vars_path"
  "repo_env_vars_path \<noteq> static_sample_compose_path"
  "repo_sample_compose_path \<noteq> static_env_vars_path"
  "repo_sample_compose_path \<noteq> static_sample_compose_path"
  by (simp_all add: repo_env_vars_path_def repo_sample_compose_path_def
      static_env_vars_path_def static_sample_compose_path_def STATIC_REF_DIR_def REPO_DOCS_DIR_def)

text \<open>
  Claim C6. When the primary location lacks one of its two files, the loader returns the
  contents of the fallback files as they are, and the empty string for a fallback file
  that does not exist. When the primary location has both files, their contents are
  returned and the paths looked at or opened are the two primary ones only.
\<close>

theorem reference_loader_fallback:
  "(files w static_env_vars_path = None \<or> files w static_sample_compose_path = None \<longrightarrow>
      fst (load_documentation w) =
        (case files w repo_env_vars_path of None \<Rightarrow> [] | Some t \<Rightarrow> t,
         case files w repo_sample_compose_path of None \<Rightarrow> [] | Some t \<Rightarrow> t)) \<and>
   (files w static_env_vars_path = Some a \<and> files w static_sample_compose_path = Some b \<longrightarrow>
      fst (load_documentation w) = (a, b) \<and>
      touched (new_events w (snd (load_documentation w))) =
        [static_env_vars_path, static_sample_compose_path,
         static_env_vars_path, static_sample_compose_path] \<and>
      repo_env_vars_path \<notin> set (touched (new_events w (snd (load_documentation w)))) \<and>
      repo_sample_compose_path \<notin> set (touched (new_events w (snd (load_documentation w)))))"
proof (intro conjI impI)
  assume "files w static_env_vars_path = None \<or> files w static_sample_compose_path = None"
  then show "fst (load_documentation w) =
        (case files w repo_env_vars_path of None \<Rightarrow> [] | Some t \<Rightarrow> t,
         case files w repo_sample_compose_path of None \<Rightarrow> [] | Some t \<Rightarrow> t)"
    by (auto simp: load_documentation_def load_repo_docs_result files_emit split: option.splits)
next
  assume both: "files w static_env_vars_path = Some a \<and> files w static_sample_compose_path = Some b"
  then show "fst (load_documentation w) = (a, b)"
    by (simp add: load_documentation_def)
  have t: "trace (snd (load_documentation w)) =
      trace w @ [Stat static_env_vars_path, Stat static_sample_compose_path,
                 Read static_env_vars_path, Read static_sample_compose_path]"
    using both by (simp add: load_documentation_def trace_emit)
  show tt: "touched (new_events w (snd (load_documentation w))) =
        [static_env_vars_path, static_sample_compose_path,
         static_env_vars_path, static_sample_compose_path]"
    by (simp add: new_events_append[OF t])
  show "repo_env_vars_path \<notin> set (touched (new_events w (snd (load_documentation w))))"
    using static_repo_paths_differ by (simp add: tt)
  show "repo_sample_compose_path \<notin> set (touched (new_events w (snd (load_documentation w))))"
    using static_repo_paths_differ by (simp add: tt)
qed

theorem reference_loader_fallback_witness:
  "fst (load_documentation world_repo_docs_only) = (''WEBUI_URL: the url'', []) \<and>
   fst (load_documentation world_both_locations) = (''static vars'', ''static sample'') \<and>
   repo_env_vars_path \<notin>
     set (touched (new_events world_both_locations (snd (load_documentation world_both_locations)))) \<and>
   repo_sample_compose_path \<notin>
     set (touched (new_events world_both_locations (snd (load_documentation world_both_locations))))"
proof -
  have a: "files world_repo_docs_only static_env_vars_path = None \<or>
           files world_repo_docs_only static_sample_compose_path = None"
    using static_repo_paths_differ by (simp add: world_repo_docs_only_def world0_def)
  have b: "files world_repo_docs_only repo_env_vars_path = Some ''WEBUI_URL: the url''"
    "files world_repo_docs_only repo_sample_compose_path = None"
    by (simp_all add: world_repo_docs_only_def world0_def
        repo_env_vars_path_def repo_sample_compose_path_def)
  have c: "files world_both_locations static_env_vars_path = Some ''static vars'' \<and>
           files world_both_locations static_sample_compose_path = Some ''static sample''"
    by (simp add: world_both_locations_def world0_def repo_env_vars_path_def
        repo_sample_compose_path_def static_env_vars_path_def static_sample_compose_path_def
        STATIC_REF_DIR_def REPO_DOCS_DIR_def)
  have r1: "fst (load_documentation world_repo_docs_only) = (''WEBUI_URL: the url'', [])"
    using reference_loader_fallback[of world_repo_docs_only] a b by simp
  show ?thesis
    using r1 reference_loader_fallback[of world_both_locations "''static vars''" "''static sample''"] c
    by blast
qed

subsection \<open>The dotenv loader\<close>

lemma in_dropWhile: "x \<in> set xs \<Longrightarrow> \<not> P x \<Longrightarrow> x \<in> set (dropWhile P xs)"
  by (induction xs) auto

lemma in_strip_chars: "x \<in> set s \<Longrightarrow> \<not> P x \<Longrightarrow> x \<in> set (strip_chars P s)"
  by (simp add: strip_chars_def in_dropWhile)

lemma set_strip_chars: "set (strip_chars P s) \<subseteq> set s"
proof -
  have "set (dropWhile P (rev (dropWhile P s))) \<subseteq> set (rev (dropWhile P s))"
    by (rule set_dropWhileD[THEN subsetI]) 
  also have "\<dots> \<subseteq> set s" using set_dropWhileD by fastforce
  finally show ?thesis by (simp add: strip_chars_def)
qed

lemma equals_in_strip: "CHR ''='' \<in> set (strip l) \<longleftrightarrow> CHR ''='' \<in> set l"
proof
  show "CHR ''='' \<in> set (strip l) \<Longrightarrow> CHR ''='' \<in> set l"
    using set_strip_chars[of is_space l] by (auto simp: strip_def)
  show "CHR ''='' \<in> set l \<Longrightarrow> CHR ''='' \<in> set (strip l)"
    unfolding strip_def by (rule in_strip_chars) (simp_all add: is_space_def)
qed

lemma strip_chars_keeps_head:
  assumes "\<not> P c"
  shows "strip_chars P (c # s) = c # rev (dropWhile P (rev s))"
proof -
  have "dropWhile P (rev s @ [c]) = dropWhile P (rev s) @ [c]"
    using assms by (induction "rev s" arbitrary: s) (auto simp: dropWhile_append3)
  then show ?thesis using assms by (simp add: strip_chars_def)
qed

lemma comment_survives_strip: "startswith l ''#'' \<Longrightarrow> startswith (strip l) ''#''"
proof -
  assume "startswith l ''#''"
  then obtain r where "l = CHR ''#'' # r" by (auto simp: startswith_iff)
  then show ?thesis
    by (simp add: strip_def strip_chars_keeps_head is_space_def)
qed

lemma environ_set_key:
  "environ_set OPENAI_API_KEY v w =
     (if CHR 0x00 \<in> set v then (Inl ValueError, w)
      else (Inr (), w\<lparr>environ := (environ w)(OPENAI_API_KEY \<mapsto> v)\<rparr>))"
  by (simp add: environ_set_def OPENAI_API_KEY_def)

lemma scan_env_skip:
  "\<forall>x\<in>set before. \<not> considered x \<Longrightarrow> scan_env (before @ rest) w = scan_env rest w"
  by (induction before) auto

lemma scan_env_no_equals:
  assumes "considered l" and "CHR ''='' \<notin> set l"
  shows "scan_env (l # rest) w = (Inl ValueError, w)"
proof -
  have "CHR ''='' \<notin> set (strip l)" using assms(2) by (simp add: equals_in_strip)
  then show ?thesis using assms(1) by (simp add: split_once_def)
qed

lemma scan_env_passed:
  assumes "\<forall>x\<in>set before. passed_over x"
  shows "scan_env (before @ rest) w = scan_env rest w"
  using assms
proof (induction before)
  case Nil
  then show ?case by simp
next
  case (Cons x before)
  then have ih: "scan_env (before @ rest) w = scan_env rest w" by simp
  show ?case
  proof (cases "considered x")
    case True
    then have "CHR ''='' \<in> set (strip x)"
      and "takeWhile (\<lambda>c. c \<noteq> CHR ''='') (strip x) \<noteq> OPENAI_API_KEY"
      using Cons.prems by (simp_all add: passed_over_def equals_in_strip)
    then show ?thesis using True ih by (simp add: split_once_def)
  next
    case False
    then show ?thesis using ih by simp
  qed
qed

lemma key_line_considered:
  assumes "strip l = OPENAI_API_KEY @ ''='' @ v"
  shows "considered l"
    and "split_once (strip l) (CHR ''='') = [OPENAI_API_KEY, v]"
    and "\<not> passed_over l"
proof -
  have ne: "strip l \<noteq> []" using assms by (simp add: OPENAI_API_KEY_def)
  have "\<not> startswith (strip l) ''#''" using assms by (simp add: OPENAI_API_KEY_def)
  then have "\<not> startswith l ''#''" using comment_survives_strip by blast
  then show c: "considered l" using ne by (simp add: considered_def)
  show "split_once (strip l) (CHR ''='') = [OPENAI_API_KEY, v]"
    using assms by (simp add: split_once_def OPENAI_API_KEY_def)
  have "takeWhile (\<lambda>c. c \<noteq> CHR ''='') (strip l) = OPENAI_API_KEY"
    using assms by (simp add: OPENAI_API_KEY_def)
  then show "\<not> passed_over l" using c by (simp add: passed_over_def)
qed

lemma scan_env_key_line:
  assumes "strip l = OPENAI_API_KEY @ ''='' @ v"
  shows "scan_env (l # rest) w =
           (if CHR 0x00 \<in> set (strip_chars is_quote v) then (Inl ValueError, w)
            else (Inr (Some (strip_chars is_quote v)),
                  w\<lparr>environ := (environ w)(OPENAI_API_KEY \<mapsto> strip_chars is_quote v)\<rparr>))"
  using key_line_considered(1,2)[OF assms] by (simp add: Let_def environ_set_key)

lemma not_passed_over_cases:
  assumes "\<not> passed_over l"
  shows "considered l \<and> (CHR ''='' \<notin> set l \<or> (\<exists>v. strip l = OPENAI_API_KEY @ ''='' @ v))"
proof (cases "CHR ''='' \<in> set l")
  case False
  then show ?thesis using assms by (simp add: passed_over_def)
next
  case True
  let ?P = "\<lambda>c. c \<noteq> CHR ''=''"
  have c: "considered l" and k: "takeWhile ?P (strip l) = OPENAI_API_KEY"
    using assms True by (simp_all add: passed_over_def)
  have "CHR ''='' \<in> set (strip l)" using True by (simp add: equals_in_strip)
  then have "dropWhile ?P (strip l) \<noteq> []" by (simp add: dropWhile_eq_Nil_conv)
  then obtain y ys where d: "dropWhile ?P (strip l) = y # ys"
    by (cases "dropWhile ?P (strip l)") auto
  then have "y = CHR ''=''" using hd_dropWhile[of ?P "strip l"] by fastforce
  then have "strip l = OPENAI_API_KEY @ ''='' @ ys"
    using takeWhile_dropWhile_id[of ?P "strip l"] k d by simp
  then show ?thesis using c by blast
qed

lemma first_not_passed_over:
  "(\<forall>x\<in>set ls. passed_over x) \<or>
   (\<exists>before l rest. ls = before @ l # rest \<and> (\<forall>x\<in>set before. passed_over x) \<and> \<not> passed_over l)"
proof (cases "dropWhile passed_over ls")
  case Nil
  then show ?thesis by (simp add: dropWhile_eq_Nil_conv)
next
  case (Cons l rest)
  have "ls = takeWhile passed_over ls @ l # rest"
    using takeWhile_dropWhile_id[of passed_over ls] Cons by simp
  moreover have "\<forall>x\<in>set (takeWhile passed_over ls). passed_over x"
    using set_takeWhileD by fastforce
  moreover have "\<not> passed_over l"
    using hd_dropWhile[of passed_over ls] Cons by fastforce
  ultimately show ?thesis by blast
qed

lemma scan_env_all_passed: "\<forall>x\<in>set ls. passed_over x \<Longrightarrow> scan_env ls w = (Inr None, w)"
  using scan_env_passed[of ls "[]" w] by simp

text \<open>When the loop of \<^verbatim>\<open>load_env_vars\<close> raises, and that it returns otherwise.\<close>

lemma scan_env_raises_iff:
  "fst (scan_env ls w) = Inl ValueError \<longleftrightarrow>
     (\<exists>before l rest. ls = before @ l # rest \<and> (\<forall>x\<in>set before. passed_over x) \<and> considered l \<and>
        (CHR ''='' \<notin> set l \<or>
         (\<exists>v. strip l = OPENAI_API_KEY @ ''='' @ v \<and> CHR 0x00 \<in> set (strip_chars is_quote v))))"
proof
  assume r: "fst (scan_env ls w) = Inl ValueError"
  have "\<not> (\<forall>x\<in>set ls. passed_over x)"
  proof
    assume "\<forall>x\<in>set ls. passed_over x"
    then have "scan_env ls w = (Inr None, w)" by (rule scan_env_all_passed)
    then show False using r by simp
  qed
  then obtain before l rest where d: "ls = before @ l # rest" "\<forall>x\<in>set before. passed_over x"
    "\<not> passed_over l"
    using first_not_passed_over[of ls] by blast
  have s: "scan_env ls w = scan_env (l # rest) w" using d(1) scan_env_passed[OF d(2)] by simp
  have c: "considered l" using not_passed_over_cases[OF d(3)] by simp
  show "\<exists>before l rest. ls = before @ l # rest \<and> (\<forall>x\<in>set before. passed_over x) \<and> considered l \<and>
        (CHR ''='' \<notin> set l \<or>
         (\<exists>v. strip l = OPENAI_API_KEY @ ''='' @ v \<and> CHR 0x00 \<in> set (strip_chars is_quote v)))"
  proof (cases "CHR ''='' \<in> set l")
    case False
    then show ?thesis using d c by blast
  next
    case True
    then obtain v where v: "strip l = OPENAI_API_KEY @ ''='' @ v"
      using not_passed_over_cases[OF d(3)] by blast
    have "CHR 0x00 \<in> set (strip_chars is_quote v)"
      using r s scan_env_key_line[OF v, of rest w] by (auto split: if_splits)
    then show ?thesis using d c v by blast
  qed
next
  assume "\<exists>before l rest. ls = before @ l # rest \<and> (\<forall>x\<in>set before. passed_over x) \<and> considered l \<and>
        (CHR ''='' \<notin> set l \<or>
         (\<exists>v. strip l = OPENAI_API_KEY @ ''='' @ v \<and> CHR 0x00 \<in> set (strip_chars is_quote v)))"
  then obtain before l rest where d: "ls = before @ l # rest" "\<forall>x\<in>set before. passed_over x"
    "considered l"
    "CHR ''='' \<notin> set l \<or>
      (\<exists>v. strip l = OPENAI_API_KEY @ ''='' @ v \<and> CHR 0x00 \<in> set (strip_chars is_quote v))"
    by blast
  have s: "scan_env ls w = scan_env (l # rest) w" using d(1) scan_env_passed[OF d(2)] by simp
  from d(4) show "fst (scan_env ls w) = Inl ValueError"
  proof
    assume "CHR ''='' \<notin> set l"
    then show ?thesis using s scan_env_no_equals[OF d(3)] by simp
  next
    assume "\<exists>v. strip l = OPENAI_API_KEY @ ''='' @ v \<and> CHR 0x00 \<in> set (strip_chars is_quote v)"
    then obtain v where v: "strip l = OPENAI_API_KEY @ ''='' @ v"
      "CHR 0x00 \<in> set (strip_chars is_quote v)" by blast
    show ?thesis using s scan_env_key_line[OF v(1), of rest w] v(2) by simp
  qed
qed

lemma scan_env_result: "fst (scan_env ls w) = Inl e \<Longrightarrow> e = ValueError"
  by (induction ls) (auto simp: Let_def environ_set_def split: if_splits list.splits)

lemma scan_env_same_result: "fst (scan_env ls w) = fst (scan_env ls w')"
  by (induction ls) (auto simp: Let_def environ_set_def split: if_splits list.splits)

lemma scan_env_keeps: "stdin (snd (scan_env ls w)) = stdin w \<and> files (snd (scan_env ls w)) = files w"
  by (induction ls) (auto simp: Let_def environ_set_def split: if_splits list.splits)

lemma load_env_vars_same_result:
  "files w' env_file = files w env_file \<Longrightarrow> fst (load_env_vars w') = fst (load_env_vars w)"
  using scan_env_same_result by (auto simp: load_env_vars_def split: option.splits)

lemma load_env_vars_keeps:
  "stdin (snd (load_env_vars w)) = stdin w \<and> files (snd (load_env_vars w)) = files w"
  using scan_env_keeps by (auto simp: load_env_vars_def emit_def split: option.splits)

lemma load_env_vars_result: "fst (load_env_vars w) = Inl e \<Longrightarrow> e = ValueError"
  by (auto simp: load_env_vars_def split: option.splits dest: scan_env_result)

lemma load_env_vars_raises:
  assumes "files w env_file = Some text"
    and "file_lines text = before @ l # rest"
    and "\<forall>x\<in>set before. \<not> considered x"
    and "considered l"
    and "CHR ''='' \<notin> set l"
  shows "load_env_vars w = (Inl ValueError, emit (Read env_file) (emit (Stat env_file) w))"
  using assms scan_env_skip[OF assms(3)] scan_env_no_equals[OF assms(4,5)]
  by (simp add: load_env_vars_def)

text \<open>Without a credential in the environment the resolver consults the dotenv file.\<close>

lemma get_openai_key_dotenv:
  assumes "environ w OPENAI_API_KEY = None \<or> environ w OPENAI_API_KEY = Some []"
  shows "get_openai_key w =
           (case load_env_vars w of
              (Inl e, w1) \<Rightarrow> (Inl e, w1)
            | (Inr None, w1) \<Rightarrow> ask_key w1
            | (Inr (Some api_key), w1) \<Rightarrow> if api_key = [] then ask_key w1 else (Inr api_key, w1))"
  using assms by (auto simp: get_openai_key_def)

lemma main_raises:
  assumes "environ w OPENAI_API_KEY = None \<or> environ w OPENAI_API_KEY = Some []"
    and "fst (load_env_vars w) = Inl e"
  shows "fst (main service a w) = Inl e"
proof -
  have ev: "environ (banner w) OPENAI_API_KEY = None \<or> environ (banner w) OPENAI_API_KEY = Some []"
    using assms(1) by (simp add: banner_def py_print_def emit_def)
  have "files (banner w) env_file = files w env_file"
    by (simp add: banner_def py_print_def emit_def)
  then have "fst (load_env_vars (banner w)) = Inl e"
    using load_env_vars_same_result[of "banner w" w] assms(2) by simp
  then obtain w' where "load_env_vars (banner w) = (Inl e, w')"
    by (cases "load_env_vars (banner w)") auto
  then have "get_openai_key (banner w) = (Inl e, w')"
    using get_openai_key_dotenv[OF ev] by simp
  then show ?thesis by (simp add: main_def)
qed

text \<open>
  Claim C10, as the code has it. The dotenv loader fails on some files. It raises
  \<^verbatim>\<open>ValueError\<close> when the first line that is neither blank nor starts with \<open>#\<close>
  has no \<open>=\<close> (an indented comment, for example). In general it raises exactly when the
  first line that is not passed over (blank, starting with \<open>#\<close>, or carrying another key)
  has no \<open>=\<close>, or is an \<open>OPENAI_API_KEY\<close> line whose value, quotes removed, holds a NUL
  character; on every other file it returns, and without a file it returns \<open>None\<close>.
  Nothing catches the error: with no credential in the environment it leaves \<^verbatim>\<open>main\<close>
  and the process ends with status 1.
\<close>

theorem dotenv_loader_partial:
  "(files w env_file = Some text \<and> file_lines text = before @ l # rest \<and>
    (\<forall>x\<in>set before. \<not> considered x) \<and> considered l \<and> CHR ''='' \<notin> set l \<longrightarrow>
      fst (load_env_vars w) = Inl ValueError \<and>
      (environ w OPENAI_API_KEY = None \<longrightarrow>
         fst (main service a w) = Inl ValueError \<and> fst (script service a w) = 1)) \<and>
   (files w env_file = Some text \<longrightarrow>
      (fst (load_env_vars w) = Inl ValueError \<longleftrightarrow>
         (\<exists>b x r. file_lines text = b @ x # r \<and> (\<forall>y\<in>set b. passed_over y) \<and> considered x \<and>
            (CHR ''='' \<notin> set x \<or>
             (\<exists>v. strip x = OPENAI_API_KEY @ ''='' @ v \<and>
                  CHR 0x00 \<in> set (strip_chars is_quote v))))) \<and>
      (fst (load_env_vars w) \<noteq> Inl ValueError \<longrightarrow> (\<exists>v. fst (load_env_vars w) = Inr v))) \<and>
   (files w env_file = None \<longrightarrow> fst (load_env_vars w) = Inr None) \<and>
   (fst (load_env_vars w) = Inl ValueError \<and>
    (environ w OPENAI_API_KEY = None \<or> environ w OPENAI_API_KEY = Some []) \<longrightarrow>
      fst (main service a w) = Inl ValueError \<and> fst (script service a w) = 1)"
proof (intro conjI impI)
  assume a: "files w env_file = Some text \<and> file_lines text = before @ l # rest \<and>
    (\<forall>x\<in>set before. \<not> considered x) \<and> considered l \<and> CHR ''='' \<notin> set l"
  then show r: "fst (load_env_vars w) = Inl ValueError"
    using load_env_vars_raises[of w "text" before l rest] by simp
  assume e: "environ w OPENAI_API_KEY = None"
  show m: "fst (main service a w) = Inl ValueError"
    using main_raises[of w ValueError service a] e r by simp
  show "fst (script service a w) = 1"
    using m by (cases "main service a w") (simp add: script_def)
next
  assume f: "files w env_file = Some text"
  then have l: "load_env_vars w =
      scan_env (file_lines text) (emit (Read env_file) (emit (Stat env_file) w))"
    by (simp add: load_env_vars_def)
  show "fst (load_env_vars w) = Inl ValueError \<longleftrightarrow>
         (\<exists>b x r. file_lines text = b @ x # r \<and> (\<forall>y\<in>set b. passed_over y) \<and> considered x \<and>
            (CHR ''='' \<notin> set x \<or>
             (\<exists>v. strip x = OPENAI_API_KEY @ ''='' @ v \<and>
                  CHR 0x00 \<in> set (strip_chars is_quote v))))"
    unfolding l by (rule scan_env_raises_iff)
  show "\<exists>v. fst (load_env_vars w) = Inr v" if "fst (load_env_vars w) \<noteq> Inl ValueError"
    using that load_env_vars_result[of w] by (cases "fst (load_env_vars w)") auto
next
  assume "files w env_file = None"
  then show "fst (load_env_vars w) = Inr None"
    by (simp add: load_env_vars_def)
next
  assume h: "fst (load_env_vars w) = Inl ValueError \<and>
    (environ w OPENAI_API_KEY = None \<or> environ w OPENAI_API_KEY = Some [])"
  then show m: "fst (main service a w) = Inl ValueError"
    using main_raises[of w ValueError service a] by simp
  show "fst (script service a w) = 1"
    using m by (cases "main service a w") (simp add: script_def)
qed

lemma example_lines:
  "file_lines (''  # my key'' @ nl @ ''OPENAI_API_KEY=sk-1'' @ nl) =
     [] @ (''  # my key'' @ nl) # [''OPENAI_API_KEY=sk-1'' @ nl]"
  "file_lines (''# my key'' @ nl @ ''MODEL=gpt-4'' @ nl) = [''# my key'' @ nl, ''MODEL=gpt-4'' @ nl]"
  "file_lines (''# credentials'' @ nl @ nl @ ''MODEL=gpt-4'' @ nl @
       ''OPENAI_API_KEY='' @ [CHR 0x22] @ ''sk-1'' @ [CHR 0x22] @ nl) =
     [''# credentials'' @ nl, nl, ''MODEL=gpt-4'' @ nl] @
     (''OPENAI_API_KEY='' @ [CHR 0x22] @ ''sk-1'' @ [CHR 0x22] @ nl) # []"
  by (simp_all add: nl_def)

lemma example_considered:
  "considered (''  # my key'' @ nl)"
  "\<not> considered (''# my key'' @ nl)"
  "\<not> considered (''# credentials'' @ nl)"
  "\<not> considered nl"
  "considered (''MODEL=gpt-4'' @ nl)"
  by (simp_all add: considered_def strip_def strip_chars_def is_space_def nl_def)

theorem dotenv_loader_partial_witness:
  "fst (load_env_vars world_indented_comment) = Inl ValueError \<and>
   fst (main offline_service default_args world_indented_comment) = Inl ValueError \<and>
   fst (script offline_service default_args world_indented_comment) = 1 \<and>
   (\<exists>v. fst (load_env_vars world_plain_dotenv) = Inr v) \<and>
   fst (load_env_vars world0) = Inr None \<and>
   fst (load_env_vars world_nul_key) = Inl ValueError \<and>
   fst (script offline_service default_args world_nul_key) = 1"
proof -
  have f4: "files world_nul_key env_file = Some (''OPENAI_API_KEY=a'' @ [CHR 0x00] @ ''b'' @ nl)"
    and e4: "environ world_nul_key OPENAI_API_KEY = None"
    by (simp_all add: world_nul_key_def world0_def)
  have l4: "file_lines (''OPENAI_API_KEY=a'' @ [CHR 0x00] @ ''b'' @ nl) =
      [] @ (''OPENAI_API_KEY=a'' @ [CHR 0x00] @ ''b'' @ nl) # []"
    by (simp add: nl_def)
  have s4: "strip (''OPENAI_API_KEY=a'' @ [CHR 0x00] @ ''b'' @ nl) =
      OPENAI_API_KEY @ ''='' @ (''a'' @ [CHR 0x00] @ ''b'')"
    by (simp add: strip_def strip_chars_def is_space_def nl_def OPENAI_API_KEY_def)
  have c4: "considered (''OPENAI_API_KEY=a'' @ [CHR 0x00] @ ''b'' @ nl)"
    by (simp add: considered_def strip_def strip_chars_def is_space_def nl_def)
  have n4: "CHR 0x00 \<in> set (strip_chars is_quote (''a'' @ [CHR 0x00] @ ''b''))"
    by (simp add: strip_chars_def is_quote_def)
  have t4: "\<exists>b x r. file_lines (''OPENAI_API_KEY=a'' @ [CHR 0x00] @ ''b'' @ nl) = b @ x # r \<and>
              (\<forall>y\<in>set b. passed_over y) \<and> considered x \<and>
              (CHR ''='' \<notin> set x \<or>
               (\<exists>v. strip x = OPENAI_API_KEY @ ''='' @ v \<and>
                    CHR 0x00 \<in> set (strip_chars is_quote v)))"
    using l4 s4 c4 n4 by (metis empty_iff list.set(1))
  have f1: "files world_indented_comment env_file =
              Some (''  # my key'' @ nl @ ''OPENAI_API_KEY=sk-1'' @ nl)"
    and e1: "environ world_indented_comment OPENAI_API_KEY = None"
    by (simp_all add: world_indented_comment_def world0_def)
  have n1: "CHR ''='' \<notin> set (''  # my key'' @ nl)" by (simp add: nl_def)
  have f2: "files world_plain_dotenv env_file = Some (''# my key'' @ nl @ ''MODEL=gpt-4'' @ nl)"
    by (simp add: world_plain_dotenv_def world0_def)
  have p2: "\<forall>x\<in>set [''# my key'' @ nl, ''MODEL=gpt-4'' @ nl]. passed_over x"
    using example_considered
    by (simp add: passed_over_def strip_def strip_chars_def is_space_def nl_def OPENAI_API_KEY_def)
  have t2: "\<not> (\<exists>b x r. file_lines (''# my key'' @ nl @ ''MODEL=gpt-4'' @ nl) = b @ x # r \<and>
              (\<forall>y\<in>set b. passed_over y) \<and> considered x \<and>
              (CHR ''='' \<notin> set x \<or>
               (\<exists>v. strip x = OPENAI_API_KEY @ ''='' @ v \<and>
                    CHR 0x00 \<in> set (strip_chars is_quote v))))"
  proof
    assume "\<exists>b x r. file_lines (''# my key'' @ nl @ ''MODEL=gpt-4'' @ nl) = b @ x # r \<and>
              (\<forall>y\<in>set b. passed_over y) \<and> considered x \<and>
              (CHR ''='' \<notin> set x \<or>
               (\<exists>v. strip x = OPENAI_API_KEY @ ''='' @ v \<and>
                    CHR 0x00 \<in> set (strip_chars is_quote v)))"
    then obtain b x r where d: "[''# my key'' @ nl, ''MODEL=gpt-4'' @ nl] = b @ x # r"
      "considered x"
      "CHR ''='' \<notin> set x \<or> (\<exists>v. strip x = OPENAI_API_KEY @ ''='' @ v)"
      unfolding example_lines(2) by blast
    have "x \<in> set [''# my key'' @ nl, ''MODEL=gpt-4'' @ nl]" using d(1) by (metis in_set_conv_decomp)
    then have px: "passed_over x" using p2 by blast
    from d(3) show False
    proof
      assume "CHR ''='' \<notin> set x"
      then show False using px d(2) by (simp add: passed_over_def)
    next
      assume "\<exists>v. strip x = OPENAI_API_KEY @ ''='' @ v"
      then show False using px key_line_considered(3) by blast
    qed
  qed
  have f3: "files world0 env_file = None" by (simp add: world0_def)
  have r1: "fst (load_env_vars world_indented_comment) = Inl ValueError \<and>
            fst (main offline_service default_args world_indented_comment) = Inl ValueError \<and>
            fst (script offline_service default_args world_indented_comment) = 1"
    using dotenv_loader_partial[of world_indented_comment
        "''  # my key'' @ nl @ ''OPENAI_API_KEY=sk-1'' @ nl" "[]" "''  # my key'' @ nl"
        "[''OPENAI_API_KEY=sk-1'' @ nl]" offline_service default_args]
      f1 e1 n1 example_lines(1) example_considered(1)
    by simp
  have r2: "\<exists>v. fst (load_env_vars world_plain_dotenv) = Inr v"
    using dotenv_loader_partial[of world_plain_dotenv "''# my key'' @ nl @ ''MODEL=gpt-4'' @ nl"]
      f2 t2 by blast
  have r3: "fst (load_env_vars world0) = Inr None"
    using dotenv_loader_partial[of world0] f3 by blast
  have r4: "fst (load_env_vars world_nul_key) = Inl ValueError"
    using dotenv_loader_partial[of world_nul_key
        "''OPENAI_API_KEY=a'' @ [CHR 0x00] @ ''b'' @ nl"] f4 t4
    by blast
  have r5: "fst (script offline_service default_args world_nul_key) = 1"
    using dotenv_loader_partial[where w = world_nul_key and service = offline_service
        and a = default_args] r4 e4
    by blast
  show ?thesis using r1 r2 r3 r4 r5 by blast
qed

text \<open>
  The precondition "every line that is neither blank nor starts with \<open>#\<close> contains
  \<open>=\<close>" is neither needed nor enough for the loader to return: after an
  \<open>OPENAI_API_KEY\<close> line a line without \<open>=\<close> is never reached, and a key line whose value
  holds a NUL character raises although it contains \<open>=\<close>.
\<close>

theorem dotenv_precondition_not_exact:
  "file_lines (''OPENAI_API_KEY=k1'' @ nl @ ''not a pair'' @ nl) =
     [''OPENAI_API_KEY=k1'' @ nl, ''not a pair'' @ nl] \<and>
   considered (''not a pair'' @ nl) \<and> CHR ''='' \<notin> set (''not a pair'' @ nl) \<and>
   fst (load_env_vars world_key_then_bad_line) = Inr (Some ''k1'') \<and>
   file_lines (''OPENAI_API_KEY=a'' @ [CHR 0x00] @ ''b'' @ nl) =
     [''OPENAI_API_KEY=a'' @ [CHR 0x00] @ ''b'' @ nl] \<and>
   CHR ''='' \<in> set (''OPENAI_API_KEY=a'' @ [CHR 0x00] @ ''b'' @ nl) \<and>
   fst (load_env_vars world_nul_key) = Inl ValueError"
  by (simp add: load_env_vars_def world_key_then_bad_line_def world_nul_key_def world0_def
      considered_def split_once_def strip_def strip_chars_def is_space_def is_quote_def nl_def
      OPENAI_API_KEY_def environ_set_def Let_def)

lemma load_env_vars_key_line:
  assumes "files w env_file = Some text"
    and "file_lines text = before @ l # rest"
    and "\<forall>x\<in>set before. passed_over x"
    and "strip l = OPENAI_API_KEY @ ''='' @ v"
  shows "load_env_vars w =
           (if CHR 0x00 \<in> set (strip_chars is_quote v)
            then (Inl ValueError, emit (Read env_file) (emit (Stat env_file) w))
            else (Inr (Some (strip_chars is_quote v)),
                  (emit (Read env_file) (emit (Stat env_file) w))
                    \<lparr>environ := (environ w)(OPENAI_API_KEY \<mapsto> strip_chars is_quote v)\<rparr>))"
  using assms(1,2) scan_env_passed[OF assms(3)] scan_env_key_line[OF assms(4)]
  by (simp add: load_env_vars_def emit_def)

text \<open>
  Claim C5, as the code has it. In a dotenv file whose earlier lines are passed over (they
  are blank, start with \<open>#\<close>, or carry another key), a line that reads
  \<open>OPENAI_API_KEY=value\<close> once trimmed decides the result. The loader removes every quote
  character (single or double) from both ends of the value. If the text that remains holds
  no NUL character, the loader returns it and stores it under \<open>OPENAI_API_KEY\<close> in the
  process environment, and the credential resolver returns it when the environment had no
  credential and the text is not empty. If it holds a NUL character, the assignment to
  \<^verbatim>\<open>os.environ\<close> raises \<^verbatim>\<open>ValueError\<close> and the environment stays as it was.
\<close>

theorem dotenv_key_loaded:
  assumes "files w env_file = Some text"
    and "file_lines text = before @ l # rest"
    and "\<forall>x\<in>set before. passed_over x"
    and "strip l = OPENAI_API_KEY @ ''='' @ v"
  shows "(CHR 0x00 \<notin> set (strip_chars is_quote v) \<longrightarrow>
            fst (load_env_vars w) = Inr (Some (strip_chars is_quote v)) \<and>
            environ (snd (load_env_vars w)) OPENAI_API_KEY = Some (strip_chars is_quote v) \<and>
            ((environ w OPENAI_API_KEY = None \<or> environ w OPENAI_API_KEY = Some []) \<and>
             strip_chars is_quote v \<noteq> [] \<longrightarrow>
               fst (get_openai_key w) = Inr (strip_chars is_quote v) \<and>
               environ (snd (get_openai_key w)) OPENAI_API_KEY = Some (strip_chars is_quote v))) \<and>
         (CHR 0x00 \<in> set (strip_chars is_quote v) \<longrightarrow>
            fst (load_env_vars w) = Inl ValueError \<and>
            environ (snd (load_env_vars w)) = environ w)"
proof (intro conjI impI)
  assume n: "CHR 0x00 \<notin> set (strip_chars is_quote v)"
  have l: "load_env_vars w =
      (Inr (Some (strip_chars is_quote v)),
       (emit (Read env_file) (emit (Stat env_file) w))
         \<lparr>environ := (environ w)(OPENAI_API_KEY \<mapsto> strip_chars is_quote v)\<rparr>)"
    using load_env_vars_key_line[OF assms] n by simp
  show "fst (load_env_vars w) = Inr (Some (strip_chars is_quote v))" using l by simp
  show "environ (snd (load_env_vars w)) OPENAI_API_KEY = Some (strip_chars is_quote v)"
    using l by simp
  assume e: "(environ w OPENAI_API_KEY = None \<or> environ w OPENAI_API_KEY = Some []) \<and>
             strip_chars is_quote v \<noteq> []"
  then have g: "get_openai_key w =
      (Inr (strip_chars is_quote v),
       (emit (Read env_file) (emit (Stat env_file) w))
         \<lparr>environ := (environ w)(OPENAI_API_KEY \<mapsto> strip_chars is_quote v)\<rparr>)"
    using get_openai_key_dotenv[of w] l by simp
  show "fst (get_openai_key w) = Inr (strip_chars is_quote v)" using g by simp
  show "environ (snd (get_openai_key w)) OPENAI_API_KEY = Some (strip_chars is_quote v)"
    using g by simp
next
  assume n: "CHR 0x00 \<in> set (strip_chars is_quote v)"
  have l: "load_env_vars w = (Inl ValueError, emit (Read env_file) (emit (Stat env_file) w))"
    using load_env_vars_key_line[OF assms] n by simp
  show "fst (load_env_vars w) = Inl ValueError" using l by simp
  show "environ (snd (load_env_vars w)) = environ w" using l by (simp add: emit_def)
qed

theorem dotenv_key_loaded_witness:
  "fst (load_env_vars world_quoted_key) = Inr (Some ''sk-1'') \<and>
   environ (snd (load_env_vars world_quoted_key)) OPENAI_API_KEY = Some ''sk-1'' \<and>
   fst (get_openai_key world_quoted_key) = Inr ''sk-1'' \<and>
   environ (snd (get_openai_key world_quoted_key)) OPENAI_API_KEY = Some ''sk-1'' \<and>
   fst (load_env_vars world_nul_key) = Inl ValueError \<and>
   environ (snd (load_env_vars world_nul_key)) = environ world_nul_key"
proof -
  have f: "files world_quoted_key env_file =
      Some (''# credentials'' @ nl @ nl @ ''MODEL=gpt-4'' @ nl @
            ''OPENAI_API_KEY='' @ [CHR 0x22] @ ''sk-1'' @ [CHR 0x22] @ nl)"
    and e: "environ world_quoted_key OPENAI_API_KEY = None"
    by (simp_all add: world_quoted_key_def world0_def)
  have b: "\<forall>x\<in>set [''# credentials'' @ nl, nl, ''MODEL=gpt-4'' @ nl]. passed_over x"
    using example_considered
    by (simp add: passed_over_def strip_def strip_chars_def is_space_def nl_def OPENAI_API_KEY_def)
  have s: "strip (''OPENAI_API_KEY='' @ [CHR 0x22] @ ''sk-1'' @ [CHR 0x22] @ nl) =
             OPENAI_API_KEY @ ''='' @ ([CHR 0x22] @ ''sk-1'' @ [CHR 0x22])"
    by (simp add: strip_def strip_chars_def is_space_def nl_def OPENAI_API_KEY_def)
  have q: "strip_chars is_quote ([CHR 0x22] @ ''sk-1'' @ [CHR 0x22]) = ''sk-1''"
    by (simp add: strip_chars_def is_quote_def)
  have f2: "files world_nul_key env_file = Some (''OPENAI_API_KEY=a'' @ [CHR 0x00] @ ''b'' @ nl)"
    by (simp add: world_nul_key_def world0_def)
  have l2: "file_lines (''OPENAI_API_KEY=a'' @ [CHR 0x00] @ ''b'' @ nl) =
              [] @ (''OPENAI_API_KEY=a'' @ [CHR 0x00] @ ''b'' @ nl) # []"
    by (simp add: nl_def)
  have b2: "\<forall>x\<in>set []. passed_over x" by simp
  have s2: "strip (''OPENAI_API_KEY=a'' @ [CHR 0x00] @ ''b'' @ nl) =
              OPENAI_API_KEY @ ''='' @ (''a'' @ [CHR 0x00] @ ''b'')"
    by (simp add: strip_def strip_chars_def is_space_def nl_def OPENAI_API_KEY_def)
  have q2: "strip_chars is_quote (''a'' @ [CHR 0x00] @ ''b'') = ''a'' @ [CHR 0x00] @ ''b''"
    by (simp add: strip_chars_def is_quote_def)
  have one: "fst (load_env_vars world_quoted_key) = Inr (Some ''sk-1'') \<and>
     environ (snd (load_env_vars world_quoted_key)) OPENAI_API_KEY = Some ''sk-1'' \<and>
     fst (get_openai_key world_quoted_key) = Inr ''sk-1'' \<and>
     environ (snd (get_openai_key world_quoted_key)) OPENAI_API_KEY = Some ''sk-1''"
    using dotenv_key_loaded[OF f example_lines(3) b s, unfolded q] e
    by simp
  have two: "fst (load_env_vars world_nul_key) = Inl ValueError \<and>
     environ (snd (load_env_vars world_nul_key)) = environ world_nul_key"
    using dotenv_key_loaded[OF f2 l2 b2 s2, unfolded q2]
    by simp
  show ?thesis using one two by blast
qed

text \<open>
  A value wrapped in two layers of quotes, \<^verbatim>\<open>OPENAI_API_KEY="'sk-1'"\<close>: the loader
  removes both layers, where removing a single layer of matching quotes would leave
  \<^verbatim>\<open>'sk-1'\<close>.
\<close>

theorem two_quote_layers_removed:
  "fst (load_env_vars world_doubly_quoted_key) = Inr (Some ''sk-1'') \<and>
   spec_strip_one_quote_layer ([CHR 0x22, CHR 0x27] @ ''sk-1'' @ [CHR 0x27, CHR 0x22]) =
     [CHR 0x27] @ ''sk-1'' @ [CHR 0x27] \<and>
   fst (load_env_vars world_doubly_quoted_key) \<noteq>
     Inr (Some (spec_strip_one_quote_layer ([CHR 0x22, CHR 0x27] @ ''sk-1'' @ [CHR 0x27, CHR 0x22])))"
  by (simp add: load_env_vars_def world_doubly_quoted_key_def world0_def considered_def
      split_once_def strip_def strip_chars_def is_space_def is_quote_def nl_def
      OPENAI_API_KEY_def spec_strip_one_quote_layer_def environ_set_def Let_def)

subsection \<open>The conversation loop\<close>

lemma calls_append: "calls (xs @ ys) = calls xs @ calls ys"
  by (induction xs rule: calls.induct) auto

lemma failure_free_append:
  "failure_free s (xs @ ys) \<longleftrightarrow> failure_free s xs \<and> failure_free s ys"
  by (simp add: failure_free_def calls_append)

lemma failure_free_no_calls: "calls es = [] \<Longrightarrow> failure_free s es"
  by (simp add: failure_free_def)

lemma failure_freeD:
  "failure_free s es \<Longrightarrow> (k, m, n) \<in> set (calls es) \<Longrightarrow> s k m n \<noteq> Failure e"
  by (auto simp: failure_free_def list_all_iff)

lemma chat_loop_eof:
  "stdin w = [] \<Longrightarrow> chat_loop s k m w = (Inl EOFError, emit (Prompt (nl @ ''You: '')) w)"
  by (subst chat_loop.simps) (simp add: py_input_def)

lemma chat_loop_interrupt:
  "stdin w = Interrupt # rest \<Longrightarrow>
   chat_loop s k m w = (Inl KeyboardInterrupt, (emit (Prompt (nl @ ''You: '')) w)\<lparr>stdin := rest\<rparr>)"
  by (subst chat_loop.simps) (simp add: py_input_def)

lemma chat_loop_exit:
  "stdin w = Line u # rest \<Longrightarrow> lower u \<in> set [''exit'', ''quit'', ''q''] \<Longrightarrow>
   chat_loop s k m w =
     (Inr (), py_print ''Exiting generator.'' ((emit (Prompt (nl @ ''You: '')) w)\<lparr>stdin := rest\<rparr>))"
  by (subst chat_loop.simps) (simp add: py_input_def)

lemma chat_loop_failure:
  assumes "stdin w = Line u # rest" and "lower u \<notin> set [''exit'', ''quit'', ''q'']"
    and "s k (m @ [(User, u)]) 1500 = Failure e"
  shows "chat_loop s k m w =
     (Inr (), py_print (''Error: '' @ e)
                (emit (Call k (m @ [(User, u)]) 1500)
                   ((emit (Prompt (nl @ ''You: '')) w)\<lparr>stdin := rest\<rparr>)))"
  using assms by (subst chat_loop.simps) (simp add: py_input_def Let_def)

lemma chat_loop_interrupted:
  assumes "stdin w = Line u # rest" and "lower u \<notin> set [''exit'', ''quit'', ''q'']"
    and "s k (m @ [(User, u)]) 1500 = Interrupted"
  shows "chat_loop s k m w =
     (Inl KeyboardInterrupt,
      emit (Call k (m @ [(User, u)]) 1500) ((emit (Prompt (nl @ ''You: '')) w)\<lparr>stdin := rest\<rparr>))"
  using assms by (subst chat_loop.simps) (simp add: py_input_def Let_def)

lemma chat_loop_reply:
  assumes "stdin w = Line u # rest" and "lower u \<notin> set [''exit'', ''quit'', ''q'']"
    and "s k (m @ [(User, u)]) 1500 = Reply a"
  shows "chat_loop s k m w =
     (let w3 = py_print (nl @ ''AI: '' @ a)
                 (emit (Call k (m @ [(User, u)]) 1500)
                    ((emit (Prompt (nl @ ''You: '')) w)\<lparr>stdin := rest\<rparr>))
      in if contains a sentinel
         then finalize s k (m @ [(User, u), (Assistant, a)]) w3
         else chat_loop s k (m @ [(User, u), (Assistant, a)]) w3)"
  using assms by (subst chat_loop.simps) (simp add: py_input_def Let_def)

text \<open>
  The shape of what a step leaves behind: either no call in it failed, or it ends with the
  failed call and the one line that reports it, returns normally and has written no file.
\<close>

lemma handle_reply_trace:
  "\<exists>es. trace (snd (handle_reply g w)) = trace w @ es \<and> calls es = [] \<and>
        (fst (handle_reply g w) = Inr () \<or> fst (handle_reply g w) = Inl KeyboardInterrupt)"
proof -
  obtain dc env where e: "extract_blocks g = (dc, env)" by (cases "extract_blocks g") auto
  let ?w1 = "save_outputs dc env w"
  have t1: "\<exists>es. trace ?w1 = trace w @ es \<and> calls es = []"
    using trace_save_outputs[of dc env w] by simp
  have "\<exists>es. trace (snd (handle_reply g w)) = trace ?w1 @ es \<and> calls es = [] \<and>
        (fst (handle_reply g w) = Inr () \<or> fst (handle_reply g w) = Inl KeyboardInterrupt)"
  proof (cases "stdin ?w1")
    case Nil
    then show ?thesis
      by (simp add: handle_reply_def e py_input_def py_print_def emit_def Let_def)
  next
    case (Cons ev rest)
    show ?thesis
    proof (cases ev)
      case (Line x)
      then show ?thesis using Cons
        by (simp add: handle_reply_def e py_input_def py_print_def emit_def Let_def
            show_outputs_def)
    next
      case Interrupt
      then show ?thesis using Cons
        by (simp add: handle_reply_def e py_input_def py_print_def emit_def Let_def)
    qed
  qed
  then show ?thesis using t1 by (metis append.assoc calls_append append_Nil)
qed

lemma finalize_shape:
  "\<exists>es. trace (snd (finalize s k m w)) = trace w @ es \<and>
     (fst (finalize s k m w) = Inr () \<or> fst (finalize s k m w) = Inl KeyboardInterrupt) \<and>
     (failure_free s es \<or>
      (\<exists>k' m' n' e. es = [Call k' m' n', Print (''Error: '' @ e)] \<and> s k' m' n' = Failure e \<and>
         fst (finalize s k m w) = Inr () \<and> files (snd (finalize s k m w)) = files w))"
proof (cases "s k (m @ [(User, final_prompt)]) 2000")
  case (Reply g)
  obtain es where es: "trace (snd (handle_reply g (emit (Call k (m @ [(User, final_prompt)]) 2000) w)))
      = trace (emit (Call k (m @ [(User, final_prompt)]) 2000) w) @ es" "calls es = []"
    "fst (handle_reply g (emit (Call k (m @ [(User, final_prompt)]) 2000) w)) = Inr () \<or>
     fst (handle_reply g (emit (Call k (m @ [(User, final_prompt)]) 2000) w)) = Inl KeyboardInterrupt"
    using handle_reply_trace by blast
  have ff: "failure_free s (Call k (m @ [(User, final_prompt)]) 2000 # es)"
    using es(2) Reply by (simp add: failure_free_def)
  show ?thesis
    using es ff Reply by (simp add: finalize_def Let_def emit_def)
next
  case (Failure e)
  then show ?thesis
    by (simp add: finalize_def Let_def emit_def py_print_def)
next
  case Interrupted
  then show ?thesis
    by (simp add: finalize_def Let_def emit_def failure_free_def)
qed

lemma chat_loop_shape:
  "\<exists>es. trace (snd (chat_loop s k m w)) = trace w @ es \<and>
     (fst (chat_loop s k m w) = Inr () \<or> fst (chat_loop s k m w) = Inl KeyboardInterrupt \<or>
      fst (chat_loop s k m w) = Inl EOFError) \<and>
     (failure_free s es \<or>
      (\<exists>before k' m' n' e.
         es = before @ [Call k' m' n', Print (''Error: '' @ e)] \<and> s k' m' n' = Failure e \<and>
         failure_free s before \<and> written before = [] \<and> Print (''Error: '' @ e) \<notin> set before \<and>
         fst (chat_loop s k m w) = Inr () \<and> files (snd (chat_loop s k m w)) = files w))"
proof (induction "stdin w" arbitrary: w m)
  case Nil
  then have "chat_loop s k m w = (Inl EOFError, emit (Prompt (nl @ ''You: '')) w)"
    using chat_loop_eof by simp
  then show ?case by (simp add: emit_def failure_free_def)
next
  case (Cons ev rest)
  then have sw: "stdin w = ev # rest" by simp
  let ?w1 = "(emit (Prompt (nl @ ''You: '')) w)\<lparr>stdin := rest\<rparr>"
  show ?case
  proof (cases ev)
    case Interrupt
    then have "chat_loop s k m w = (Inl KeyboardInterrupt, ?w1)"
      using sw chat_loop_interrupt by simp
    then show ?thesis by (simp add: emit_def failure_free_def)
  next
    case (Line u)
    then have su: "stdin w = Line u # rest" using sw by simp
    show ?thesis
    proof (cases "lower u \<in> set [''exit'', ''quit'', ''q'']")
      case True
      then have "chat_loop s k m w = (Inr (), py_print ''Exiting generator.'' ?w1)"
        using su chat_loop_exit by simp
      then show ?thesis by (simp add: emit_def py_print_def failure_free_def)
    next
      case False
      let ?m1 = "m @ [(User, u)]"
      let ?w2 = "emit (Call k ?m1 1500) ?w1"
      show ?thesis
      proof (cases "s k ?m1 1500")
        case (Failure e)
        have r: "chat_loop s k m w = (Inr (), py_print (''Error: '' @ e) ?w2)"
          using chat_loop_failure[where s = s and k = k and m = m, OF su False Failure] .
        have "trace (py_print (''Error: '' @ e) ?w2) =
                trace w @ [Prompt (nl @ ''You: '')] @ [Call k ?m1 1500, Print (''Error: '' @ e)]"
          by (simp add: emit_def py_print_def)
        moreover have "failure_free s [Prompt (nl @ ''You: '')]"
          by (simp add: failure_free_def)
        moreover have "files (py_print (''Error: '' @ e) ?w2) = files w"
          by (simp add: emit_def py_print_def)
        ultimately show ?thesis using r Failure
          by (intro exI[of _ "[Prompt (nl @ ''You: '')] @ [Call k ?m1 1500, Print (''Error: '' @ e)]"])
            (auto intro!: exI[of _ "[Prompt (nl @ ''You: '')]"])
      next
        case Interrupted
        have r: "chat_loop s k m w = (Inl KeyboardInterrupt, ?w2)"
          using chat_loop_interrupted[where s = s and k = k and m = m, OF su False Interrupted] .
        show ?thesis using r Interrupted by (simp add: emit_def failure_free_def)
      next
        case (Reply a)
        let ?m2 = "m @ [(User, u), (Assistant, a)]"
        let ?w3 = "py_print (nl @ ''AI: '' @ a) ?w2"
        let ?pre = "[Prompt (nl @ ''You: ''), Call k ?m1 1500, Print (nl @ ''AI: '' @ a)]"
        have t3: "trace ?w3 = trace w @ ?pre" by (simp add: emit_def py_print_def)
        have f3: "files ?w3 = files w" by (simp add: emit_def py_print_def)
        have s3: "rest = stdin ?w3" by (simp add: emit_def py_print_def)
        have ffp: "failure_free s ?pre" using Reply by (simp add: failure_free_def)
        have wp: "written ?pre = []" by simp
        have np: "Print (''Error: '' @ e) \<notin> set ?pre" for e by (simp add: nl_def)
        have r: "chat_loop s k m w =
                  (if contains a sentinel then finalize s k ?m2 ?w3 else chat_loop s k ?m2 ?w3)"
          using chat_loop_reply[where s = s and k = k and m = m, OF su False Reply] by (simp add: Let_def)
        show ?thesis
        proof (cases "contains a sentinel")
          case True
          then have rr: "chat_loop s k m w = finalize s k ?m2 ?w3" using r by simp
          obtain es where es: "trace (snd (finalize s k ?m2 ?w3)) = trace ?w3 @ es"
            "fst (finalize s k ?m2 ?w3) = Inr () \<or> fst (finalize s k ?m2 ?w3) = Inl KeyboardInterrupt"
            "failure_free s es \<or>
              (\<exists>k' m' n' e. es = [Call k' m' n', Print (''Error: '' @ e)] \<and> s k' m' n' = Failure e \<and>
                fst (finalize s k ?m2 ?w3) = Inr () \<and> files (snd (finalize s k ?m2 ?w3)) = files ?w3)"
            using finalize_shape[of s k ?m2 ?w3] by blast
          have tr: "trace (snd (chat_loop s k m w)) = trace w @ (?pre @ es)"
            using rr es(1) t3 by simp
          have res: "fst (chat_loop s k m w) = Inr () \<or>
                     fst (chat_loop s k m w) = Inl KeyboardInterrupt \<or>
                     fst (chat_loop s k m w) = Inl EOFError"
            using es(2) rr by auto
          from es(3) show ?thesis
          proof
            assume "failure_free s es"
            then have "failure_free s (?pre @ es)" using ffp failure_free_append by blast
            then show ?thesis using tr res by blast
          next
            assume "\<exists>k' m' n' e. es = [Call k' m' n', Print (''Error: '' @ e)] \<and> s k' m' n' = Failure e \<and>
                fst (finalize s k ?m2 ?w3) = Inr () \<and> files (snd (finalize s k ?m2 ?w3)) = files ?w3"
            then obtain k' m' n' e where x: "es = [Call k' m' n', Print (''Error: '' @ e)]"
              "s k' m' n' = Failure e" "fst (finalize s k ?m2 ?w3) = Inr ()"
              "files (snd (finalize s k ?m2 ?w3)) = files ?w3" by blast
            have "\<exists>before k' m' n' e.
               ?pre @ es = before @ [Call k' m' n', Print (''Error: '' @ e)] \<and> s k' m' n' = Failure e \<and>
               failure_free s before \<and> written before = [] \<and> Print (''Error: '' @ e) \<notin> set before \<and>
               fst (chat_loop s k m w) = Inr () \<and> files (snd (chat_loop s k m w)) = files w"
              using x ffp wp np[of e] rr f3
              by (intro exI[of _ ?pre] exI[of _ k'] exI[of _ m'] exI[of _ n'] exI[of _ e]) simp
            then show ?thesis using tr res by blast
          qed
        next
          case False
          then have rr: "chat_loop s k m w = chat_loop s k ?m2 ?w3" using r by simp
          obtain es where es: "trace (snd (chat_loop s k ?m2 ?w3)) = trace ?w3 @ es"
            "fst (chat_loop s k ?m2 ?w3) = Inr () \<or> fst (chat_loop s k ?m2 ?w3) = Inl KeyboardInterrupt \<or>
             fst (chat_loop s k ?m2 ?w3) = Inl EOFError"
            "failure_free s es \<or>
              (\<exists>before k' m' n' e.
                 es = before @ [Call k' m' n', Print (''Error: '' @ e)] \<and> s k' m' n' = Failure e \<and>
                 failure_free s before \<and> written before = [] \<and> Print (''Error: '' @ e) \<notin> set before \<and>
                 fst (chat_loop s k ?m2 ?w3) = Inr () \<and> files (snd (chat_loop s k ?m2 ?w3)) = files ?w3)"
            using Cons.hyps(1)[OF s3, of ?m2] by blast
          have tr: "trace (snd (chat_loop s k m w)) = trace w @ (?pre @ es)"
            using rr es(1) t3 by simp
          have res: "fst (chat_loop s k m w) = Inr () \<or>
                     fst (chat_loop s k m w) = Inl KeyboardInterrupt \<or>
                     fst (chat_loop s k m w) = Inl EOFError"
            using es(2) rr by auto
          from es(3) show ?thesis
          proof
            assume "failure_free s es"
            then have "failure_free s (?pre @ es)" using ffp failure_free_append by blast
            then show ?thesis using tr res by blast
          next
            assume "\<exists>before k' m' n' e.
                 es = before @ [Call k' m' n', Print (''Error: '' @ e)] \<and> s k' m' n' = Failure e \<and>
                 failure_free s before \<and> written before = [] \<and> Print (''Error: '' @ e) \<notin> set before \<and>
                 fst (chat_loop s k ?m2 ?w3) = Inr () \<and> files (snd (chat_loop s k ?m2 ?w3)) = files ?w3"
            then obtain before k' m' n' e where x:
              "es = before @ [Call k' m' n', Print (''Error: '' @ e)]" "s k' m' n' = Failure e"
              "failure_free s before" "written before = []" "Print (''Error: '' @ e) \<notin> set before"
              "fst (chat_loop s k ?m2 ?w3) = Inr ()" "files (snd (chat_loop s k ?m2 ?w3)) = files ?w3"
              by blast
            have ffb: "failure_free s (?pre @ before)"
              using ffp x(3) failure_free_append by blast
            have wb: "written (?pre @ before) = []" using x(4) by simp
            have nb: "Print (''Error: '' @ e) \<notin> set (?pre @ before)"
              using np[of e] x(5) by simp
            have "\<exists>before k' m' n' e.
               ?pre @ es = before @ [Call k' m' n', Print (''Error: '' @ e)] \<and> s k' m' n' = Failure e \<and>
               failure_free s before \<and> written before = [] \<and> Print (''Error: '' @ e) \<notin> set before \<and>
               fst (chat_loop s k m w) = Inr () \<and> files (snd (chat_loop s k m w)) = files w"
              using x(1,2,6,7) ffb wb nb rr f3
              by (intro exI[of _ "?pre @ before"] exI[of _ k'] exI[of _ m'] exI[of _ n'] exI[of _ e])
                simp
            then show ?thesis using tr res by blast
          qed
        qed
      qed
    qed
  qed
qed

lemma load_documentation_trace:
  "\<exists>es. trace (snd (load_documentation w)) = trace w @ es \<and> calls es = [] \<and> written es = [] \<and>
        (\<forall>p. Print p \<notin> set es) \<and> files (snd (load_documentation w)) = files w \<and>
        stdin (snd (load_documentation w)) = stdin w \<and>
        environ (snd (load_documentation w)) = environ w"
  by (simp add: load_documentation_def load_repo_docs_def read_if_exists_def emit_def
      split: option.splits)

lemma generate_shape:
  "\<exists>es. trace (snd (generate_docker_compose s k rs ef w)) = trace w @ es \<and>
     (fst (generate_docker_compose s k rs ef w) = Inr () \<or>
      fst (generate_docker_compose s k rs ef w) = Inl KeyboardInterrupt \<or>
      fst (generate_docker_compose s k rs ef w) = Inl EOFError) \<and>
     (failure_free s es \<or>
      (\<exists>before k' m' n' e.
         es = before @ [Call k' m' n', Print (''Error: '' @ e)] \<and> s k' m' n' = Failure e \<and>
         failure_free s before \<and> written before = [] \<and> Print (''Error: '' @ e) \<notin> set before \<and>
         fst (generate_docker_compose s k rs ef w) = Inr () \<and>
         files (snd (generate_docker_compose s k rs ef w)) = files w))"
proof -
  obtain docs w1 where ld: "load_documentation w = (docs, w1)"
    by (cases "load_documentation w") auto
  obtain evc sample where docs: "docs = (evc, sample)" by (cases docs) auto
  obtain es1 where es1: "trace w1 = trace w @ es1" "calls es1 = []" "written es1 = []"
    "\<forall>p. Print p \<notin> set es1" "files w1 = files w"
    using load_documentation_trace[of w] ld by auto
  let ?w2 = "py_print (''AI: '' @ initial_message) w1"
  let ?msgs = "[(System, system_prompt evc sample), (Assistant, initial_message)]"
  let ?pre = "es1 @ [Print (''AI: '' @ initial_message)]"
  have g: "generate_docker_compose s k rs ef w = chat_loop s k ?msgs ?w2"
    by (simp add: generate_docker_compose_def ld docs)
  have t2: "trace ?w2 = trace w @ ?pre" using es1(1) by (simp add: py_print_def emit_def)
  have f2: "files ?w2 = files w" using es1(5) by (simp add: py_print_def emit_def)
  have ffp: "failure_free s ?pre" using es1(2) by (simp add: failure_free_def calls_append)
  have wp: "written ?pre = []" using es1(3) by (simp add: written_append)
  have np: "Print (''Error: '' @ e) \<notin> set ?pre" for e using es1(4) by simp
  obtain es where es: "trace (snd (chat_loop s k ?msgs ?w2)) = trace ?w2 @ es"
    "fst (chat_loop s k ?msgs ?w2) = Inr () \<or> fst (chat_loop s k ?msgs ?w2) = Inl KeyboardInterrupt \<or>
     fst (chat_loop s k ?msgs ?w2) = Inl EOFError"
    "failure_free s es \<or>
      (\<exists>before k' m' n' e.
         es = before @ [Call k' m' n', Print (''Error: '' @ e)] \<and> s k' m' n' = Failure e \<and>
         failure_free s before \<and> written before = [] \<and> Print (''Error: '' @ e) \<notin> set before \<and>
         fst (chat_loop s k ?msgs ?w2) = Inr () \<and> files (snd (chat_loop s k ?msgs ?w2)) = files ?w2)"
    using chat_loop_shape[of s k ?msgs ?w2] by blast
  have tr: "trace (snd (generate_docker_compose s k rs ef w)) = trace w @ (?pre @ es)"
    using g es(1) t2 by simp
  have res: "fst (generate_docker_compose s k rs ef w) = Inr () \<or>
      fst (generate_docker_compose s k rs ef w) = Inl KeyboardInterrupt \<or>
      fst (generate_docker_compose s k rs ef w) = Inl EOFError"
    using es(2) g by simp
  from es(3) show ?thesis
  proof
    assume "failure_free s es"
    then have "failure_free s (?pre @ es)" using ffp failure_free_append by blast
    then show ?thesis using tr res by blast
  next
    assume "\<exists>before k' m' n' e.
         es = before @ [Call k' m' n', Print (''Error: '' @ e)] \<and> s k' m' n' = Failure e \<and>
         failure_free s before \<and> written before = [] \<and> Print (''Error: '' @ e) \<notin> set before \<and>
         fst (chat_loop s k ?msgs ?w2) = Inr () \<and> files (snd (chat_loop s k ?msgs ?w2)) = files ?w2"
    then obtain before k' m' n' e where x:
      "es = before @ [Call k' m' n', Print (''Error: '' @ e)]" "s k' m' n' = Failure e"
      "failure_free s before" "written before = []" "Print (''Error: '' @ e) \<notin> set before"
      "fst (chat_loop s k ?msgs ?w2) = Inr ()" "files (snd (chat_loop s k ?msgs ?w2)) = files ?w2"
      by blast
    have ffb: "failure_free s (?pre @ before)" using ffp x(3) failure_free_append by blast
    have wb: "written (?pre @ before) = []" using wp x(4) by (simp add: written_append)
    have nb: "Print (''Error: '' @ e) \<notin> set (?pre @ before)" using np[of e] x(5) by simp
    have "\<exists>before k' m' n' e.
         ?pre @ es = before @ [Call k' m' n', Print (''Error: '' @ e)] \<and> s k' m' n' = Failure e \<and>
         failure_free s before \<and> written before = [] \<and> Print (''Error: '' @ e) \<notin> set before \<and>
         fst (generate_docker_compose s k rs ef w) = Inr () \<and>
         files (snd (generate_docker_compose s k rs ef w)) = files w"
      using x(1,2,6,7) ffb wb nb g f2
      by (intro exI[of _ "?pre @ before"] exI[of _ k'] exI[of _ m'] exI[of _ n'] exI[of _ e]) simp
    then show ?thesis using tr res by blast
  qed
qed

lemma failed_call_is_last:
  assumes "es = before @ [Call k' m' n', Print (''Error: '' @ e')]"
    and "failure_free s before" and "s k' m' n' = Failure e'"
    and "(k, m, n) \<in> set (calls es)" and "s k m n = Failure e"
  shows "(k, m, n) = (k', m', n') \<and> e = e'"
proof -
  have "calls es = calls before @ [(k', m', n')]"
    using assms(1) by (simp add: calls_append)
  moreover have "(k, m, n) \<notin> set (calls before)"
    using failure_freeD[OF assms(2)] assms(5) by blast
  ultimately have "(k, m, n) = (k', m', n')" using assms(4) by simp
  then show ?thesis using assms(3,5) by simp
qed

text \<open>
  Claim C7. Whenever a call of the service, in a conversation turn or as the finalize
  request, raises an error during \<^verbatim>\<open>generate_docker_compose\<close>, the function returns
  normally, the run ends with that call followed by the single line
  \<^verbatim>\<open>Error: <message>\<close>, which was not printed before, no earlier call had failed (so
  nothing was retried), and no file has been written.
\<close>

theorem model_error_ends_loop:
  assumes "generate_docker_compose service api_key reference_source env_vars_in_file w = (r, w')"
    and "(k, m, n) \<in> set (calls (new_events w w'))"
    and "service k m n = Failure e"
  shows "r = Inr () \<and> files w' = files w \<and> written (new_events w w') = [] \<and>
         (\<exists>before. new_events w w' = before @ [Call k m n, Print (''Error: '' @ e)] \<and>
            Print (''Error: '' @ e) \<notin> set before \<and> failure_free service before)"
proof -
  obtain es where es: "trace w' = trace w @ es"
    "failure_free service es \<or>
      (\<exists>before k' m' n' e.
         es = before @ [Call k' m' n', Print (''Error: '' @ e)] \<and> service k' m' n' = Failure e \<and>
         failure_free service before \<and> written before = [] \<and> Print (''Error: '' @ e) \<notin> set before \<and>
         r = Inr () \<and> files w' = files w)"
    using generate_shape[of service api_key reference_source env_vars_in_file w] assms(1)
    by auto
  have ne: "new_events w w' = es" using es(1) by (simp add: new_events_def)
  have "\<not> failure_free service es"
    using assms(2,3) ne failure_freeD by fastforce
  then obtain before k' m' n' e' where x:
    "es = before @ [Call k' m' n', Print (''Error: '' @ e')]" "service k' m' n' = Failure e'"
    "failure_free service before" "written before = []" "Print (''Error: '' @ e') \<notin> set before"
    "r = Inr ()" "files w' = files w"
    using es(2) by blast
  have same: "(k, m, n) = (k', m', n') \<and> e = e'"
    using failed_call_is_last[OF x(1,3,2) _ assms(3)] assms(2) ne by simp
  have "written es = []" using x(1,4) by (simp add: written_append)
  then show ?thesis using x same ne by auto
qed

lemma generate_as_loop:
  "\<exists>w2 es1. generate_docker_compose s k rs ef w =
       chat_loop s k [(System, system_prompt (fst (fst (load_documentation w)))
                                 (snd (fst (load_documentation w)))),
                      (Assistant, initial_message)] w2 \<and>
     trace w2 = trace w @ es1 \<and> stdin w2 = stdin w \<and> files w2 = files w"
proof -
  obtain es where es: "trace (snd (load_documentation w)) = trace w @ es"
    "files (snd (load_documentation w)) = files w" "stdin (snd (load_documentation w)) = stdin w"
    using load_documentation_trace[of w] by blast
  let ?w2 = "py_print (''AI: '' @ initial_message) (snd (load_documentation w))"
  have "generate_docker_compose s k rs ef w =
       chat_loop s k [(System, system_prompt (fst (fst (load_documentation w)))
                                 (snd (fst (load_documentation w)))),
                      (Assistant, initial_message)] ?w2"
    by (simp add: generate_docker_compose_def split: prod.splits)
  moreover have "trace ?w2 = trace w @ (es @ [Print (''AI: '' @ initial_message)])"
    using es(1) by (simp add: py_print_def emit_def)
  moreover have "stdin ?w2 = stdin w" "files ?w2 = files w"
    using es(2,3) by (simp_all add: py_print_def emit_def)
  ultimately show ?thesis by blast
qed

lemma turn_failure_trace:
  assumes "stdin w = Line u # rest" and "lower u \<notin> set [''exit'', ''quit'', ''q'']"
    and "s k (m @ [(User, u)]) 1500 = Failure e"
  shows "trace (snd (chat_loop s k m w)) =
           trace w @ [Prompt (nl @ ''You: ''), Call k (m @ [(User, u)]) 1500,
                      Print (''Error: '' @ e)]"
  using chat_loop_failure[where s = s and k = k and m = m, OF assms]
  by (simp add: py_print_def emit_def)

lemma finalize_failure_trace:
  assumes "stdin w = Line u # rest" and "lower u \<notin> set [''exit'', ''quit'', ''q'']"
    and "s k (m @ [(User, u)]) 1500 = Reply a" and "contains a sentinel"
    and "s k (m @ [(User, u), (Assistant, a), (User, final_prompt)]) 2000 = Failure e"
  shows "trace (snd (chat_loop s k m w)) =
           trace w @ [Prompt (nl @ ''You: ''), Call k (m @ [(User, u)]) 1500,
                      Print (nl @ ''AI: '' @ a),
                      Call k (m @ [(User, u), (Assistant, a), (User, final_prompt)]) 2000,
                      Print (''Error: '' @ e)]"
  using chat_loop_reply[where s = s and k = k and m = m, OF assms(1,2,3)] assms(4,5)
  by (simp add: Let_def finalize_def py_print_def emit_def)

lemma lower_hello: "lower ''hello'' \<notin> set [''exit'', ''quit'', ''q'']"
  by (simp add: lower_def lower_char_def)

theorem model_error_ends_loop_witness:
  "fst (generate_docker_compose offline_service ''sk-1'' Static False world_hello) = Inr () \<and>
   files (snd (generate_docker_compose offline_service ''sk-1'' Static False world_hello)) =
     files world_hello \<and>
   written (new_events world_hello
     (snd (generate_docker_compose offline_service ''sk-1'' Static False world_hello))) = [] \<and>
   fst (generate_docker_compose quota_service ''sk-1'' Static False world_hello) = Inr () \<and>
   files (snd (generate_docker_compose quota_service ''sk-1'' Static False world_hello)) =
     files world_hello \<and>
   written (new_events world_hello
     (snd (generate_docker_compose quota_service ''sk-1'' Static False world_hello))) = []"
proof -
  have sh: "stdin world_hello = Line ''hello'' # []" by (simp add: world_hello_def world0_def)
  define M where "M = [(System, system_prompt (fst (fst (load_documentation world_hello)))
                                 (snd (fst (load_documentation world_hello)))),
                      (Assistant, initial_message)]"
  have first: "\<exists>c. c \<in> set (calls (new_events world_hello
                  (snd (generate_docker_compose offline_service ''sk-1'' Static False world_hello)))) \<and>
                offline_service (fst c) (fst (snd c)) (snd (snd c)) = Failure ''Connection error.''"
  proof -
    obtain w2 es1 where g:
      "generate_docker_compose offline_service ''sk-1'' Static False world_hello =
         chat_loop offline_service ''sk-1'' M w2"
      "trace w2 = trace world_hello @ es1" "stdin w2 = stdin world_hello"
      using generate_as_loop[of offline_service "''sk-1''" Static False world_hello]
      unfolding M_def by blast
    have "trace (snd (chat_loop offline_service ''sk-1'' M w2)) =
            trace w2 @ [Prompt (nl @ ''You: ''), Call ''sk-1'' (M @ [(User, ''hello'')]) 1500,
                        Print (''Error: '' @ ''Connection error.'')]"
      using turn_failure_trace[of w2 "''hello''" "[]" offline_service "''sk-1''" M
          "''Connection error.''"] g(3) sh lower_hello
      by (simp add: offline_service_def)
    then have "(''sk-1'', M @ [(User, ''hello'')], 1500) \<in> set (calls (new_events world_hello
                  (snd (generate_docker_compose offline_service ''sk-1'' Static False world_hello))))"
      using g(1,2) by (simp add: new_events_def calls_append)
    then show ?thesis by (intro exI[of _ "(''sk-1'', M @ [(User, ''hello'')], 1500)"])
        (simp add: offline_service_def)
  qed
  have second: "\<exists>c. c \<in> set (calls (new_events world_hello
                  (snd (generate_docker_compose quota_service ''sk-1'' Static False world_hello)))) \<and>
                quota_service (fst c) (fst (snd c)) (snd (snd c)) = Failure ''Rate limit reached.''"
  proof -
    obtain w2 es1 where g:
      "generate_docker_compose quota_service ''sk-1'' Static False world_hello =
         chat_loop quota_service ''sk-1'' M w2"
      "trace w2 = trace world_hello @ es1" "stdin w2 = stdin world_hello"
      using generate_as_loop[of quota_service "''sk-1''" Static False world_hello]
      unfolding M_def by blast
    let ?a = "''Thanks. '' @ sentinel @ ''.''"
    let ?m3 = "M @ [(User, ''hello''), (Assistant, ?a), (User, final_prompt)]"
    have c: "contains ?a sentinel" by (rule contains_first)
    have "trace (snd (chat_loop quota_service ''sk-1'' M w2)) =
            trace w2 @ [Prompt (nl @ ''You: ''), Call ''sk-1'' (M @ [(User, ''hello'')]) 1500,
                        Print (nl @ ''AI: '' @ ?a), Call ''sk-1'' ?m3 2000,
                        Print (''Error: '' @ ''Rate limit reached.'')]"
      using finalize_failure_trace[of w2 "''hello''" "[]" quota_service "''sk-1''" M ?a
          "''Rate limit reached.''"] g(3) sh lower_hello c
      by (simp add: quota_service_def)
    then have "(''sk-1'', ?m3, 2000) \<in> set (calls (new_events world_hello
                  (snd (generate_docker_compose quota_service ''sk-1'' Static False world_hello))))"
      using g(1,2) by (simp add: new_events_def calls_append)
    then show ?thesis by (intro exI[of _ "(''sk-1'', ?m3, 2000)"]) (simp add: quota_service_def)
  qed
  obtain k1 m1 n1 where c1: "(k1, m1, n1) \<in> set (calls (new_events world_hello
       (snd (generate_docker_compose offline_service ''sk-1'' Static False world_hello))))"
    "offline_service k1 m1 n1 = Failure ''Connection error.''"
    using first by auto
  obtain k2 m2 n2 where c2: "(k2, m2, n2) \<in> set (calls (new_events world_hello
       (snd (generate_docker_compose quota_service ''sk-1'' Static False world_hello))))"
    "quota_service k2 m2 n2 = Failure ''Rate limit reached.''"
    using second by auto
  show ?thesis
    using model_error_ends_loop[OF prod.collapse[symmetric] c1]
      model_error_ends_loop[OF prod.collapse[symmetric] c2]
    by blast
qed

subsection \<open>Exit status\<close>

lemma py_input_result:
  "fst (py_input p w) = Inl e \<Longrightarrow> e = EOFError \<or> e = KeyboardInterrupt"
  by (auto simp: py_input_def split: list.splits stdin_event.splits)

lemma ask_key_result:
  "fst (ask_key w) = Inl e \<Longrightarrow> e = ValueError \<or> e = EOFError \<or> e = KeyboardInterrupt"
  by (auto simp: ask_key_def py_input_def py_print_def emit_def environ_set_def Let_def
      split: list.splits stdin_event.splits if_splits)

lemma ask_key_eof: "stdin w = [] \<Longrightarrow> fst (ask_key w) = Inl EOFError"
  by (simp add: ask_key_def py_input_def py_print_def emit_def)

lemma ask_key_line:
  "stdin w = Line l # r \<Longrightarrow>
   fst (ask_key w) = (if CHR 0x00 \<in> set (strip l) then Inl ValueError else Inr (strip l))"
  by (simp add: ask_key_def py_input_def py_print_def emit_def environ_set_key Let_def)

lemma get_openai_key_result:
  "fst (get_openai_key w) = Inl e \<Longrightarrow> e = ValueError \<or> e = EOFError \<or> e = KeyboardInterrupt"
proof -
  assume a: "fst (get_openai_key w) = Inl e"
  define L where "L = (case environ w OPENAI_API_KEY of
              None \<Rightarrow> load_env_vars w
            | Some v \<Rightarrow> if v \<noteq> [] then (Inr (Some v), w) else load_env_vars w)"
  obtain r w1 where l: "L = (r, w1)" by (cases L) auto
  have lr: "r = Inl x \<Longrightarrow> x = ValueError" for x
    using l load_env_vars_result[of w x]
    by (auto simp: L_def split: option.splits if_splits)
  have g: "get_openai_key w =
      (case r of Inl e \<Rightarrow> (Inl e, w1) | Inr None \<Rightarrow> ask_key w1
       | Inr (Some api_key) \<Rightarrow> if api_key = [] then ask_key w1 else (Inr api_key, w1))"
    using l by (simp add: get_openai_key_def L_def[symmetric])
  show ?thesis
  proof (cases r)
    case (Inl x)
    then show ?thesis using a g lr by simp
  next
    case (Inr v)
    then show ?thesis using a g ask_key_result[of w1 e]
      by (cases v) (auto split: if_splits)
  qed
qed

lemma banner_keeps:
  "files (banner w) = files w" "environ (banner w) = environ w" "stdin (banner w) = stdin w"
  by (simp_all add: banner_def py_print_def emit_def)

text \<open>No credential in the environment and none in the dotenv file: the prompt decides.\<close>

lemma key_from_prompt:
  assumes "environ w OPENAI_API_KEY = None \<or> environ w OPENAI_API_KEY = Some []"
    and "fst (load_env_vars w) = Inr None \<or> fst (load_env_vars w) = Inr (Some [])"
  shows "\<exists>w1. get_openai_key (banner w) = ask_key w1 \<and> stdin w1 = stdin w"
proof -
  let ?b = "banner w"
  have ev: "environ ?b OPENAI_API_KEY = None \<or> environ ?b OPENAI_API_KEY = Some []"
    using assms(1) by (simp add: banner_keeps)
  have "fst (load_env_vars ?b) = fst (load_env_vars w)"
    using load_env_vars_same_result[of ?b w] by (simp add: banner_keeps)
  then have r: "fst (load_env_vars ?b) = Inr None \<or> fst (load_env_vars ?b) = Inr (Some [])"
    using assms(2) by simp
  have s: "stdin (snd (load_env_vars ?b)) = stdin w"
    using load_env_vars_keeps[of ?b] by (simp add: banner_keeps)
  have "get_openai_key ?b = ask_key (snd (load_env_vars ?b))"
    using get_openai_key_dotenv[OF ev] r by (cases "load_env_vars ?b") auto
  then show ?thesis using s by blast
qed

lemma main_cases:
  "(fst (get_openai_key (banner w)) = Inr [] \<longrightarrow> fst (main s a w) = Inl (SystemExit 1)) \<and>
   (\<forall>e. fst (get_openai_key (banner w)) = Inl e \<longrightarrow> fst (main s a w) = Inl e) \<and>
   (\<forall>k. fst (get_openai_key (banner w)) = Inr k \<and> k \<noteq> [] \<longrightarrow>
      main s a w =
        generate_docker_compose s k (reference a) (env_in_file a) (snd (get_openai_key (banner w))))"
  by (cases "get_openai_key (banner w)") (auto simp: main_def Let_def)

lemma main_result:
  "fst (main s a w) = Inr () \<or> fst (main s a w) = Inl KeyboardInterrupt \<or>
   fst (main s a w) = Inl EOFError \<or> fst (main s a w) = Inl ValueError \<or>
   (fst (main s a w) = Inl (SystemExit 1) \<and> fst (get_openai_key (banner w)) = Inr [])"
proof (cases "fst (get_openai_key (banner w))")
  case (Inl e)
  then show ?thesis using main_cases[of w s a] get_openai_key_result[of "banner w" e] by auto
next
  case (Inr k)
  show ?thesis
  proof (cases "k = []")
    case True
    then show ?thesis using Inr main_cases[of w s a] by simp
  next
    case False
    then have "main s a w =
        generate_docker_compose s k (reference a) (env_in_file a) (snd (get_openai_key (banner w)))"
      using Inr main_cases[of w s a] by simp
    then show ?thesis
      using generate_shape[of s k "reference a" "env_in_file a" "snd (get_openai_key (banner w))"]
      by auto
  qed
qed

lemma system_exit_only_without_key:
  "fst (main s a w) = Inl (SystemExit n) \<Longrightarrow> n = 1 \<and> fst (get_openai_key (banner w)) = Inr []"
  using main_result[of s a w] by auto

lemma script_status:
  "fst (script s a w) =
     (case fst (main s a w) of
        Inr u \<Rightarrow> 0 | Inl KeyboardInterrupt \<Rightarrow> 0 | Inl (SystemExit n) \<Rightarrow> n | Inl e \<Rightarrow> 1)"
  by (cases "main s a w") (auto simp: script_def split: sum.splits exn.splits)

text \<open>The conversation goes on through user lines that keep it going.\<close>

lemma quiet_turns_loop:
  assumes "quiet_turns s k m us = Some m'" and "stdin w = map Line us @ rest"
  shows "\<exists>w' es. chat_loop s k m w = chat_loop s k m' w' \<and> stdin w' = rest \<and>
           files w' = files w \<and> trace w' = trace w @ es \<and> written es = []"
  using assms
proof (induction us arbitrary: m w)
  case Nil
  then have "chat_loop s k m w = chat_loop s k m' w \<and> stdin w = rest \<and> files w = files w \<and>
      trace w = trace w @ [] \<and> written [] = []" by simp
  then show ?case by blast
next
  case (Cons u us)
  have ne: "lower u \<notin> set [''exit'', ''quit'', ''q'']"
    using Cons.prems(1) by (auto split: if_splits)
  obtain a where a: "s k (m @ [(User, u)]) 1500 = Reply a"
    using Cons.prems(1) ne by (cases "s k (m @ [(User, u)]) 1500") auto
  have nc: "\<not> contains a sentinel" and q: "quiet_turns s k (m @ [(User, u), (Assistant, a)]) us = Some m'"
    using Cons.prems(1) ne a by (auto split: if_splits)
  let ?w3 = "py_print (nl @ ''AI: '' @ a)
               (emit (Call k (m @ [(User, u)]) 1500)
                  ((emit (Prompt (nl @ ''You: '')) w)\<lparr>stdin := map Line us @ rest\<rparr>))"
  have su: "stdin w = Line u # (map Line us @ rest)" using Cons.prems(2) by simp
  have r: "chat_loop s k m w = chat_loop s k (m @ [(User, u), (Assistant, a)]) ?w3"
    using chat_loop_reply[where s = s and k = k and m = m, OF su ne a] nc by (simp add: Let_def)
  have s3: "stdin ?w3 = map Line us @ rest" by (simp add: py_print_def emit_def)
  have f3: "files ?w3 = files w" by (simp add: py_print_def emit_def)
  have t3: "trace ?w3 = trace w @ [Prompt (nl @ ''You: ''), Call k (m @ [(User, u)]) 1500,
                                    Print (nl @ ''AI: '' @ a)]"
    by (simp add: py_print_def emit_def)
  obtain w' es where ih: "chat_loop s k (m @ [(User, u), (Assistant, a)]) ?w3 = chat_loop s k m' w'"
    "stdin w' = rest" "files w' = files ?w3" "trace w' = trace ?w3 @ es" "written es = []"
    using Cons.IH[OF q s3] by blast
  have "trace w' = trace w @ ([Prompt (nl @ ''You: ''), Call k (m @ [(User, u)]) 1500,
                                    Print (nl @ ''AI: '' @ a)] @ es)"
    using ih(4) t3 by simp
  moreover have "written ([Prompt (nl @ ''You: ''), Call k (m @ [(User, u)]) 1500,
                                    Print (nl @ ''AI: '' @ a)] @ es) = []"
    using ih(5) by simp
  ultimately show ?case using r ih(1,2,3) f3 by metis
qed

lemma generate_start:
  "\<exists>w2 es1. generate_docker_compose s k rs ef w = chat_loop s k (start_messages w) w2 \<and>
     trace w2 = trace w @ es1 \<and> written es1 = [] \<and> stdin w2 = stdin w \<and> files w2 = files w"
proof -
  obtain es where es: "trace (snd (load_documentation w)) = trace w @ es" "written es = []"
    "files (snd (load_documentation w)) = files w" "stdin (snd (load_documentation w)) = stdin w"
    using load_documentation_trace[of w] by blast
  let ?w2 = "py_print (''AI: '' @ initial_message) (snd (load_documentation w))"
  have "generate_docker_compose s k rs ef w = chat_loop s k (start_messages w) ?w2"
    by (simp add: generate_docker_compose_def start_messages_def split: prod.splits)
  moreover have "trace ?w2 = trace w @ (es @ [Print (''AI: '' @ initial_message)])"
    using es(1) by (simp add: py_print_def emit_def)
  moreover have "written (es @ [Print (''AI: '' @ initial_message)]) = []"
    using es(2) by (simp add: written_append)
  moreover have "stdin ?w2 = stdin w" "files ?w2 = files w"
    using es(3,4) by (simp_all add: py_print_def emit_def)
  ultimately show ?thesis by blast
qed

text \<open>Where a run of \<^verbatim>\<open>generate_docker_compose\<close> stands after such lines.\<close>

lemma generate_after_quiet_turns:
  assumes "quiet_turns s k (start_messages w) us = Some m'" and "stdin w = map Line us @ rest"
  shows "\<exists>w' es. generate_docker_compose s k rs ef w = chat_loop s k m' w' \<and> stdin w' = rest \<and>
           files w' = files w \<and> trace w' = trace w @ es \<and> written es = []"
proof -
  obtain w2 es1 where g: "generate_docker_compose s k rs ef w = chat_loop s k (start_messages w) w2"
    "trace w2 = trace w @ es1" "written es1 = []" "stdin w2 = stdin w" "files w2 = files w"
    using generate_start[of s k rs ef w] by blast
  have s2: "stdin w2 = map Line us @ rest" using g(4) assms(2) by simp
  obtain w' es where q: "chat_loop s k (start_messages w) w2 = chat_loop s k m' w'"
    "stdin w' = rest" "files w' = files w2" "trace w' = trace w2 @ es" "written es = []"
    using quiet_turns_loop[OF assms(1) s2] by blast
  have "trace w' = trace w @ (es1 @ es)" using q(4) g(2) by simp
  moreover have "written (es1 @ es) = []" using g(3) q(5) by (simp add: written_append)
  ultimately show ?thesis using g(1,5) q(1,2,3) by metis
qed

lemma start_messages_banner: "files w' = files w \<Longrightarrow> start_messages w' = start_messages w"
  by (simp add: start_messages_def load_documentation_def load_repo_docs_def read_if_exists_def
      emit_def split: option.splits)

text \<open>
  Claim C8, as the code has it. The exit status is 0 or 1. It is 1 when the resolved
  credential is empty, and besides that exactly when \<^verbatim>\<open>ValueError\<close> or
  \<^verbatim>\<open>EOFError\<close> leaves \<^verbatim>\<open>main\<close>. That happens when the dotenv loader raises, when
  the input ends at the credential prompt, when the credential typed there holds a NUL
  character, and when the input ends at a \<^verbatim>\<open>You:\<close> prompt of the conversation loop.
  The status is 0 after a normal return (the user leaves with an exit keyword, for one),
  after a keyboard interruption, and whenever a call of the service has failed inside the
  loop.
\<close>

theorem exit_status:
  "(fst (script service a w) = 0 \<or> fst (script service a w) = 1) \<and>
   (fst (get_openai_key (banner w)) = Inr [] \<longrightarrow> fst (script service a w) = 1) \<and>
   (fst (script service a w) = 1 \<longleftrightarrow>
      fst (get_openai_key (banner w)) = Inr [] \<or>
      fst (main service a w) = Inl ValueError \<or> fst (main service a w) = Inl EOFError) \<and>
   (fst (main service a w) = Inr () \<or> fst (main service a w) = Inl KeyboardInterrupt \<longrightarrow>
      fst (script service a w) = 0) \<and>
   (fst (get_openai_key (banner w)) = Inr api_key \<and> api_key \<noteq> [] \<and>
    (k, m, n) \<in> set (calls (new_events (snd (get_openai_key (banner w)))
                               (snd (main service a w)))) \<and>
    service k m n = Failure e \<longrightarrow>
      fst (script service a w) = 0) \<and>
   ((environ w OPENAI_API_KEY = None \<or> environ w OPENAI_API_KEY = Some []) \<and>
    fst (load_env_vars w) = Inl ValueError \<longrightarrow>
      fst (script service a w) = 1) \<and>
   ((environ w OPENAI_API_KEY = None \<or> environ w OPENAI_API_KEY = Some []) \<and>
    (fst (load_env_vars w) = Inr None \<or> fst (load_env_vars w) = Inr (Some [])) \<longrightarrow>
      (stdin w = [] \<longrightarrow> fst (script service a w) = 1) \<and>
      (stdin w = Line l # rest \<and> strip l = [] \<longrightarrow> fst (script service a w) = 1) \<and>
      (stdin w = Line l # rest \<and> CHR 0x00 \<in> set (strip l) \<longrightarrow> fst (script service a w) = 1) \<and>
      (stdin w = Interrupt # rest \<longrightarrow> fst (script service a w) = 0)) \<and>
   (fst (get_openai_key (banner w)) = Inr api_key \<and> api_key \<noteq> [] \<and>
    quiet_turns service api_key (start_messages w) us = Some m' \<longrightarrow>
      (stdin (snd (get_openai_key (banner w))) = map Line us \<longrightarrow>
         fst (script service a w) = 1) \<and>
      (stdin (snd (get_openai_key (banner w))) = map Line us @ Line u # rest \<and>
       lower u \<in> set [''exit'', ''quit'', ''q''] \<longrightarrow>
         fst (script service a w) = 0) \<and>
      (stdin (snd (get_openai_key (banner w))) = map Line us @ Interrupt # rest \<longrightarrow>
         fst (script service a w) = 0)) \<and>
   (environ w OPENAI_API_KEY = Some api_key \<and> api_key \<noteq> [] \<and> stdin w = map Line us \<and>
    quiet_turns service api_key (start_messages w) us = Some m' \<longrightarrow>
      fst (script service a w) = 1)"
proof -
  have c1: "fst (script service a w) = 0 \<or> fst (script service a w) = 1"
    using main_result[of service a w] by (auto simp: script_status)
  have c2: "fst (script service a w) = 1" if "fst (get_openai_key (banner w)) = Inr []"
    using that main_cases[of w service a] by (simp add: script_status)
  have c3: "fst (script service a w) = 1 \<longleftrightarrow>
      fst (get_openai_key (banner w)) = Inr [] \<or>
      fst (main service a w) = Inl ValueError \<or> fst (main service a w) = Inl EOFError"
    using main_result[of service a w] main_cases[of w service a]
    by (auto simp: script_status)
  have c4: "fst (script service a w) = 0"
    if "fst (main service a w) = Inr () \<or> fst (main service a w) = Inl KeyboardInterrupt"
    using that by (auto simp: script_status)
  have c5: "fst (script service a w) = 0"
    if h: "fst (get_openai_key (banner w)) = Inr api_key \<and> api_key \<noteq> [] \<and>
      (k, m, n) \<in> set (calls (new_events (snd (get_openai_key (banner w)))
                               (snd (main service a w)))) \<and>
      service k m n = Failure e"
  proof -
    let ?w1 = "snd (get_openai_key (banner w))"
    have g: "main service a w =
        generate_docker_compose service api_key (reference a) (env_in_file a) ?w1"
      using h main_cases[of w service a] by simp
    obtain es where es: "trace (snd (main service a w)) = trace ?w1 @ es"
      "failure_free service es \<or> fst (main service a w) = Inr ()"
      using generate_shape[of service api_key "reference a" "env_in_file a" ?w1] g by auto
    have "new_events ?w1 (snd (main service a w)) = es" using es(1) by (simp add: new_events_def)
    then have "\<not> failure_free service es" using h failure_freeD by fastforce
    then have "fst (main service a w) = Inr ()" using es(2) by simp
    then show ?thesis by (simp add: script_status)
  qed
  have c6: "fst (script service a w) = 1"
    if "(environ w OPENAI_API_KEY = None \<or> environ w OPENAI_API_KEY = Some []) \<and>
        fst (load_env_vars w) = Inl ValueError"
    using that main_raises[of w ValueError service a] by (simp add: script_status)
  have c7: "(stdin w = [] \<longrightarrow> fst (script service a w) = 1) \<and>
      (stdin w = Line l # rest \<and> strip l = [] \<longrightarrow> fst (script service a w) = 1) \<and>
      (stdin w = Line l # rest \<and> CHR 0x00 \<in> set (strip l) \<longrightarrow> fst (script service a w) = 1) \<and>
      (stdin w = Interrupt # rest \<longrightarrow> fst (script service a w) = 0)"
    if h: "(environ w OPENAI_API_KEY = None \<or> environ w OPENAI_API_KEY = Some []) \<and>
      (fst (load_env_vars w) = Inr None \<or> fst (load_env_vars w) = Inr (Some []))"
  proof -
    obtain w1 where w1: "get_openai_key (banner w) = ask_key w1" "stdin w1 = stdin w"
      using key_from_prompt[of w] h by blast
    have e: "fst (script service a w) = 1" if "stdin w = []"
    proof -
      have "fst (get_openai_key (banner w)) = Inl EOFError"
        using w1 that ask_key_eof[of w1] by simp
      then have "fst (main service a w) = Inl EOFError" using main_cases[of w service a] by simp
      then show ?thesis by (simp add: script_status)
    qed
    have b: "fst (script service a w) = 1" if "stdin w = Line l # rest \<and> strip l = []"
    proof -
      have "fst (get_openai_key (banner w)) = Inr []"
        using w1 that ask_key_line[of w1 l rest] by simp
      then show ?thesis using c2 by simp
    qed
    have z: "fst (script service a w) = 1" if "stdin w = Line l # rest \<and> CHR 0x00 \<in> set (strip l)"
    proof -
      have "fst (get_openai_key (banner w)) = Inl ValueError"
        using w1 that ask_key_line[of w1 l rest] by simp
      then have "fst (main service a w) = Inl ValueError" using main_cases[of w service a] by simp
      then show ?thesis by (simp add: script_status)
    qed
    have i: "fst (script service a w) = 0" if "stdin w = Interrupt # rest"
    proof -
      have "fst (get_openai_key (banner w)) = Inl KeyboardInterrupt"
        using w1 that by (simp add: ask_key_def py_input_def py_print_def emit_def)
      then have "fst (main service a w) = Inl KeyboardInterrupt"
        using main_cases[of w service a] by simp
      then show ?thesis by (simp add: script_status)
    qed
    show ?thesis using e b z i by blast
  qed
  have c8: "(stdin (snd (get_openai_key (banner w))) = map Line us \<longrightarrow>
         fst (script service a w) = 1) \<and>
      (stdin (snd (get_openai_key (banner w))) = map Line us @ Line u # rest \<and>
       lower u \<in> set [''exit'', ''quit'', ''q''] \<longrightarrow>
         fst (script service a w) = 0) \<and>
      (stdin (snd (get_openai_key (banner w))) = map Line us @ Interrupt # rest \<longrightarrow>
         fst (script service a w) = 0)"
    if h: "fst (get_openai_key (banner w)) = Inr api_key \<and> api_key \<noteq> [] \<and>
      quiet_turns service api_key (start_messages w) us = Some m'"
  proof -
    let ?w1 = "snd (get_openai_key (banner w))"
    have g: "main service a w =
        generate_docker_compose service api_key (reference a) (env_in_file a) ?w1"
      using h main_cases[of w service a] by simp
    have fk: "files ?w1 = files w"
    proof -
      have "files (snd (get_openai_key v)) = files v" for v
        using load_env_vars_keeps[of v]
        by (auto simp: get_openai_key_def ask_key_def py_input_def py_print_def emit_def
            environ_set_def Let_def
            split: option.splits prod.splits sum.splits list.splits stdin_event.splits if_splits)
      then show ?thesis by (simp add: banner_keeps)
    qed
    have q: "quiet_turns service api_key (start_messages ?w1) us = Some m'"
      using h start_messages_banner[OF fk] by simp
    have e: "fst (script service a w) = 1" if s: "stdin ?w1 = map Line us"
    proof -
      obtain w' where "generate_docker_compose service api_key (reference a) (env_in_file a) ?w1 =
          chat_loop service api_key m' w'" "stdin w' = []"
        using generate_after_quiet_turns[OF q, of "[]" "reference a" "env_in_file a"] s by auto
      then have "fst (main service a w) = Inl EOFError"
        using g chat_loop_eof[of w' service api_key m'] by simp
      then show ?thesis by (simp add: script_status)
    qed
    have x: "fst (script service a w) = 0"
      if s: "stdin ?w1 = map Line us @ Line u # rest \<and> lower u \<in> set [''exit'', ''quit'', ''q'']"
    proof -
      obtain w' where "generate_docker_compose service api_key (reference a) (env_in_file a) ?w1 =
          chat_loop service api_key m' w'" "stdin w' = Line u # rest"
        using generate_after_quiet_turns[OF q, of "Line u # rest" "reference a" "env_in_file a"] s
        by auto
      then have "fst (main service a w) = Inr ()"
        using g s chat_loop_exit[of w' u rest service api_key m'] by simp
      then show ?thesis by (simp add: script_status)
    qed
    have i: "fst (script service a w) = 0" if s: "stdin ?w1 = map Line us @ Interrupt # rest"
    proof -
      obtain w' where "generate_docker_compose service api_key (reference a) (env_in_file a) ?w1 =
          chat_loop service api_key m' w'" "stdin w' = Interrupt # rest"
        using generate_after_quiet_turns[OF q, of "Interrupt # rest" "reference a" "env_in_file a"] s
        by auto
      then have "fst (main service a w) = Inl KeyboardInterrupt"
        using g chat_loop_interrupt[of w' rest service api_key m'] by simp
      then show ?thesis by (simp add: script_status)
    qed
    show ?thesis using e x i by blast
  qed
  have c9: "fst (script service a w) = 1"
    if h: "environ w OPENAI_API_KEY = Some api_key \<and> api_key \<noteq> [] \<and> stdin w = map Line us \<and>
      quiet_turns service api_key (start_messages w) us = Some m'"
  proof -
    have "get_openai_key (banner w) = (Inr api_key, banner w)"
      using h by (simp add: get_openai_key_def banner_keeps)
    then show ?thesis using c8 h by (simp add: banner_keeps)
  qed
  show ?thesis using c1 c2 c3 c4 c5 c6 c7 c8 c9 by blast
qed

lemma key_from_environment:
  "get_openai_key (banner world_key_no_input) = (Inr ''sk-1'', banner world_key_no_input)"
  "get_openai_key (banner world_key_hello) = (Inr ''sk-1'', banner world_key_hello)"
  by (simp_all add: get_openai_key_def banner_def py_print_def emit_def
      world_key_no_input_def world_key_hello_def world0_def)

lemma blank_answer_no_key: "fst (get_openai_key (banner world_blank_answer)) = Inr []"
  by (simp add: get_openai_key_def load_env_vars_def ask_key_def py_input_def banner_def
      py_print_def emit_def world_blank_answer_def world0_def strip_def strip_chars_def
      is_space_def environ_set_key Let_def)

theorem exit_status_witness:
  "fst (get_openai_key (banner world_blank_answer)) = Inr [] \<and>
   fst (script offline_service default_args world_blank_answer) = 1 \<and>
   fst (get_openai_key (banner world_key_hello)) = Inr ''sk-1'' \<and>
   fst (script offline_service default_args world_key_hello) = 0 \<and>
   fst (script offline_service default_args world0) = 1 \<and>
   fst (script offline_service default_args world_nul_answer) = 1 \<and>
   fst (script chatty_service default_args world_key_hello) = 1"
proof -
  have one: "fst (script offline_service default_args world_blank_answer) = 1"
    using exit_status[where service = offline_service and a = default_args
        and w = world_blank_answer] blank_answer_no_key
    by blast
  define M where "M = [(System, system_prompt (fst (fst (load_documentation (banner world_key_hello))))
                                 (snd (fst (load_documentation (banner world_key_hello))))),
                      (Assistant, initial_message)]"
  have sh: "stdin (banner world_key_hello) = Line ''hello'' # []"
    by (simp add: banner_def py_print_def emit_def world_key_hello_def world0_def)
  have mg: "main offline_service default_args world_key_hello =
        generate_docker_compose offline_service ''sk-1'' (reference default_args)
          (env_in_file default_args) (banner world_key_hello)"
    using main_cases[of world_key_hello offline_service default_args] key_from_environment(2)
    by simp
  obtain w2 es1 where g:
    "generate_docker_compose offline_service ''sk-1'' (reference default_args)
          (env_in_file default_args) (banner world_key_hello) =
       chat_loop offline_service ''sk-1'' M w2"
    "trace w2 = trace (banner world_key_hello) @ es1" "stdin w2 = stdin (banner world_key_hello)"
    using generate_as_loop[of offline_service "''sk-1''" "reference default_args"
        "env_in_file default_args" "banner world_key_hello"]
    unfolding M_def by blast
  have "trace (snd (chat_loop offline_service ''sk-1'' M w2)) =
          trace w2 @ [Prompt (nl @ ''You: ''), Call ''sk-1'' (M @ [(User, ''hello'')]) 1500,
                      Print (''Error: '' @ ''Connection error.'')]"
    using turn_failure_trace[of w2 "''hello''" "[]" offline_service "''sk-1''" M
        "''Connection error.''"] g(3) sh lower_hello
    by (simp add: offline_service_def)
  then have c: "(''sk-1'', M @ [(User, ''hello'')], 1500) \<in>
      set (calls (new_events (snd (get_openai_key (banner world_key_hello)))
                    (snd (main offline_service default_args world_key_hello))))"
    using g(1,2) mg key_from_environment(2) by (simp add: new_events_def calls_append)
  have f: "offline_service ''sk-1'' (M @ [(User, ''hello'')]) 1500 = Failure ''Connection error.''"
    by (simp add: offline_service_def)
  have k: "fst (get_openai_key (banner world_key_hello)) = Inr ''sk-1'' \<and> ''sk-1'' \<noteq> []"
    using key_from_environment(2) by simp
  have zero: "fst (script offline_service default_args world_key_hello) = 0"
    using exit_status[where service = offline_service and a = default_args
        and w = world_key_hello and api_key = "''sk-1''" and k = "''sk-1''"
        and m = "M @ [(User, ''hello'')]" and n = 1500 and e = "''Connection error.''"] k c f
    by blast
  have ne0: "environ world0 OPENAI_API_KEY = None \<or> environ world0 OPENAI_API_KEY = Some []"
    "fst (load_env_vars world0) = Inr None \<or> fst (load_env_vars world0) = Inr (Some [])"
    "stdin world0 = []"
    by (simp_all add: world0_def load_env_vars_def)
  have eof_key: "fst (script offline_service default_args world0) = 1"
    using exit_status[where service = offline_service and a = default_args and w = world0] ne0
    by blast
  have nn: "environ world_nul_answer OPENAI_API_KEY = None \<or>
            environ world_nul_answer OPENAI_API_KEY = Some []"
    "fst (load_env_vars world_nul_answer) = Inr None \<or>
     fst (load_env_vars world_nul_answer) = Inr (Some [])"
    "stdin world_nul_answer = Line (''sk'' @ [CHR 0x00] @ ''1'') # [] \<and>
     CHR 0x00 \<in> set (strip (''sk'' @ [CHR 0x00] @ ''1''))"
    by (simp_all add: world_nul_answer_def world0_def load_env_vars_def strip_def strip_chars_def
        is_space_def)
  have nul: "fst (script offline_service default_args world_nul_answer) = 1"
    using exit_status[where service = offline_service and a = default_args
        and w = world_nul_answer and l = "''sk'' @ [CHR 0x00] @ ''1''" and rest = "[]"] nn
    by blast
  have q: "environ world_key_hello OPENAI_API_KEY = Some ''sk-1'' \<and> ''sk-1'' \<noteq> [] \<and>
      stdin world_key_hello = map Line [''hello''] \<and>
      quiet_turns chatty_service ''sk-1'' (start_messages world_key_hello) [''hello''] =
        Some (start_messages world_key_hello @
                [(User, ''hello''), (Assistant, ''Which database do you prefer?'')])"
    by (simp add: world_key_hello_def world0_def chatty_service_def sentinel_def
        lower_def lower_char_def)
  have eof_loop: "fst (script chatty_service default_args world_key_hello) = 1"
    using exit_status[where service = chatty_service and a = default_args
        and w = world_key_hello and api_key = "''sk-1''" and us = "[''hello'']"
        and m' = "start_messages world_key_hello @
                [(User, ''hello''), (Assistant, ''Which database do you prefer?'')]"] q
    by blast
  show ?thesis using one zero eof_key nul eof_loop blank_answer_no_key k by blast
qed

text \<open>
  The credential is resolved from the environment, the input ends at the first
  conversation prompt: \<^verbatim>\<open>EOFError\<close> leaves \<^verbatim>\<open>main\<close> and the status is 1.
\<close>

theorem end_of_input_exits_with_one:
  "fst (get_openai_key (banner world_key_no_input)) = Inr ''sk-1'' \<and>
   fst (main offline_service default_args world_key_no_input) = Inl EOFError \<and>
   fst (script offline_service default_args world_key_no_input) = 1"
proof -
  have k: "fst (get_openai_key (banner world_key_no_input)) = Inr ''sk-1''"
    using key_from_environment(1) by simp
  have mg: "main offline_service default_args world_key_no_input =
        generate_docker_compose offline_service ''sk-1'' (reference default_args)
          (env_in_file default_args) (banner world_key_no_input)"
    using main_cases[of world_key_no_input offline_service default_args] key_from_environment(1)
    by simp
  obtain w2 es1 M where g:
    "generate_docker_compose offline_service ''sk-1'' (reference default_args)
          (env_in_file default_args) (banner world_key_no_input) =
       chat_loop offline_service ''sk-1'' M w2"
    "stdin w2 = stdin (banner world_key_no_input)"
    using generate_as_loop[of offline_service "''sk-1''" "reference default_args"
        "env_in_file default_args" "banner world_key_no_input"]
    by blast
  have "stdin w2 = []"
    using g(2) by (simp add: banner_def py_print_def emit_def world_key_no_input_def world0_def)
  then have m: "fst (main offline_service default_args world_key_no_input) = Inl EOFError"
    using mg g(1) chat_loop_eof[of w2 offline_service "''sk-1''" M] by simp
  then have "fst (script offline_service default_args world_key_no_input) = 1"
    by (simp add: script_status)
  then show ?thesis using k m by blast
qed

subsection \<open>The command-line flag and the files written\<close>

lemma new_events_trans:
  "trace w1 = trace w @ pre \<Longrightarrow> trace w' = trace w1 @ es \<Longrightarrow>
   new_events w w' = pre @ new_events w1 w'"
  by (simp add: new_events_def)

lemma finalize_writes:
  "written (new_events w (snd (finalize s k m w))) = [] \<or>
   (\<exists>g. s k (m @ [(User, final_prompt)]) 2000 = Reply g \<and>
      written (new_events w (snd (finalize s k m w))) =
        (docker_compose_path, fst (extract_blocks g)) #
        (if snd (extract_blocks g) \<noteq> [] then [(env_path, snd (extract_blocks g))] else []))"
proof (cases "s k (m @ [(User, final_prompt)]) 2000")
  case (Reply g)
  let ?w1 = "emit (Call k (m @ [(User, final_prompt)]) 2000) w"
  have f: "finalize s k m w = handle_reply g ?w1"
    using Reply by (simp add: finalize_def Let_def)
  obtain es where es: "trace (snd (handle_reply g ?w1)) = trace ?w1 @ es"
    using handle_reply_trace[of g ?w1] by blast
  have "new_events w (snd (handle_reply g ?w1)) =
          [Call k (m @ [(User, final_prompt)]) 2000] @ new_events ?w1 (snd (handle_reply g ?w1))"
    using new_events_trans[OF _ es, of w "[Call k (m @ [(User, final_prompt)]) 2000]"]
    by (simp add: emit_def)
  then have "written (new_events w (snd (finalize s k m w))) =
        (docker_compose_path, fst (extract_blocks g)) #
        (if snd (extract_blocks g) \<noteq> [] then [(env_path, snd (extract_blocks g))] else [])"
    using f handle_reply_effects(1)[OF prod.collapse[symmetric], where g = g and w = ?w1] by simp
  then show ?thesis using Reply by blast
next
  case (Failure e)
  then show ?thesis
    by (simp add: finalize_def Let_def emit_def py_print_def new_events_def)
next
  case Interrupted
  then show ?thesis
    by (simp add: finalize_def Let_def emit_def new_events_def)
qed

lemma chat_loop_writes:
  "written (new_events w (snd (chat_loop s k m w))) = [] \<or>
   (\<exists>g m'. s k m' 2000 = Reply g \<and>
      written (new_events w (snd (chat_loop s k m w))) =
        (docker_compose_path, fst (extract_blocks g)) #
        (if snd (extract_blocks g) \<noteq> [] then [(env_path, snd (extract_blocks g))] else []))"
proof (induction "stdin w" arbitrary: w m)
  case Nil
  then have "chat_loop s k m w = (Inl EOFError, emit (Prompt (nl @ ''You: '')) w)"
    using chat_loop_eof by simp
  then show ?case by (simp add: emit_def new_events_def)
next
  case (Cons ev rest)
  then have sw: "stdin w = ev # rest" by simp
  let ?w1 = "(emit (Prompt (nl @ ''You: '')) w)\<lparr>stdin := rest\<rparr>"
  show ?case
  proof (cases ev)
    case Interrupt
    then have "chat_loop s k m w = (Inl KeyboardInterrupt, ?w1)"
      using sw chat_loop_interrupt by simp
    then show ?thesis by (simp add: emit_def new_events_def)
  next
    case (Line u)
    then have su: "stdin w = Line u # rest" using sw by simp
    show ?thesis
    proof (cases "lower u \<in> set [''exit'', ''quit'', ''q'']")
      case True
      then have "chat_loop s k m w = (Inr (), py_print ''Exiting generator.'' ?w1)"
        using su chat_loop_exit by simp
      then show ?thesis by (simp add: emit_def py_print_def new_events_def)
    next
      case False
      let ?m1 = "m @ [(User, u)]"
      let ?w2 = "emit (Call k ?m1 1500) ?w1"
      show ?thesis
      proof (cases "s k ?m1 1500")
        case (Failure e)
        have "chat_loop s k m w = (Inr (), py_print (''Error: '' @ e) ?w2)"
          using chat_loop_failure[where s = s and k = k and m = m, OF su False Failure] .
        then show ?thesis by (simp add: emit_def py_print_def new_events_def)
      next
        case Interrupted
        have "chat_loop s k m w = (Inl KeyboardInterrupt, ?w2)"
          using chat_loop_interrupted[where s = s and k = k and m = m, OF su False Interrupted] .
        then show ?thesis by (simp add: emit_def new_events_def)
      next
        case (Reply a)
        let ?m2 = "m @ [(User, u), (Assistant, a)]"
        let ?w3 = "py_print (nl @ ''AI: '' @ a) ?w2"
        let ?pre = "[Prompt (nl @ ''You: ''), Call k ?m1 1500, Print (nl @ ''AI: '' @ a)]"
        have t3: "trace ?w3 = trace w @ ?pre" by (simp add: emit_def py_print_def)
        have s3: "rest = stdin ?w3" by (simp add: emit_def py_print_def)
        have r: "chat_loop s k m w =
                  (if contains a sentinel then finalize s k ?m2 ?w3 else chat_loop s k ?m2 ?w3)"
          using chat_loop_reply[where s = s and k = k and m = m, OF su False Reply]
          by (simp add: Let_def)
        show ?thesis
        proof (cases "contains a sentinel")
          case True
          then have rr: "chat_loop s k m w = finalize s k ?m2 ?w3" using r by simp
          obtain es where es: "trace (snd (finalize s k ?m2 ?w3)) = trace ?w3 @ es"
            using finalize_shape[of s k ?m2 ?w3] by blast
          have "written (new_events w (snd (chat_loop s k m w))) =
                  written (new_events ?w3 (snd (finalize s k ?m2 ?w3)))"
            using new_events_trans[OF t3 es] rr by (simp add: written_append)
          then show ?thesis using finalize_writes[of ?w3 s k ?m2] by auto
        next
          case False
          then have rr: "chat_loop s k m w = chat_loop s k ?m2 ?w3" using r by simp
          obtain es where es: "trace (snd (chat_loop s k ?m2 ?w3)) = trace ?w3 @ es"
            using chat_loop_shape[of s k ?m2 ?w3] by blast
          have "written (new_events w (snd (chat_loop s k m w))) =
                  written (new_events ?w3 (snd (chat_loop s k ?m2 ?w3)))"
            using new_events_trans[OF t3 es] rr by (simp add: written_append)
          then show ?thesis using Cons.hyps(1)[OF s3, of ?m2] by auto
        qed
      qed
    qed
  qed
qed

lemma generate_writes:
  "written (new_events w (snd (generate_docker_compose s k rs ef w))) = [] \<or>
   (\<exists>g m'. s k m' 2000 = Reply g \<and>
      written (new_events w (snd (generate_docker_compose s k rs ef w))) =
        (docker_compose_path, fst (extract_blocks g)) #
        (if snd (extract_blocks g) \<noteq> [] then [(env_path, snd (extract_blocks g))] else []))"
proof -
  obtain es1 where es1: "trace (snd (load_documentation w)) = trace w @ es1" "written es1 = []"
    using load_documentation_trace[of w] by blast
  let ?w2 = "py_print (''AI: '' @ initial_message) (snd (load_documentation w))"
  let ?M = "[(System, system_prompt (fst (fst (load_documentation w)))
                                 (snd (fst (load_documentation w)))),
                      (Assistant, initial_message)]"
  have g: "generate_docker_compose s k rs ef w = chat_loop s k ?M ?w2"
    by (simp add: generate_docker_compose_def split: prod.splits)
  have t2: "trace ?w2 = trace w @ (es1 @ [Print (''AI: '' @ initial_message)])"
    using es1(1) by (simp add: py_print_def emit_def)
  obtain es where es: "trace (snd (chat_loop s k ?M ?w2)) = trace ?w2 @ es"
    using chat_loop_shape[of s k ?M ?w2] by blast
  have "written (new_events w (snd (generate_docker_compose s k rs ef w))) =
          written (new_events ?w2 (snd (chat_loop s k ?M ?w2)))"
    using new_events_trans[OF t2 es] g es1(2) by (simp add: written_append)
  then show ?thesis using chat_loop_writes[of ?w2 s k ?M] by auto
qed

lemma env_text_cases:
  "snd (extract_blocks g) = (if contains g env_marker then block_after env_marker g [] else [])"
  by (simp add: extract_blocks_def Let_def)

text \<open>A marker that no fence closes: the block runs to the end of the reply.\<close>

lemma block_after_unclosed:
  assumes "\<not> contains (pre @ butlast (fence @ tag)) (fence @ tag)"
    and "\<not> contains post fence"
  shows "block_after (fence @ tag) (pre @ (fence @ tag) @ post) old = strip post"
proof -
  have ne: "fence @ tag \<noteq> []" by (simp add: fence_def)
  have "\<not> contains post (fence @ tag)"
    using assms(2) unfolding contains_iff by (metis append.assoc)
  then have "py_split post (fence @ tag) = [post]" by (rule py_split_absent)
  moreover have "py_split post fence = [post]" using assms(2) by (rule py_split_absent)
  ultimately show ?thesis
    using block_after_first[OF ne assms(1), of post old] by simp
qed

text \<open>A run that reaches the reply to the finalize request writes what that reply holds.\<close>

lemma generate_writes_reply:
  assumes "quiet_turns s k (start_messages w) us = Some m'"
    and "stdin w = map Line us @ Line u # rest"
    and "lower u \<notin> set [''exit'', ''quit'', ''q'']"
    and "s k (m' @ [(User, u)]) 1500 = Reply announce"
    and "contains announce sentinel"
    and "s k (m' @ [(User, u), (Assistant, announce), (User, final_prompt)]) 2000 = Reply final"
  shows "written (new_events w (snd (generate_docker_compose s k rs ef w))) =
           (docker_compose_path, fst (extract_blocks final)) #
           (if snd (extract_blocks final) \<noteq> [] then [(env_path, snd (extract_blocks final))] else [])"
    and "files (snd (generate_docker_compose s k rs ef w)) docker_compose_path =
           Some (fst (extract_blocks final))"
    and "files (snd (generate_docker_compose s k rs ef w)) env_path =
           (if snd (extract_blocks final) \<noteq> [] then Some (snd (extract_blocks final))
            else files w env_path)"
proof -
  obtain w' es where q: "generate_docker_compose s k rs ef w = chat_loop s k m' w'"
    "stdin w' = Line u # rest" "files w' = files w" "trace w' = trace w @ es" "written es = []"
    using generate_after_quiet_turns[OF assms(1,2), of rs ef] by blast
  let ?w3 = "py_print (nl @ ''AI: '' @ announce)
               (emit (Call k (m' @ [(User, u)]) 1500)
                  ((emit (Prompt (nl @ ''You: '')) w')\<lparr>stdin := rest\<rparr>))"
  let ?w4 = "emit (Call k (m' @ [(User, u), (Assistant, announce), (User, final_prompt)]) 2000) ?w3"
  let ?pre = "es @ [Prompt (nl @ ''You: ''), Call k (m' @ [(User, u)]) 1500,
                    Print (nl @ ''AI: '' @ announce),
                    Call k (m' @ [(User, u), (Assistant, announce), (User, final_prompt)]) 2000]"
  have "chat_loop s k m' w' = finalize s k (m' @ [(User, u), (Assistant, announce)]) ?w3"
    using chat_loop_reply[where s = s and k = k and m = m', OF q(2) assms(3,4)] assms(5)
    by (simp add: Let_def)
  then have g: "generate_docker_compose s k rs ef w = handle_reply final ?w4"
    using q(1) assms(6) by (simp add: finalize_def Let_def)
  have t4: "trace ?w4 = trace w @ ?pre" using q(4) by (simp add: py_print_def emit_def)
  have f4: "files ?w4 = files w" using q(3) by (simp add: py_print_def emit_def)
  have wp: "written ?pre = []" using q(5) by (simp add: written_append)
  obtain es' where es': "trace (snd (handle_reply final ?w4)) = trace ?w4 @ es'"
    using handle_reply_trace[of final ?w4] by blast
  have "new_events w (snd (handle_reply final ?w4)) =
          ?pre @ new_events ?w4 (snd (handle_reply final ?w4))"
    using new_events_trans[OF t4 es'] .
  then show "written (new_events w (snd (generate_docker_compose s k rs ef w))) =
           (docker_compose_path, fst (extract_blocks final)) #
           (if snd (extract_blocks final) \<noteq> [] then [(env_path, snd (extract_blocks final))] else [])"
    using g wp handle_reply_effects(1)[OF prod.collapse[symmetric], where g = final and w = ?w4]
    by (simp add: written_append)
  have fs: "files (snd (generate_docker_compose s k rs ef w)) =
      files (save_outputs (fst (extract_blocks final)) (snd (extract_blocks final)) ?w4)"
    using g handle_reply_effects(2)[OF prod.collapse[symmetric], where g = final and w = ?w4]
    by simp
  show "files (snd (generate_docker_compose s k rs ef w)) docker_compose_path =
           Some (fst (extract_blocks final))"
    using fs paths_differ by (simp add: files_save_outputs)
  show "files (snd (generate_docker_compose s k rs ef w)) env_path =
           (if snd (extract_blocks final) \<noteq> [] then Some (snd (extract_blocks final))
            else files w env_path)"
    using fs f4 paths_differ by (simp add: files_save_outputs)
qed

text \<open>
  Claim C9, as the code has it. The parameter \<^verbatim>\<open>env_vars_in_file\<close> is never read:
  with and without \<^verbatim>\<open>--env-in-file\<close> the function, and the whole script, give the same
  result in the same world. A run that reaches the reply to the finalize request writes the
  configuration file and, exactly when the environment text extracted from that reply is not
  empty, the environment-variable file; no run writes anything else. The environment
  text is empty when the reply has no \<^verbatim>\<open>```env\<close> marker; it is the trimmed body of the
  first \<^verbatim>\<open>```env\<close> block when a fence of exactly three backticks closes that block, and
  the trimmed rest of the reply when no fence follows the first marker.
\<close>

theorem env_in_file_flag_ignored:
  "generate_docker_compose service api_key reference_source True w =
     generate_docker_compose service api_key reference_source False w \<and>
   script service (a\<lparr>env_in_file := True\<rparr>) w = script service (a\<lparr>env_in_file := False\<rparr>) w \<and>
   (written (new_events w
       (snd (generate_docker_compose service api_key reference_source env_vars_in_file w))) = [] \<or>
    (\<exists>g' m. service api_key m 2000 = Reply g' \<and>
       written (new_events w
         (snd (generate_docker_compose service api_key reference_source env_vars_in_file w))) =
         (docker_compose_path, fst (extract_blocks g')) #
         (if snd (extract_blocks g') \<noteq> [] then [(env_path, snd (extract_blocks g'))] else []))) \<and>
   (quiet_turns service api_key (start_messages w) us = Some m' \<and>
    stdin w = map Line us @ Line u # rest \<and>
    lower u \<notin> set [''exit'', ''quit'', ''q''] \<and>
    service api_key (m' @ [(User, u)]) 1500 = Reply announce \<and>
    contains announce sentinel \<and>
    service api_key (m' @ [(User, u), (Assistant, announce), (User, final_prompt)]) 2000 =
      Reply final \<longrightarrow>
      written (new_events w
        (snd (generate_docker_compose service api_key reference_source env_vars_in_file w))) =
        (docker_compose_path, fst (extract_blocks final)) #
        (if snd (extract_blocks final) \<noteq> [] then [(env_path, snd (extract_blocks final))] else []) \<and>
      files (snd (generate_docker_compose service api_key reference_source env_vars_in_file w))
        docker_compose_path = Some (fst (extract_blocks final)) \<and>
      files (snd (generate_docker_compose service api_key reference_source env_vars_in_file w))
        env_path =
        (if snd (extract_blocks final) \<noteq> [] then Some (snd (extract_blocks final))
         else files w env_path)) \<and>
   ((\<exists>c. (env_path, c) \<in> set (written (new_events w (snd (handle_reply g w))))) \<longleftrightarrow>
      snd (extract_blocks g) \<noteq> []) \<and>
   (\<not> contains g env_marker \<longrightarrow> snd (extract_blocks g) = []) \<and>
   (opens_block env_marker g pre body rest' \<longrightarrow> snd (extract_blocks g) = strip body) \<and>
   (g = pre @ env_marker @ post \<and> \<not> contains (pre @ butlast env_marker) env_marker \<and>
    \<not> contains post fence \<longrightarrow>
      snd (extract_blocks g) = strip post)"
proof (intro conjI impI)
  show "generate_docker_compose service api_key reference_source True w =
     generate_docker_compose service api_key reference_source False w"
    by (simp add: generate_docker_compose_def)
  have "main service (a\<lparr>env_in_file := True\<rparr>) w = main service (a\<lparr>env_in_file := False\<rparr>) w"
    by (auto simp: main_def Let_def generate_docker_compose_def split: prod.splits sum.splits)
  then show "script service (a\<lparr>env_in_file := True\<rparr>) w =
      script service (a\<lparr>env_in_file := False\<rparr>) w"
    by (simp add: script_def)
  show "written (new_events w
       (snd (generate_docker_compose service api_key reference_source env_vars_in_file w))) = [] \<or>
    (\<exists>g' m. service api_key m 2000 = Reply g' \<and>
       written (new_events w
         (snd (generate_docker_compose service api_key reference_source env_vars_in_file w))) =
         (docker_compose_path, fst (extract_blocks g')) #
         (if snd (extract_blocks g') \<noteq> [] then [(env_path, snd (extract_blocks g'))] else []))"
    using generate_writes[of w service api_key reference_source env_vars_in_file] .
  show "(\<exists>c. (env_path, c) \<in> set (written (new_events w (snd (handle_reply g w))))) \<longleftrightarrow>
      snd (extract_blocks g) \<noteq> []"
    using handle_reply_effects(1)[OF prod.collapse[symmetric], where g = g and w = w] paths_differ
    by auto
  show "snd (extract_blocks g) = []" if "\<not> contains g env_marker"
    using that by (simp add: env_text_cases)
  show "snd (extract_blocks g) = strip body" if "opens_block env_marker g pre body rest'"
    using that opens_block_text(1)[of "''env''" g pre body rest']
      opens_block_text(2)[of "''env''" g pre body rest' "[]"]
    by (simp add: env_text_cases marker_forms)
  show "snd (extract_blocks g) = strip post"
    if h: "g = pre @ env_marker @ post \<and> \<not> contains (pre @ butlast env_marker) env_marker \<and>
      \<not> contains post fence"
  proof -
    have "contains g env_marker"
      using h contains_first[of pre env_marker post] by simp
    moreover have "block_after env_marker g [] = strip post"
      using block_after_unclosed[of pre "''env''" post "[]"] h by (simp add: marker_forms)
    ultimately show ?thesis by (simp add: env_text_cases)
  qed
next
  assume h: "quiet_turns service api_key (start_messages w) us = Some m' \<and>
    stdin w = map Line us @ Line u # rest \<and>
    lower u \<notin> set [''exit'', ''quit'', ''q''] \<and>
    service api_key (m' @ [(User, u)]) 1500 = Reply announce \<and>
    contains announce sentinel \<and>
    service api_key (m' @ [(User, u), (Assistant, announce), (User, final_prompt)]) 2000 =
      Reply final"
  note r = generate_writes_reply[where s = service and k = api_key and w = w and us = us
      and m' = m' and u = u and rest = rest and announce = announce and final = final
      and rs = reference_source and ef = env_vars_in_file]
  show "written (new_events w
        (snd (generate_docker_compose service api_key reference_source env_vars_in_file w))) =
        (docker_compose_path, fst (extract_blocks final)) #
        (if snd (extract_blocks final) \<noteq> [] then [(env_path, snd (extract_blocks final))] else [])"
    using r(1) h by blast
  show "files (snd (generate_docker_compose service api_key reference_source env_vars_in_file w))
        docker_compose_path = Some (fst (extract_blocks final))"
    using r(2) h by blast
  show "files (snd (generate_docker_compose service api_key reference_source env_vars_in_file w))
        env_path =
        (if snd (extract_blocks final) \<noteq> [] then Some (snd (extract_blocks final))
         else files w env_path)"
    using r(3) h by blast
qed

lemma extract_two_blocks: "extract_blocks reply_two_blocks = (''FOO'', ''BAR'')"
  by (simp add: reply_two_blocks_def extract_blocks_def block_after_def block_text_def
      docker_compose_marker_def env_marker_def yaml_marker_def fence_def nl_def
      strip_def strip_chars_def is_space_def)

theorem env_in_file_flag_ignored_witness:
  "script offline_service (default_args\<lparr>env_in_file := True\<rparr>) world_key_hello =
     script offline_service (default_args\<lparr>env_in_file := False\<rparr>) world_key_hello \<and>
   written (new_events world_key_hello_no
     (snd (generate_docker_compose obliging_service ''sk-1'' Static True world_key_hello_no))) =
     [(docker_compose_path, ''FOO''), (env_path, ''BAR'')] \<and>
   files (snd (generate_docker_compose obliging_service ''sk-1'' Static True world_key_hello_no))
     env_path = Some ''BAR'' \<and>
   \<not> contains ''plain text'' env_marker \<and>
   snd (extract_blocks ''plain text'') = [] \<and>
   (\<forall>c. (env_path, c) \<notin> set (written (new_events world0 (snd (handle_reply ''plain text'' world0))))) \<and>
   opens_block env_marker reply_two_blocks
     (''```docker-compose'' @ nl @ ''FOO'' @ nl @ ''```'' @ nl) (nl @ ''BAR'' @ nl) [] \<and>
   snd (extract_blocks reply_two_blocks) = ''BAR'' \<and>
   (\<exists>c. (env_path, c) \<in> set (written (new_events world0 (snd (handle_reply reply_two_blocks world0))))) \<and>
   snd (extract_blocks reply_unclosed_env) = ''KEY=1''"
proof -
  have n: "\<not> contains ''plain text'' env_marker" by (simp add: env_marker_def)
  have ob: "opens_block env_marker reply_two_blocks
     (''```docker-compose'' @ nl @ ''FOO'' @ nl @ ''```'' @ nl) (nl @ ''BAR'' @ nl) []"
    by (simp add: opens_block_def reply_two_blocks_def env_marker_def fence_def nl_def)
  have sb: "strip (nl @ ''BAR'' @ nl) = ''BAR''"
    by (simp add: strip_def strip_chars_def is_space_def nl_def)
  have un: "reply_unclosed_env = [] @ env_marker @ (nl @ ''KEY=1'') \<and>
      \<not> contains ([] @ butlast env_marker) env_marker \<and> \<not> contains (nl @ ''KEY=1'') fence"
    by (simp add: reply_unclosed_env_def env_marker_def fence_def nl_def)
  have su: "strip (nl @ ''KEY=1'') = ''KEY=1''"
    by (simp add: strip_def strip_chars_def is_space_def nl_def)
  have run: "quiet_turns obliging_service ''sk-1'' (start_messages world_key_hello_no) [] =
               Some (start_messages world_key_hello_no) \<and>
      stdin world_key_hello_no = map Line [] @ Line ''hello'' # [Line ''no''] \<and>
      lower ''hello'' \<notin> set [''exit'', ''quit'', ''q''] \<and>
      obliging_service ''sk-1'' (start_messages world_key_hello_no @ [(User, ''hello'')]) 1500 =
        Reply (''Thanks. '' @ sentinel @ ''.'') \<and>
      contains (''Thanks. '' @ sentinel @ ''.'') sentinel \<and>
      obliging_service ''sk-1''
        (start_messages world_key_hello_no @
           [(User, ''hello''), (Assistant, ''Thanks. '' @ sentinel @ ''.''), (User, final_prompt)])
        2000 = Reply reply_two_blocks"
    using lower_hello contains_first[of "''Thanks. ''" sentinel "''.''"]
    by (simp add: obliging_service_def world_key_hello_no_def world0_def)
  note plain = env_in_file_flag_ignored[where service = offline_service and api_key = "''sk-1''"
      and reference_source = Static and w = world0 and a = default_args
      and g = "''plain text''"]
  note two = env_in_file_flag_ignored[where service = offline_service and api_key = "''sk-1''"
      and reference_source = Static and w = world0 and a = default_args
      and g = reply_two_blocks
      and pre = "''```docker-compose'' @ nl @ ''FOO'' @ nl @ ''```'' @ nl"
      and body = "nl @ ''BAR'' @ nl" and rest' = "[]", unfolded sb]
  note unclosed = env_in_file_flag_ignored[where service = offline_service
      and api_key = "''sk-1''" and reference_source = Static and w = world0 and a = default_args
      and g = reply_unclosed_env and pre = "[]" and post = "nl @ ''KEY=1''", unfolded su]
  note flag = env_in_file_flag_ignored[where service = offline_service and api_key = "''sk-1''"
      and reference_source = Static and w = world_key_hello and a = default_args]
  note whole = env_in_file_flag_ignored[where service = obliging_service and api_key = "''sk-1''"
      and reference_source = Static and w = world_key_hello_no and a = default_args
      and env_vars_in_file = True and us = "[]" and m' = "start_messages world_key_hello_no"
      and u = "''hello''" and rest = "[Line ''no'']"
      and announce = "''Thanks. '' @ sentinel @ ''.''" and final = reply_two_blocks]
  have f: "script offline_service (default_args\<lparr>env_in_file := True\<rparr>) world_key_hello =
     script offline_service (default_args\<lparr>env_in_file := False\<rparr>) world_key_hello"
    using flag by blast
  have w1: "written (new_events world_key_hello_no
     (snd (generate_docker_compose obliging_service ''sk-1'' Static True world_key_hello_no))) =
     [(docker_compose_path, ''FOO''), (env_path, ''BAR'')]"
    and w2: "files (snd (generate_docker_compose obliging_service ''sk-1'' Static True
       world_key_hello_no)) env_path = Some ''BAR''"
  proof -
    have raw: "written (new_events world_key_hello_no
        (snd (generate_docker_compose obliging_service ''sk-1'' Static True world_key_hello_no))) =
        (docker_compose_path, fst (extract_blocks reply_two_blocks)) #
        (if snd (extract_blocks reply_two_blocks) \<noteq> []
         then [(env_path, snd (extract_blocks reply_two_blocks))] else []) \<and>
      files (snd (generate_docker_compose obliging_service ''sk-1'' Static True world_key_hello_no))
        docker_compose_path = Some (fst (extract_blocks reply_two_blocks)) \<and>
      files (snd (generate_docker_compose obliging_service ''sk-1'' Static True world_key_hello_no))
        env_path =
        (if snd (extract_blocks reply_two_blocks) \<noteq> []
         then Some (snd (extract_blocks reply_two_blocks))
         else files world_key_hello_no env_path)"
      using whole run by blast
    show "written (new_events world_key_hello_no
       (snd (generate_docker_compose obliging_service ''sk-1'' Static True world_key_hello_no))) =
       [(docker_compose_path, ''FOO''), (env_path, ''BAR'')]"
      using raw by (simp add: extract_two_blocks)
    show "files (snd (generate_docker_compose obliging_service ''sk-1'' Static True
       world_key_hello_no)) env_path = Some ''BAR''"
      using raw by (simp add: extract_two_blocks)
  qed
  have p1: "snd (extract_blocks ''plain text'') = []" using plain n by blast
  have p2: "\<forall>c. (env_path, c) \<notin> set (written (new_events world0 (snd (handle_reply ''plain text'' world0))))"
    using plain p1 by blast
  have t1: "snd (extract_blocks reply_two_blocks) = ''BAR''" using two ob by blast
  have t2: "\<exists>c. (env_path, c) \<in> set (written (new_events world0 (snd (handle_reply reply_two_blocks world0))))"
    using two t1 by simp
  have u1: "snd (extract_blocks reply_unclosed_env) = ''KEY=1''" using unclosed un by blast
  show ?thesis using f w1 w2 n p1 p2 ob t1 t2 u1 by blast
qed

text \<open>
  The file does not go with "a non-empty fenced \<^verbatim>\<open>```env\<close> block in the reply". A reply
  with a complete, non-empty \<^verbatim>\<open>```env\<close> block after an empty one leaves no
  environment-variable file, and a reply whose \<^verbatim>\<open>```env\<close> marker is never closed by a
  fence gets one.
\<close>

theorem env_file_not_tied_to_fenced_block:
  "reply_env_after_empty_env =
     (''```env'' @ nl @ ''```'' @ nl) @ env_marker @ (nl @ ''KEY=1'' @ nl) @ fence @ [] \<and>
   \<not> contains ((nl @ ''KEY=1'' @ nl) @ ''``'') fence \<and>
   strip (nl @ ''KEY=1'' @ nl) = ''KEY=1'' \<and>
   written (new_events world0 (snd (handle_reply reply_env_after_empty_env world0))) =
     [(docker_compose_path, [])] \<and>
   files (snd (handle_reply reply_env_after_empty_env world0)) env_path = None \<and>
   reply_unclosed_env = env_marker @ nl @ ''KEY=1'' \<and>
   \<not> contains (nl @ ''KEY=1'') fence \<and>
   written (new_events world0 (snd (handle_reply reply_unclosed_env world0))) =
     [(docker_compose_path, []), (env_path, ''KEY=1'')] \<and>
   files (snd (handle_reply reply_unclosed_env world0)) env_path = Some ''KEY=1''"
proof -
  have e1: "extract_blocks reply_env_after_empty_env = ([], [])"
    by (simp add: reply_env_after_empty_env_def extract_blocks_def block_after_def block_text_def
      docker_compose_marker_def env_marker_def yaml_marker_def fence_def nl_def
      strip_def strip_chars_def is_space_def)
  have e2: "extract_blocks reply_unclosed_env = ([], ''KEY=1'')"
    by (simp add: reply_unclosed_env_def extract_blocks_def block_after_def block_text_def
      docker_compose_marker_def env_marker_def yaml_marker_def fence_def nl_def
      strip_def strip_chars_def is_space_def)
  have d: "reply_env_after_empty_env =
     (''```env'' @ nl @ ''```'' @ nl) @ env_marker @ (nl @ ''KEY=1'' @ nl) @ fence @ []"
    "reply_unclosed_env = env_marker @ nl @ ''KEY=1''"
    by (simp_all add: reply_env_after_empty_env_def reply_unclosed_env_def env_marker_def fence_def)
  have c: "\<not> contains ((nl @ ''KEY=1'' @ nl) @ ''``'') fence" "\<not> contains (nl @ ''KEY=1'') fence"
    by (simp_all add: fence_def nl_def)
  have s: "strip (nl @ ''KEY=1'' @ nl) = ''KEY=1''"
    by (simp add: strip_def strip_chars_def is_space_def nl_def)
  have f: "files world0 env_path = None" by (simp add: world0_def)
  have r1: "written (new_events world0 (snd (handle_reply reply_env_after_empty_env world0))) =
     [(docker_compose_path, [])] \<and>
     files (snd (handle_reply reply_env_after_empty_env world0)) env_path = None"
    using handle_reply_effects[OF e1, of world0] f paths_differ by (simp add: files_save_outputs)
  have r2: "written (new_events world0 (snd (handle_reply reply_unclosed_env world0))) =
     [(docker_compose_path, []), (env_path, ''KEY=1'')] \<and>
     files (snd (handle_reply reply_unclosed_env world0)) env_path = Some ''KEY=1''"
    using handle_reply_effects[OF e2, of world0] paths_differ by (simp add: files_save_outputs)
  show ?thesis using d c s r1 r2 by blast
qed

end
